(* ===== verification/Prelude.thy ===== *)
theory Prelude
  imports Complex_Main "HOL-Library.Word"
begin

section \<open>Shared notions: Python results, effects, bytes\<close>

text \<open>
  What every component of the model uses: the exceptions the SDK raises or lets through, the
  outcome of a Python call, the state-and-exception monad in which the stateful methods are
  written, and the operations on \<open>bytes\<close> the code relies on (indexing by \<open>find\<close>, slices,
  \<open>hex\<close>, \<open>fromhex\<close>, \<open>int.to_bytes\<close>, \<open>int.from_bytes\<close>).

  Log calls have no effect on the results and are left out. The text of an exception message is
  kept without the values the f-strings interpolate.
\<close>

named_theorems py_defs \<open>definitions of the monad's operations, unfolded to run a method\<close>
named_theorems py_inv \<open>what a composed method's outcome says of its parts\<close>

type_synonym byte = "8 word"
type_synonym bytes = "8 word list"

subsection \<open>Exceptions and outcomes\<close>

datatype exn =
    RuntimeError string
  | ValueError string
  | TypeError string
  | AttributeError string
  | KeyError
  | IndexError
  | OverflowError
  | StructError
  | AssertionError
  | NotImplementedError string
  | TimeoutError string
  | BlockingIOError
  | ConnectionResetError
  | OSError string
  | NoResponse
  | NegativeResponse int string
  | InvalidResponse string
  | DeviceShellException string
  | UnboundLocalError
  | LibraryError string

text \<open>
  The outcome of a call: a value, an exception, or no return at all. \<open>Diverge\<close> is never caught
  by an exception handler: it is what a loop without a bound gives.
\<close>

datatype 'a res = Val 'a | Exn exn | Diverge

type_synonym ('s, 'a) py = "'s \<Rightarrow> 'a res \<times> 's"

definition py_ret :: "'a \<Rightarrow> ('s, 'a) py" where
  [py_defs]: "py_ret a = (\<lambda>s. (Val a, s))"

definition py_raise :: "exn \<Rightarrow> ('s, 'a) py" where
  [py_defs]: "py_raise e = (\<lambda>s. (Exn e, s))"

definition py_diverge :: "('s, 'a) py" where
  [py_defs]: "py_diverge = (\<lambda>s. (Diverge, s))"

definition py_bind :: "('s, 'a) py \<Rightarrow> ('a \<Rightarrow> ('s, 'b) py) \<Rightarrow> ('s, 'b) py" where
  [py_defs]: "py_bind m f = (\<lambda>s. case m s of
       (Val a, t) \<Rightarrow> f a t
     | (Exn e, t) \<Rightarrow> (Exn e, t)
     | (Diverge, t) \<Rightarrow> (Diverge, t))"

text \<open>\<open>try: m  except Exception as ex: h(ex)\<close>: the state changes made before the raise stay.\<close>

definition py_catch :: "('s, 'a) py \<Rightarrow> (exn \<Rightarrow> ('s, 'a) py) \<Rightarrow> ('s, 'a) py" where
  [py_defs]: "py_catch m h = (\<lambda>s. case m s of
       (Val a, t) \<Rightarrow> (Val a, t)
     | (Exn e, t) \<Rightarrow> h e t
     | (Diverge, t) \<Rightarrow> (Diverge, t))"

definition py_lift :: "exn + 'a \<Rightarrow> ('s, 'a) py" where
  [py_defs]: "py_lift r = (case r of Inl e \<Rightarrow> py_raise e | Inr a \<Rightarrow> py_ret a)"

definition py_get :: "('s \<Rightarrow> 'a) \<Rightarrow> ('s, 'a) py" where
  [py_defs]: "py_get f = (\<lambda>s. (Val (f s), s))"

definition py_modify :: "('s \<Rightarrow> 's) \<Rightarrow> ('s, unit) py" where
  [py_defs]: "py_modify f = (\<lambda>s. (Val (), f s))"

definition py_seq :: "('s, 'a) py \<Rightarrow> ('s, 'b) py \<Rightarrow> ('s, 'b) py" where
  [py_defs]: "py_seq m n = py_bind m (\<lambda>_. n)"

text \<open>\<open>for x in xs: body(x)\<close>, left by the first exception.\<close>

fun py_for :: "'x list \<Rightarrow> ('x \<Rightarrow> ('s, unit) py) \<Rightarrow> ('s, unit) py" where
  "py_for [] body = py_ret ()"
| "py_for (x # xs) body = py_seq (body x) (py_for xs body)"

subsection \<open>Running composed methods\<close>

lemma run_ret [simp]: "py_ret a s = (Val a, s)"
  by (simp add: py_defs)

lemma run_raise [simp]: "py_raise e s = (Exn e, s)"
  by (simp add: py_defs)

lemma run_get [simp]: "py_get f s = (Val (f s), s)"
  by (simp add: py_defs)

lemma run_modify [simp]: "py_modify f s = (Val (), f s)"
  by (simp add: py_defs)

lemma run_lift [simp]:
  "py_lift (Inl e) s = (Exn e, s)"
  "py_lift (Inr a) s = (Val a, s)"
  by (simp_all add: py_defs)

lemma run_bind_Val: "m s = (Val a, t) \<Longrightarrow> py_bind m f s = f a t"
  by (simp add: py_defs)

lemma run_bind_Exn: "m s = (Exn e, t) \<Longrightarrow> py_bind m f s = (Exn e, t)"
  by (simp add: py_defs)

lemma run_seq_Val: "m s = (Val a, t) \<Longrightarrow> py_seq m n s = n t"
  by (simp add: py_defs)

lemma run_seq_Exn: "m s = (Exn e, t) \<Longrightarrow> py_seq m n s = (Exn e, t)"
  by (simp add: py_defs)

lemma py_bind_Val_iff [py_inv]:
  "py_bind m f s = (Val b, t) \<longleftrightarrow> (\<exists>a u. m s = (Val a, u) \<and> f a u = (Val b, t))"
  by (auto simp: py_defs split: prod.splits res.splits)

lemma py_bind_Exn_iff [py_inv]:
  "py_bind m f s = (Exn e, t) \<longleftrightarrow>
     m s = (Exn e, t) \<or> (\<exists>a u. m s = (Val a, u) \<and> f a u = (Exn e, t))"
  by (auto simp: py_defs split: prod.splits res.splits)

lemma py_bind_Diverge_iff [py_inv]:
  "py_bind m f s = (Diverge, t) \<longleftrightarrow>
     m s = (Diverge, t) \<or> (\<exists>a u. m s = (Val a, u) \<and> f a u = (Diverge, t))"
  by (auto simp: py_defs split: prod.splits res.splits)

lemma py_seq_Val_iff [py_inv]:
  "py_seq m n s = (Val b, t) \<longleftrightarrow> (\<exists>a u. m s = (Val a, u) \<and> n u = (Val b, t))"
  by (auto simp: py_seq_def py_bind_Val_iff)

lemma py_catch_Val_iff [py_inv]:
  "py_catch m h s = (Val a, t) \<longleftrightarrow>
     m s = (Val a, t) \<or> (\<exists>e u. m s = (Exn e, u) \<and> h e u = (Val a, t))"
  by (auto simp: py_defs split: prod.splits res.splits)

lemma py_catch_Exn_iff [py_inv]:
  "py_catch m h s = (Exn e, t) \<longleftrightarrow> (\<exists>e' u. m s = (Exn e', u) \<and> h e' u = (Exn e, t))"
  by (auto simp: py_defs split: prod.splits res.splits)

lemma py_lift_Val_iff [py_inv]: "py_lift r s = (Val a, t) \<longleftrightarrow> r = Inr a \<and> t = s"
  by (cases r) auto

lemma py_lift_Exn_iff [py_inv]: "py_lift r s = (Exn e, t) \<longleftrightarrow> r = Inl e \<and> t = s"
  by (cases r) auto

lemma py_lift_not_Diverge [simp]: "py_lift r s \<noteq> (Diverge, t)"
  by (cases r) auto

text \<open>A method that only ever returns a value or raises.\<close>

definition returns :: "('s, 'a) py \<Rightarrow> 's \<Rightarrow> bool" where
  "returns m s \<longleftrightarrow> fst (m s) \<noteq> Diverge"

lemma returns_ret [intro, simp]: "returns (py_ret a) s"
  by (simp add: returns_def)

lemma returns_raise [intro, simp]: "returns (py_raise e) s"
  by (simp add: returns_def)

lemma returns_get [intro, simp]: "returns (py_get f) s"
  by (simp add: returns_def)

lemma returns_modify [intro, simp]: "returns (py_modify f) s"
  by (simp add: returns_def)

lemma returns_lift [intro, simp]: "returns (py_lift r) s"
  by (cases r) (auto simp: returns_def)

lemma returns_bind:
  assumes "returns m s" and "\<And>a t. m s = (Val a, t) \<Longrightarrow> returns (f a) t"
  shows "returns (py_bind m f) s"
  using assms by (auto simp: returns_def py_defs split: prod.splits res.splits)

lemma returns_seq:
  assumes "returns m s" and "\<And>a t. m s = (Val a, t) \<Longrightarrow> returns n t"
  shows "returns (py_seq m n) s"
  using assms by (auto simp: py_seq_def intro: returns_bind)

lemma returns_catch:
  assumes "returns m s" and "\<And>e t. m s = (Exn e, t) \<Longrightarrow> returns (h e) t"
  shows "returns (py_catch m h) s"
  using assms by (auto simp: returns_def py_defs split: prod.splits res.splits)

text \<open>What holds of the state before a composed method holds after it, whatever its outcome.\<close>

definition keeps :: "('s \<Rightarrow> bool) \<Rightarrow> ('s, 'a) py \<Rightarrow> bool" where
  "keeps I m \<longleftrightarrow> (\<forall>s. I s \<longrightarrow> I (snd (m s)))"

lemma keepsI: "(\<And>s. I s \<Longrightarrow> I (snd (m s))) \<Longrightarrow> keeps I m"
  by (simp add: keeps_def)

lemma keeps_run: "keeps I m \<Longrightarrow> I s \<Longrightarrow> I (snd (m s))"
  by (simp add: keeps_def)

lemma keepsD: "keeps I m \<Longrightarrow> I s \<Longrightarrow> m s = (r, t) \<Longrightarrow> I t"
  by (metis keeps_def snd_conv)

lemma keeps_ret [intro, simp]: "keeps I (py_ret a)"
  by (simp add: keeps_def)

lemma keeps_raise [intro, simp]: "keeps I (py_raise e)"
  by (simp add: keeps_def)

lemma keeps_get [intro, simp]: "keeps I (py_get f)"
  by (simp add: keeps_def)

lemma keeps_lift [intro, simp]: "keeps I (py_lift r)"
  by (cases r) (auto simp: keeps_def)

lemma keeps_bind [intro]:
  "keeps I m \<Longrightarrow> (\<And>a. keeps I (f a)) \<Longrightarrow> keeps I (py_bind m f)"
  by (fastforce simp: keeps_def py_defs split: prod.splits res.splits)

lemma keeps_seq [intro]: "keeps I m \<Longrightarrow> keeps I n \<Longrightarrow> keeps I (py_seq m n)"
  by (auto simp: py_seq_def)

lemma keeps_catch [intro]:
  "keeps I m \<Longrightarrow> (\<And>e. keeps I (h e)) \<Longrightarrow> keeps I (py_catch m h)"
  by (fastforce simp: keeps_def py_defs split: prod.splits res.splits)

lemma keeps_for [intro]: "(\<And>x. x \<in> set xs \<Longrightarrow> keeps I (b x)) \<Longrightarrow> keeps I (py_for xs b)"
  by (induction xs) auto

text \<open>
  What relates the states before and after a method, whatever its outcome: for a relation that is
  reflexive and transitive, a composed method has what its parts have.
\<close>

definition moves :: "('s \<Rightarrow> 's \<Rightarrow> bool) \<Rightarrow> ('s, 'a) py \<Rightarrow> bool" where
  "moves R m \<longleftrightarrow> (\<forall>s. R s (snd (m s)))"

lemma movesI: "(\<And>s r t. m s = (r, t) \<Longrightarrow> R s t) \<Longrightarrow> moves R m"
  by (metis moves_def prod.collapse)

lemma movesD: "moves R m \<Longrightarrow> m s = (r, t) \<Longrightarrow> R s t"
  by (metis moves_def snd_conv)

lemma moves_at: "(\<And>s. moves R (m s)) \<Longrightarrow> moves R (\<lambda>s. m s s)"
  by (simp add: moves_def)

lemma moves_ret [intro, simp]: "reflp R \<Longrightarrow> moves R (py_ret a)"
  by (simp add: moves_def reflpD)

lemma moves_raise [intro, simp]: "reflp R \<Longrightarrow> moves R (py_raise e)"
  by (simp add: moves_def reflpD)

lemma moves_diverge [intro, simp]: "reflp R \<Longrightarrow> moves R py_diverge"
  by (simp add: moves_def reflpD py_diverge_def)

lemma moves_get [intro, simp]: "reflp R \<Longrightarrow> moves R (py_get f)"
  by (simp add: moves_def reflpD)

lemma moves_lift [intro, simp]: "reflp R \<Longrightarrow> moves R (py_lift r)"
  by (cases r) (auto simp: moves_def reflpD)

lemma moves_bind [intro]:
  "transp R \<Longrightarrow> moves R m \<Longrightarrow> (\<And>a. moves R (f a)) \<Longrightarrow> moves R (py_bind m f)"
proof (rule movesI)
  fix s r t
  assume R: "transp R" "moves R m" "\<And>a. moves R (f a)" and run: "py_bind m f s = (r, t)"
  obtain q u where m: "m s = (q, u)" by fastforce
  have "R s u"
    using R(2) m by (rule movesD)
  moreover have "R u t" if "q = Val a" for a
    using movesD [OF R(3) [of a], of u r t] run m that by (simp add: py_bind_def)
  ultimately show "R s t"
    using transpD [OF R(1)] run m by (cases q) (auto simp: py_bind_def)
qed

lemma moves_seq [intro]: "transp R \<Longrightarrow> moves R m \<Longrightarrow> moves R n \<Longrightarrow> moves R (py_seq m n)"
  by (auto simp: py_seq_def)

lemma moves_catch [intro]:
  "transp R \<Longrightarrow> moves R m \<Longrightarrow> (\<And>e. moves R (h e)) \<Longrightarrow> moves R (py_catch m h)"
proof (rule movesI)
  fix s r t
  assume R: "transp R" "moves R m" "\<And>e. moves R (h e)" and run: "py_catch m h s = (r, t)"
  obtain q u where m: "m s = (q, u)" by fastforce
  have "R s u"
    using R(2) m by (rule movesD)
  moreover have "R u t" if "q = Exn e" for e
    using movesD [OF R(3) [of e], of u r t] run m that by (simp add: py_catch_def)
  ultimately show "R s t"
    using transpD [OF R(1)] run m by (cases q) (auto simp: py_catch_def)
qed

lemma moves_for [intro]:
  "reflp R \<Longrightarrow> transp R \<Longrightarrow> (\<And>x. x \<in> set xs \<Longrightarrow> moves R (b x)) \<Longrightarrow> moves R (py_for xs b)"
  by (induction xs) auto

text \<open>The relation for a measure that never grows.\<close>

definition no_more :: "('s \<Rightarrow> nat) \<Rightarrow> 's \<Rightarrow> 's \<Rightarrow> bool" where
  "no_more \<mu> s t \<longleftrightarrow> \<mu> t \<le> \<mu> s"

lemma no_more_refl [intro!, simp]: "reflp (no_more \<mu>)"
  by (simp add: reflp_def no_more_def)

lemma no_more_trans [intro!, simp]: "transp (no_more \<mu>)"
  by (auto simp: transp_def no_more_def)

subsection \<open>Bytes and integers\<close>

text \<open>
  \<open>int.from_bytes(b, 'big')\<close> and \<open>int.to_bytes(n, 'big')\<close>: the conversion to a given length
  raises \<open>OverflowError\<close> on a negative integer or one that does not fit.
\<close>

definition from_bytes_be :: "bytes \<Rightarrow> int" where
  "from_bytes_be bs = foldl (\<lambda>a b. a * 256 + uint b) 0 bs"

fun be_digits :: "nat \<Rightarrow> int \<Rightarrow> bytes" where
  "be_digits 0 v = []"
| "be_digits (Suc n) v = be_digits n (v div 256) @ [word_of_int (v mod 256)]"

definition to_bytes_be :: "nat \<Rightarrow> int \<Rightarrow> exn + bytes" where
  "to_bytes_be n v = (if 0 \<le> v \<and> v < 256 ^ n then Inr (be_digits n v) else Inl OverflowError)"

lemma from_bytes_be_Nil [simp]: "from_bytes_be [] = 0"
  by (simp add: from_bytes_be_def)

lemma from_bytes_be_snoc [simp]: "from_bytes_be (bs @ [b]) = from_bytes_be bs * 256 + uint b"
  by (simp add: from_bytes_be_def)

lemma uint_byte_bounds [simp]: "0 \<le> uint (b :: byte)" "uint (b :: byte) < 256"
  using uint_lt2p [of b] by simp_all

lemma uint_byte_of_mod [simp]: "uint (word_of_int (v mod 256) :: byte) = v mod 256"
  by (simp add: uint_word_of_int)

lemma word_of_uint_mod [simp]: "word_of_int ((v * 256 + uint b) mod 256) = (b :: byte)"
proof -
  have "(v * 256 + uint b) mod 256 = uint b"
    by (simp add: mod_mult_self3)
  then show ?thesis
    by simp
qed

lemma length_be_digits [simp]: "length (be_digits n v) = n"
  by (induction n arbitrary: v) auto

lemma from_bytes_be_nonneg: "0 \<le> from_bytes_be bs"
  by (induction bs rule: rev_induct) auto

lemma from_bytes_be_bound: "from_bytes_be bs < 256 ^ length bs"
proof (induction bs rule: rev_induct)
  case Nil
  then show ?case by simp
next
  case (snoc b bs)
  have "from_bytes_be bs + 1 \<le> 256 ^ length bs"
    using snoc.IH by simp
  then have "from_bytes_be bs * 256 + 256 \<le> 256 ^ Suc (length bs)"
    by simp
  then show ?case
    using uint_byte_bounds(2) [of b] by (simp del: uint_byte_bounds)
qed

lemma from_be_digits:
  "0 \<le> v \<Longrightarrow> v < 256 ^ n \<Longrightarrow> from_bytes_be (be_digits n v) = v"
proof (induction n arbitrary: v)
  case 0
  then show ?case by simp
next
  case (Suc n)
  have "v div 256 < 256 ^ n"
    using Suc.prems by (simp add: div_less_iff_less_mult mult.commute)
  then have "from_bytes_be (be_digits n (v div 256)) = v div 256"
    using Suc.prems by (intro Suc.IH) (auto simp: pos_imp_zdiv_nonneg_iff)
  then show ?case
    by simp
qed

lemma be_digits_from: "be_digits (length bs) (from_bytes_be bs) = bs"
proof (induction bs rule: rev_induct)
  case Nil
  then show ?case by simp
next
  case (snoc b bs)
  have "(from_bytes_be bs * 256 + uint b) div 256 = from_bytes_be bs"
    by (simp add: div_mult_self3)
  then show ?case
    using snoc.IH by simp
qed

lemma to_bytes_be_from: "to_bytes_be (length bs) (from_bytes_be bs) = Inr bs"
  by (simp add: to_bytes_be_def from_bytes_be_nonneg from_bytes_be_bound be_digits_from)

lemma to_bytes_be_Inr_iff:
  "to_bytes_be n v = Inr bs \<longleftrightarrow> length bs = n \<and> from_bytes_be bs = v"
  by (auto simp: to_bytes_be_def from_be_digits be_digits_from from_bytes_be_nonneg
      from_bytes_be_bound)

subsection \<open>Searching and printing bytes\<close>

text \<open>\<open>xs.find(pat, start)\<close> for a non-negative start: the least position, or -1.\<close>

definition py_find :: "'a list \<Rightarrow> 'a list \<Rightarrow> nat \<Rightarrow> int" where
  "py_find xs pat start =
     (case find (\<lambda>i. take (length pat) (drop i xs) = pat) [start..<Suc (length xs) - length pat] of
        None \<Rightarrow> -1
      | Some i \<Rightarrow> int i)"

definition occurs_at :: "'a list \<Rightarrow> 'a list \<Rightarrow> nat \<Rightarrow> bool" where
  "occurs_at xs pat i \<longleftrightarrow> i + length pat \<le> length xs \<and> take (length pat) (drop i xs) = pat"

lemma find_upt_first:
  assumes "i \<le> j" "j < n" "P j" "\<And>k. i \<le> k \<Longrightarrow> k < j \<Longrightarrow> \<not> P k"
  shows "find P [i..<n] = Some j"
  using assms
proof (induction "j - i" arbitrary: i)
  case 0
  then show ?case by (simp add: upt_conv_Cons)
next
  case (Suc d)
  then have "i < n" and "\<not> P i" by auto
  moreover have "find P [Suc i..<n] = Some j"
    using Suc by (intro Suc.hyps(1)) auto
  ultimately show ?case by (simp add: upt_conv_Cons)
qed

lemma find_upt_None: "(\<And>k. i \<le> k \<Longrightarrow> k < n \<Longrightarrow> \<not> P k) \<Longrightarrow> find P [i..<n] = None"
  by (auto simp: find_None_iff)

lemma py_find_first:
  assumes "start \<le> j" "occurs_at xs pat j"
    and "\<And>k. start \<le> k \<Longrightarrow> k < j \<Longrightarrow> \<not> occurs_at xs pat k"
  shows "py_find xs pat start = int j"
proof -
  have "find (\<lambda>i. take (length pat) (drop i xs) = pat)
          [start..<Suc (length xs) - length pat] = Some j"
    using assms by (intro find_upt_first) (auto simp: occurs_at_def)
  then show ?thesis by (simp add: py_find_def)
qed

lemma py_find_none:
  assumes "\<And>k. start \<le> k \<Longrightarrow> \<not> occurs_at xs pat k"
  shows "py_find xs pat start = -1"
proof -
  have "find (\<lambda>i. take (length pat) (drop i xs) = pat)
          [start..<Suc (length xs) - length pat] = None"
    using assms by (intro find_upt_None) (auto simp: occurs_at_def)
  then show ?thesis by (simp add: py_find_def)
qed

text \<open>\<open>bytes.hex()\<close>: two lower-case digits for each byte.\<close>

definition hex_digit :: "nat \<Rightarrow> char" where
  "hex_digit n = ''0123456789abcdef'' ! n"

definition hex_byte :: "byte \<Rightarrow> string" where
  "hex_byte b = [hex_digit (unat b div 16), hex_digit (unat b mod 16)]"

definition bytes_hex :: "bytes \<Rightarrow> string" where
  "bytes_hex bs = concat (map hex_byte bs)"

text \<open>The value of an alphanumeric character as a digit, in any base up to 36.\<close>

definition digit_val :: "char \<Rightarrow> nat option" where
  "digit_val c =
     (let k = of_char c in
      if 48 \<le> k \<and> k \<le> 57 then Some (k - 48)
      else if 97 \<le> k \<and> k \<le> 122 then Some (k - 87)
      else if 65 \<le> k \<and> k \<le> 90 then Some (k - 55)
      else None)"

definition is_ascii_space :: "char \<Rightarrow> bool" where
  "is_ascii_space c \<longleftrightarrow> (of_char c :: nat) \<in> {9, 10, 11, 12, 13, 32}"

definition hex_val :: "char \<Rightarrow> nat option" where
  "hex_val c = (case digit_val c of Some d \<Rightarrow> if d < 16 then Some d else None | None \<Rightarrow> None)"

text \<open>\<open>bytes.fromhex(s)\<close>: pairs of digits, ASCII white space allowed between the bytes.\<close>

fun bytes_fromhex :: "string \<Rightarrow> exn + bytes" where
  "bytes_fromhex [] = Inr []"
| "bytes_fromhex [c] =
     (if is_ascii_space c then Inr [] else Inl (ValueError ''non-hexadecimal number''))"
| "bytes_fromhex (c # d # cs) =
     (if is_ascii_space c then bytes_fromhex (d # cs)
      else case (hex_val c, hex_val d) of
        (Some x, Some y) \<Rightarrow>
          (case bytes_fromhex cs of
             Inl e \<Rightarrow> Inl e
           | Inr bs \<Rightarrow> Inr (word_of_nat (16 * x + y) # bs))
      | _ \<Rightarrow> Inl (ValueError ''non-hexadecimal number''))"

lemma less_16_cases:
  "(n::nat) < 16 \<Longrightarrow> n \<in> {0, 1, 2, 3, 4, 5, 6, 7, 8, 9, 10, 11, 12, 13, 14, 15}"
  by auto presburger

lemma hex_val_digit [simp]: "n < 16 \<Longrightarrow> hex_val (hex_digit n) = Some n"
  by (drule less_16_cases) (auto simp: hex_val_def hex_digit_def digit_val_def)

lemma hex_digit_not_space [simp]: "n < 16 \<Longrightarrow> \<not> is_ascii_space (hex_digit n)"
  by (drule less_16_cases) (auto simp: is_ascii_space_def hex_digit_def)

lemma unat_byte_less [simp]: "unat (b :: byte) < 256"
  using unsigned_less [where ?'a = nat, of b] by simp

lemma unat_byte_div [simp]: "unat (b :: byte) div 16 < 16"
  using unat_byte_less [of b] by linarith

lemma bytes_fromhex_hex: "bytes_fromhex (bytes_hex bs) = Inr bs"
proof (induction bs)
  case Nil
  then show ?case by (simp add: bytes_hex_def)
next
  case (Cons b bs)
  have "16 * (unat b div 16) + unat b mod 16 = unat b"
    by simp
  with Cons show ?case
    by (simp add: bytes_hex_def hex_byte_def)
qed

lemma length_bytes_hex: "length (bytes_hex bs) = 2 * length bs"
  by (induction bs) (auto simp: bytes_hex_def hex_byte_def)

subsection \<open>Text in text\<close>

text \<open>\<open>p in s\<close> for strings.\<close>

fun py_contains :: "string \<Rightarrow> string \<Rightarrow> bool" where
  "py_contains p [] \<longleftrightarrow> p = []"
| "py_contains p (c # cs) \<longleftrightarrow> take (length p) (c # cs) = p \<or> py_contains p cs"

lemma py_contains_iff: "py_contains p s \<longleftrightarrow> (\<exists>u v. s = u @ p @ v)"
proof (induction s)
  case (Cons c cs)
  have "take (length p) (c # cs) = p \<longleftrightarrow> (\<exists>v. c # cs = p @ v)"
    by (metis append_take_drop_id append_eq_conv_conj)
  moreover have "(\<exists>u v. c # cs = u @ p @ v) \<longleftrightarrow> (\<exists>v. c # cs = p @ v) \<or> (\<exists>u v. cs = u @ p @ v)"
    by (metis append_Cons append_Nil list.inject neq_Nil_conv)
  ultimately show ?case
    using Cons by simp
qed simp

lemma py_contains_Nil [simp]: "py_contains [] s"
  by (cases s) simp_all

subsection \<open>Case of ASCII letters\<close>

definition ascii_lower :: "char \<Rightarrow> char" where
  "ascii_lower c = (let k = of_char c :: nat in if 65 \<le> k \<and> k \<le> 90 then char_of (k + 32) else c)"

definition ascii_upper :: "char \<Rightarrow> char" where
  "ascii_upper c = (let k = of_char c :: nat in if 97 \<le> k \<and> k \<le> 122 then char_of (k - 32) else c)"

definition is_ascii_letter :: "char \<Rightarrow> bool" where
  "is_ascii_letter c \<longleftrightarrow> ascii_lower c \<noteq> c \<or> ascii_upper c \<noteq> c"

text \<open>\<open>title()\<close>: \<open>inside\<close> says whether the character before was a letter.\<close>

fun title_from :: "bool \<Rightarrow> string \<Rightarrow> string" where
  "title_from inside [] = []"
| "title_from inside (c # cs) =
     (if is_ascii_letter c
      then (if inside then ascii_lower c else ascii_upper c) # title_from True cs
      else c # title_from False cs)"

definition py_title :: "string \<Rightarrow> string" where
  "py_title s = title_from False s"

end
