(* ===== verification/Uds_Models.thy ===== *)
theory Uds_Models
  imports Prelude
begin

unbundle bit_operations_syntax

section \<open>UDS data: service identifiers, authentication and security-access models\<close>

text \<open>
  Models \<open>protocol/uds/models/uds_models.py\<close>: the enumerations with the values the source gives
  them, the authentication parameter classes with the action each one selects, the two built-in
  security-access algorithms (a subclass a user writes is the constructor \<open>SA_CUSTOM\<close>, which
  carries its \<open>__call__\<close>), and the session models. Integers are unbounded, as in Python; the
  32-bit big-endian packing of a key is where an algorithm can fail.
\<close>

subsection \<open>Service identifiers\<close>

datatype UdsSid =
    DiagnosticSessionControl | EcuReset | SecurityAccess | CommunicationControl | Authentication
  | TesterPresent | AccessTimingParameters | SecuredDataTransmission | ControlDtcSettings
  | ResponseOnEvent | LinkControl | ReadDataByIdentifier | ReadMemoryByAddress
  | ReadScalingDataByIdentifier | ReadDataByIdentifierPeriodic | DynamicallyDefineDataIdentifier
  | WriteDataByIdentifier | WriteMemoryByAddress | ClearDiagnosticInformation
  | ReadDtcInformation | InputOutputControlByIdentifier | RoutineControl | RequestDownload
  | RequestUpload | TransferData | RequestTransferExit | RequestFileTransfer

fun uds_sid_value :: "UdsSid \<Rightarrow> int" where
  "uds_sid_value DiagnosticSessionControl = 0x10"
| "uds_sid_value EcuReset = 0x11"
| "uds_sid_value SecurityAccess = 0x27"
| "uds_sid_value CommunicationControl = 0x28"
| "uds_sid_value Authentication = 0x29"
| "uds_sid_value TesterPresent = 0x3E"
| "uds_sid_value AccessTimingParameters = 0x83"
| "uds_sid_value SecuredDataTransmission = 0x84"
| "uds_sid_value ControlDtcSettings = 0x85"
| "uds_sid_value ResponseOnEvent = 0x86"
| "uds_sid_value LinkControl = 0x87"
| "uds_sid_value ReadDataByIdentifier = 0x22"
| "uds_sid_value ReadMemoryByAddress = 0x23"
| "uds_sid_value ReadScalingDataByIdentifier = 0x24"
| "uds_sid_value ReadDataByIdentifierPeriodic = 0x2A"
| "uds_sid_value DynamicallyDefineDataIdentifier = 0x2C"
| "uds_sid_value WriteDataByIdentifier = 0x2E"
| "uds_sid_value WriteMemoryByAddress = 0x3D"
| "uds_sid_value ClearDiagnosticInformation = 0x14"
| "uds_sid_value ReadDtcInformation = 0x19"
| "uds_sid_value InputOutputControlByIdentifier = 0x2F"
| "uds_sid_value RoutineControl = 0x31"
| "uds_sid_value RequestDownload = 0x34"
| "uds_sid_value RequestUpload = 0x35"
| "uds_sid_value TransferData = 0x36"
| "uds_sid_value RequestTransferExit = 0x37"
| "uds_sid_value RequestFileTransfer = 0x38"

subsection \<open>Authentication\<close>

datatype AuthenticationAction =
    PKI_CertificateExchangeUnidirectional
  | PKI_CertificateExchangeBidirectional
  | ChallengeResponse
  | AuthenticationConfiguration
  | DeAuthenticate
  | TransmitCertificate

datatype AsymmetricPaddingType = PKCS1v15 | PSS | OAEP

datatype HashingAlgorithm =
    SHA1 | SHA512_224 | SHA512_256 | SHA224 | SHA256 | SHA384 | SHA512
  | SHA3_224 | SHA3_256 | SHA3_384 | SHA3_512 | MD5 | SM3

record unidirectional_params =
  private_key_der :: bytes
  certificate_client :: bytes
  asym_padding_type :: AsymmetricPaddingType
  hash_algorithm :: HashingAlgorithm
  communication_configuration :: int

record transmit_params =
  certificate_evaluation_id :: int
  certificate_data :: bytes

text \<open>
  The subclasses of \<open>AuthenticationParamsBase\<close>. \<open>OtherParams\<close> is a subclass a user writes: it
  has the action it returns and none of the fields of the others.
\<close>

datatype auth_params =
    UnidirectionalAPCEParams unidirectional_params
  | AuthenticationConfigurationParams
  | DeAuthenticateParams
  | TransmitCertificateParams transmit_params
  | OtherParams AuthenticationAction

text \<open>
  \<open>get_non_abstract_subclasses\<close>: a class has its name, whether it is abstract, and the classes derived
  from it, in the order of their definitions.
\<close>

datatype class_tree = ClassNode string bool "class_tree list"

fun class_label :: "class_tree \<Rightarrow> string" where
  "class_label (ClassNode name ab subs) = name"

fun is_abstract :: "class_tree \<Rightarrow> bool" where
  "is_abstract (ClassNode name ab subs) = ab"

fun get_non_abstract_subclasses :: "class_tree \<Rightarrow> string list" where
  "get_non_abstract_subclasses (ClassNode name ab subs) =
     concat (map (\<lambda>c. get_non_abstract_subclasses c @ (if \<not> is_abstract c then [class_label c] else [])) subs)"

definition AuthenticationParamsBase :: class_tree where
  "AuthenticationParamsBase = ClassNode ''AuthenticationParamsBase'' True
     [ClassNode ''BaseAPCEParams'' True [ClassNode ''UnidirectionalAPCEParams'' False []],
      ClassNode ''AuthenticationConfigurationParams'' False [], ClassNode ''DeAuthenticateParams'' False [],
      ClassNode ''TransmitCertificateParams'' False []]"

fun authentication_action :: "auth_params \<Rightarrow> AuthenticationAction" where
  "authentication_action (UnidirectionalAPCEParams _) = PKI_CertificateExchangeUnidirectional"
| "authentication_action AuthenticationConfigurationParams = AuthenticationConfiguration"
| "authentication_action DeAuthenticateParams = DeAuthenticate"
| "authentication_action (TransmitCertificateParams _) = TransmitCertificate"
| "authentication_action (OtherParams a) = a"

datatype AuthenticationReturnParameter =
    RequestAccepted
  | GeneralReject
  | AuthenticationConfiguration_APCE
  | AuthenticationConfiguration_ACR_with_asymmetric_cryptography
  | AuthenticationConfiguration_ACR_with_symmetric_cryptography
  | DeAuthentication_successful
  | CertificateVerified_OwnershipVerificationNecessary
  | OwnershipVerified_AuthenticationComplete
  | CertificateVerified

fun auth_return_value :: "AuthenticationReturnParameter \<Rightarrow> int" where
  "auth_return_value RequestAccepted = 0x00"
| "auth_return_value GeneralReject = 0x01"
| "auth_return_value AuthenticationConfiguration_APCE = 0x02"
| "auth_return_value AuthenticationConfiguration_ACR_with_asymmetric_cryptography = 0x03"
| "auth_return_value AuthenticationConfiguration_ACR_with_symmetric_cryptography = 0x04"
| "auth_return_value DeAuthentication_successful = 0x10"
| "auth_return_value CertificateVerified_OwnershipVerificationNecessary = 0x11"
| "auth_return_value OwnershipVerified_AuthenticationComplete = 0x12"
| "auth_return_value CertificateVerified = 0x13"

definition auth_return_members :: "AuthenticationReturnParameter list" where
  "auth_return_members =
     [RequestAccepted, GeneralReject, AuthenticationConfiguration_APCE,
      AuthenticationConfiguration_ACR_with_asymmetric_cryptography,
      AuthenticationConfiguration_ACR_with_symmetric_cryptography,
      DeAuthentication_successful, CertificateVerified_OwnershipVerificationNecessary,
      OwnershipVerified_AuthenticationComplete, CertificateVerified]"

text \<open>\<open>AuthenticationReturnParameter(v)\<close>: the member with that value, or \<open>ValueError\<close>.\<close>

definition auth_return_of :: "int \<Rightarrow> exn + AuthenticationReturnParameter" where
  "auth_return_of v =
     (case find (\<lambda>p. auth_return_value p = v) auth_return_members of
        None \<Rightarrow> Inl (ValueError ''not a valid AuthenticationReturnParameter'')
      | Some p \<Rightarrow> Inr p)"

lemma auth_return_value_inj: "auth_return_value p = auth_return_value q \<Longrightarrow> p = q"
  by (cases p; cases q) simp_all

lemma auth_return_of_value [simp]: "auth_return_of (auth_return_value p) = Inr p"
  by (cases p) (simp_all add: auth_return_of_def auth_return_members_def)

lemma auth_return_of_Inr: "auth_return_of v = Inr p \<longleftrightarrow> auth_return_value p = v"
proof
  assume "auth_return_of v = Inr p"
  then show "auth_return_value p = v"
    by (auto simp: auth_return_of_def find_Some_iff split: option.splits)
qed auto

datatype UdsStandardVersion = ISO_14229_2006 | ISO_14229_2013 | ISO_14229_2020

subsection \<open>Security-access algorithms\<close>

text \<open>\<open>struct.pack('>L', v)\<close>: four bytes, or \<open>struct.error\<close> outside the 32-bit range.\<close>

definition pack_u32_be :: "int \<Rightarrow> exn + bytes" where
  "pack_u32_be v = (if 0 \<le> v \<and> v < 2 ^ 32 then Inr (be_digits 4 v) else Inl StructError)"

definition xor_key :: "int \<Rightarrow> bytes \<Rightarrow> exn + bytes" where
  "xor_key xor_val seed =
     (let seed_int = from_bytes_be seed; key_int = seed_int XOR xor_val in pack_u32_be key_int)"

definition pin_key :: "int \<Rightarrow> bytes \<Rightarrow> exn + bytes" where
  "pin_key pin seed =
     (let seed_int = from_bytes_be seed; seed_int' = seed_int + pin in pack_u32_be seed_int')"

datatype sa_kind = SA_XOR int | SA_PIN int | SA_CUSTOM "bytes \<Rightarrow> exn + bytes"

record security_algorithm =
  seed_subfunction :: "int option"
  key_subfunction :: "int option"
  sa_kind :: sa_kind

definition call_algorithm :: "security_algorithm \<Rightarrow> bytes \<Rightarrow> exn + bytes" where
  "call_algorithm a seed =
     (case sa_kind a of
        SA_XOR v \<Rightarrow> xor_key v seed
      | SA_PIN p \<Rightarrow> pin_key p seed
      | SA_CUSTOM f \<Rightarrow> f seed)"

lemma pack_u32_be_Inr: "pack_u32_be v = Inr bs \<longleftrightarrow> length bs = 4 \<and> from_bytes_be bs = v"
  using to_bytes_be_Inr_iff [of 4 v bs] by (auto simp: pack_u32_be_def to_bytes_be_def)

lemma pack_u32_be_Inl: "pack_u32_be v = Inl e \<longleftrightarrow> (v < 0 \<or> 2 ^ 32 \<le> v) \<and> e = StructError"
  by (auto simp: pack_u32_be_def)

lemma from_bytes_be_4: "length bs = 4 \<Longrightarrow> 0 \<le> from_bytes_be bs \<and> from_bytes_be bs < 2 ^ 32"
  using from_bytes_be_nonneg [of bs] from_bytes_be_bound [of bs] by simp

lemma xor_u32_bounds:
  "0 \<le> (x::int) \<Longrightarrow> x < 2 ^ 32 \<Longrightarrow> 0 \<le> y \<Longrightarrow> y < 2 ^ 32 \<Longrightarrow> 0 \<le> x XOR y \<and> x XOR y < 2 ^ 32"
  using XOR_upper [of x 32 y] by simp

subsection \<open>Sessions\<close>

record elevation_info =
  need_elevation :: "bool option"
  security_algorithm :: "security_algorithm option"

record SESSION_ACCESS =
  session_id :: int
  elevation_info :: "elevation_info option"

record SESSION_INFO =
  session_accessible :: bool
  info_elevation :: "elevation_info option"
  route_to_session :: "SESSION_ACCESS list"

definition DEFAULT_SESSION :: SESSION_INFO where
  "DEFAULT_SESSION =
     \<lparr>session_accessible = False, info_elevation = None,
      route_to_session = [\<lparr>session_id = 1, elevation_info = None\<rparr>]\<rparr>"

subsection \<open>Properties\<close>

text \<open>Every class of parameters that can be made is listed once, and no base class.\<close>

lemma authentication_classes:
  "get_non_abstract_subclasses AuthenticationParamsBase =
     [''UnidirectionalAPCEParams'', ''AuthenticationConfigurationParams'', ''DeAuthenticateParams'',
      ''TransmitCertificateParams'']"
  by (simp add: AuthenticationParamsBase_def)

text \<open>
  The XOR algorithm on a four-byte seed and a 32-bit value gives a four-byte key, and
  applying it to the key gives the seed back.
\<close>

theorem xor_key_involution:
  assumes "length seed = 4" and "0 \<le> v" and "v < 2 ^ 32"
  shows "\<exists>key. xor_key v seed = Inr key \<and> length key = 4 \<and>
     from_bytes_be key = from_bytes_be seed XOR v \<and> xor_key v key = Inr seed"
proof -
  let ?s = "from_bytes_be seed"
  have bounds: "0 \<le> ?s XOR v" "?s XOR v < 2 ^ 32"
    using from_bytes_be_4 [OF assms(1)] xor_u32_bounds [of ?s v] assms(2,3) by auto
  define key where "key = be_digits 4 (?s XOR v)"
  have key: "pack_u32_be (?s XOR v) = Inr key"
    using bounds by (simp add: pack_u32_be_def key_def)
  then have "length key = 4" "from_bytes_be key = ?s XOR v"
    by (simp_all add: pack_u32_be_Inr)
  moreover from this have "xor_key v key = Inr seed"
    using assms(1) by (simp add: xor_key_def pack_u32_be_Inr xor.assoc)
  ultimately show ?thesis
    using key by (auto simp: xor_key_def)
qed

theorem xor_key_involution_witness:
  "\<exists>key. xor_key 0xFFFFFFFF [1, 2, 3, 4] = Inr key \<and> length key = 4 \<and>
     from_bytes_be key = from_bytes_be [1, 2, 3, 4] XOR 0xFFFFFFFF \<and>
     xor_key 0xFFFFFFFF key = Inr [1, 2, 3, 4]"
  by (rule xor_key_involution) simp_all

end
