(* ===== verification/Crypto_Utils.thy ===== *)
theory Crypto_Utils
  imports Uds_Models
begin

section \<open>Signing: \<open>utils/crypto\<close>\<close>

text \<open>
  Models \<open>CryptoUtils\<close> (\<open>utils/crypto/crypto_utils.py\<close>) and \<open>HashingAlgorithm.enum_to_method\<close>
  (\<open>utils/crypto/models.py\<close>). The package \<open>cryptography\<close> is a parameter: what kind of key a DER
  string holds, and what signing with it gives.
\<close>

datatype key_kind = RSAPrivateKey | DSAPrivateKey | Ed25519PrivateKey | Ed448PrivateKey | OtherKey

text \<open>A hash object of the library, by the name of its class.\<close>

type_synonym hash_object = string

record crypto_lib =
  load_der_private_key :: "bytes \<Rightarrow> exn + key_kind"
  rsa_sign :: "bytes \<Rightarrow> hash_object \<Rightarrow> bytes \<Rightarrow> exn + bytes"
  dsa_sign :: "bytes \<Rightarrow> hash_object \<Rightarrow> bytes \<Rightarrow> exn + bytes"

fun enum_to_method :: "HashingAlgorithm option \<Rightarrow> exn + hash_object" where
  "enum_to_method (Some SHA1) = Inr ''SHA1''"
| "enum_to_method (Some SHA512_224) = Inr ''SHA512_224''"
| "enum_to_method (Some SHA512_256) = Inr ''SHA512_256''"
| "enum_to_method (Some SHA224) = Inr ''SHA224''"
| "enum_to_method (Some SHA256) = Inr ''SHA256''"
| "enum_to_method (Some SHA384) = Inr ''SHA384''"
| "enum_to_method (Some SHA512) = Inr ''SHA512''"
| "enum_to_method (Some SHA3_224) = Inr ''SHA3_224''"
| "enum_to_method (Some SHA3_256) = Inr ''SHA3_256''"
| "enum_to_method (Some SHA3_384) = Inr ''SHA3_384''"
| "enum_to_method (Some SHA3_512) = Inr ''SHA3_512''"
| "enum_to_method (Some MD5) = Inr ''MD5''"
| "enum_to_method (Some SM3) = Inr ''SM3''"
| "enum_to_method None = Inl (ValueError ''invalid argument'')"

definition sign_rsa ::
  "crypto_lib \<Rightarrow> bytes \<Rightarrow> bytes \<Rightarrow> HashingAlgorithm option \<Rightarrow> AsymmetricPaddingType option \<Rightarrow> exn + bytes"
where
  "sign_rsa L key data hash_alg padding =
     (if padding \<noteq> Some PKCS1v15
      then Inl (NotImplementedError ''Currently only PKCS1v15 padding is supported'')
      else case enum_to_method hash_alg of
        Inl e \<Rightarrow> Inl e
      | Inr h \<Rightarrow> rsa_sign L key h data)"

definition sign_dsa ::
  "crypto_lib \<Rightarrow> bytes \<Rightarrow> bytes \<Rightarrow> HashingAlgorithm option \<Rightarrow> exn + bytes" where
  "sign_dsa L key data hash_alg =
     (case enum_to_method hash_alg of
        Inl e \<Rightarrow> Inl e
      | Inr h \<Rightarrow> dsa_sign L key h data)"

text \<open>
  \<open>_sign_ed25519\<close> and \<open>_sign_ed448\<close> take the key and the data; \<open>sign_data\<close> calls them with the
  hash algorithm as a third argument, which Python refuses before the body runs.
\<close>

definition too_many_arguments :: "exn + bytes" where
  "too_many_arguments = Inl (TypeError ''takes 3 positional arguments but 4 were given'')"

definition sign_data ::
  "crypto_lib \<Rightarrow> bytes \<Rightarrow> bytes \<Rightarrow> HashingAlgorithm option \<Rightarrow> AsymmetricPaddingType option \<Rightarrow> exn + bytes"
where
  "sign_data L key data hash_alg padding =
     (case load_der_private_key L key of
        Inl e \<Rightarrow> Inl e
      | Inr RSAPrivateKey \<Rightarrow> sign_rsa L key data hash_alg padding
      | Inr DSAPrivateKey \<Rightarrow> sign_dsa L key data hash_alg
      | Inr Ed25519PrivateKey \<Rightarrow> too_many_arguments
      | Inr Ed448PrivateKey \<Rightarrow> too_many_arguments
      | Inr OtherKey \<Rightarrow> Inl (NotImplementedError ''Key type is not supported ATM''))"

subsection \<open>Properties\<close>

text \<open>
  C15. A signature is only ever made with an RSA or a DSA key: a result of \<open>sign_data\<close> comes from
  the library's RSA signing, and then the padding is PKCS1v15, or from its DSA signing, in both
  cases over the data passed in and with a hash object made from the algorithm passed in. With an
  Ed25519 or Ed448 key, which \<open>sign_data\<close> means to support, the call always raises
  \<open>TypeError\<close>.
\<close>

theorem sign_data_sound:
  "(sign_data L key data hash_alg padding = Inr sig \<longrightarrow>
      (\<exists>h. enum_to_method hash_alg = Inr h \<and>
        (load_der_private_key L key = Inr RSAPrivateKey \<and> padding = Some PKCS1v15 \<and>
           rsa_sign L key h data = Inr sig
         \<or> load_der_private_key L key = Inr DSAPrivateKey \<and> dsa_sign L key h data = Inr sig))) \<and>
   (load_der_private_key L key \<in> {Inr Ed25519PrivateKey, Inr Ed448PrivateKey} \<longrightarrow>
      (\<exists>m. sign_data L key data hash_alg padding = Inl (TypeError m)))"
  by (auto simp: sign_data_def sign_rsa_def sign_dsa_def too_many_arguments_def
      split: sum.splits key_kind.splits if_splits)

definition demo_crypto :: crypto_lib where
  "demo_crypto =
     \<lparr>load_der_private_key = (\<lambda>k. if k = [1] then Inr RSAPrivateKey else Inr Ed25519PrivateKey),
      rsa_sign = (\<lambda>k h d. Inr (k @ d)), dsa_sign = (\<lambda>k h d. Inr d)\<rparr>"

theorem sign_data_sound_witness:
  "sign_data demo_crypto [1] [7] (Some SHA256) (Some PKCS1v15) = Inr [1, 7] \<and>
   enum_to_method (Some SHA256) = Inr ''SHA256'' \<and>
   (\<exists>m. sign_data demo_crypto [2] [7] (Some SHA256) (Some PKCS1v15) = Inl (TypeError m))"
proof -
  have "sign_data demo_crypto [1] [7] (Some SHA256) (Some PKCS1v15) = Inr [1, 7]"
    by (simp add: sign_data_def sign_rsa_def demo_crypto_def)
  moreover have "load_der_private_key demo_crypto [2] = Inr Ed25519PrivateKey"
    by (simp add: demo_crypto_def)
  ultimately show ?thesis
    using sign_data_sound [of demo_crypto "[2]" "[7]" "Some SHA256" "Some PKCS1v15"] by auto
qed

end
