(* ===== verification/Communicator.thy ===== *)
theory Communicator
  imports Prelude
begin

section \<open>The communicator interface\<close>

text \<open>
  \<open>CommunicatorBase\<close> (\<open>communication/base/communicator_base.py\<close>) is the interface the protocol
  layers are written against: a record of operations over the state \<open>'w\<close> of a concrete
  communicator and of the outside world it talks to. A concrete communicator supplies the record
  (\<open>isotp_comm\<close>, \<open>tcp_comm\<close>, \<open>doip_comm\<close>).

  What the outside world does is data of the state: the results of its successive calls to the
  operating system and to the third-party stacks, in order, and the readings of \<open>time.time()\<close>.
  Any run of the program makes finitely many such calls, so some script describes it; no theorem
  fixes one. Times are rational seconds: float rounding is not modelled.

  The laws that the protocol layers rely on are locales. \<open>message_link\<close> says that what is still to
  arrive is finite and every message received uses some of it up, so a loop that receives until a
  good message comes ends. \<open>journal_link\<close> adds a record of what was received. \<open>queue_link\<close> adds that, in a ready state, messages arrive in order and
  none is lost or invented, and that the clock stays within a span.
\<close>

datatype CommunicatorType = UDP | TCP | ISOTP | DOIP | MULTICAST

record 'w comm =
  comm_open :: "('w, bool) py"
  comm_close :: "('w, bool) py"
  comm_send :: "bytes \<Rightarrow> rat \<Rightarrow> ('w, int) py"
  comm_recv :: "rat \<Rightarrow> ('w, bytes) py"
  comm_type :: CommunicatorType

subsection \<open>The clock\<close>

text \<open>
  \<open>clock k\<close> is the k-th reading of \<open>time.time()\<close>, any sequence at all; \<open>ticks\<close> counts the readings.
\<close>

record timed =
  clock :: "nat \<Rightarrow> rat"
  ticks :: nat

definition time_now :: "('a timed_scheme, rat) py" where
  "time_now = (\<lambda>w. (Val (clock w (ticks w)), w\<lparr>ticks := Suc (ticks w)\<rparr>))"

lemma run_time_now [simp]:
  "time_now w = (Val (clock w (ticks w)), w\<lparr>ticks := Suc (ticks w)\<rparr>)"
  by (simp add: time_now_def)

lemma returns_time_now [intro, simp]: "returns time_now w"
  by (simp add: returns_def)

subsection \<open>The laws\<close>

locale message_link =
  fixes now :: "('w, rat) py"
    and send :: "bytes \<Rightarrow> rat \<Rightarrow> ('w, int) py"
    and recv :: "rat \<Rightarrow> ('w, bytes) py"
    and pending :: "'w \<Rightarrow> nat"
  assumes now_total: "\<exists>c w'. now w = (Val c, w') \<and> pending w' = pending w"
    and send_returns: "0 < t \<Longrightarrow> returns (send d t) w"
    and send_pending: "send d t w = (sent, w') \<Longrightarrow> pending w' \<le> pending w"
    and recv_returns: "0 < t \<Longrightarrow> returns (recv t) w"
    and recv_pending: "recv t w = (r, w') \<Longrightarrow> pending w' \<le> pending w"
    and recv_progress: "recv t w = (Val d, w') \<Longrightarrow> d \<noteq> [] \<Longrightarrow> pending w' < pending w"
begin

lemma now_returns: "returns now w"
  using now_total [of w] by (auto simp: returns_def)

lemma now_pending: "now w = (Val c, w') \<Longrightarrow> pending w' = pending w"
  using now_total [of w] by auto

lemma now_shrinks [intro, simp]: "moves (no_more pending) now"
  by (rule movesI) (metis now_total no_more_def order_refl snd_conv)

lemma send_shrinks [intro, simp]: "moves (no_more pending) (send d t)"
  by (rule movesI) (simp add: no_more_def send_pending)

lemma recv_shrinks [intro, simp]: "moves (no_more pending) (recv t)"
  by (rule movesI) (simp add: no_more_def recv_pending)

end

text \<open>
  A link that also keeps a journal, to which every receive adds what it returned, if anything.
\<close>

locale journal_link = message_link now send recv pending
  for now :: "('w, rat) py"
    and send :: "bytes \<Rightarrow> rat \<Rightarrow> ('w, int) py"
    and recv :: "rat \<Rightarrow> ('w, bytes) py"
    and pending :: "'w \<Rightarrow> nat" +
  fixes journal :: "'w \<Rightarrow> 'e list"
    and got :: "bytes \<Rightarrow> 'e"
  assumes now_journal: "now w = (r, w') \<Longrightarrow> journal w' = journal w"
    and recv_journal: "recv t w = (q, w') \<Longrightarrow>
          journal w' = journal w @ (case q of Val d \<Rightarrow> if d = [] then [] else [got d] | _ \<Rightarrow> [])"

locale queue_link = message_link now send recv pending
  for now :: "('w, rat) py"
    and send :: "bytes \<Rightarrow> rat \<Rightarrow> ('w, int) py"
    and recv :: "rat \<Rightarrow> ('w, bytes) py"
    and pending :: "'w \<Rightarrow> nat" +
  fixes ready :: "rat \<Rightarrow> 'w \<Rightarrow> bool"
    and inbox :: "'w \<Rightarrow> bytes list"
    and epoch :: "'w \<Rightarrow> rat"
  assumes ready_now: "ready t w \<Longrightarrow> \<exists>c w'. now w = (Val c, w') \<and> ready t w' \<and> inbox w' = inbox w
            \<and> epoch w' = epoch w \<and> epoch w \<le> c \<and> c \<le> epoch w + t"
    and ready_send: "ready t w \<Longrightarrow> 0 < s \<Longrightarrow>
            \<exists>w'. send d s w = (Val (int (length d)), w') \<and> ready t w' \<and> inbox w' = inbox w
            \<and> epoch w' = epoch w"
    and ready_recv_Nil: "ready t w \<Longrightarrow> 0 < s \<Longrightarrow> inbox w = [] \<Longrightarrow>
            \<exists>w'. recv s w = (Val [], w') \<and> ready t w' \<and> inbox w' = [] \<and> epoch w' = epoch w"
    and ready_recv_Cons: "ready t w \<Longrightarrow> 0 < s \<Longrightarrow> inbox w = d # q \<Longrightarrow>
            \<exists>w'. recv s w = (Val d, w') \<and> ready t w' \<and> inbox w' = q \<and> epoch w' = epoch w"
    and ready_pending: "ready t w \<Longrightarrow> length (inbox w) \<le> pending w"

end
