(* ===== verification/Can_Communicator.thy ===== *)
theory Can_Communicator
  imports Communicator
begin

section \<open>The CAN communicator over SocketCAN\<close>

text \<open>
  Models \<open>CanCommunicatorSocketCan\<close>
  (\<open>communication/can/impl/can_communicator_socketcan.py\<close>). The bus object of \<open>python-can\<close> is not
  modelled: \<open>rx_script\<close> holds what its successive \<open>recv\<close> calls give (\<open>None\<close> for a timeout), and
  \<open>tx_script\<close> what its \<open>send\<close> calls raise, if anything. A blocking \<open>recv()\<close> past the end of the
  script does not return.

  The receiving loops run until the clock has passed the timeout. The clock is arbitrary, so the
  loops take fuel: one unit for each round. \<open>receive_terminates\<close> says how much is enough.
\<close>

record can_msg =
  arbitration_id :: int
  can_data :: bytes

record can_bus =
  bus_channel :: string
  bus_fd :: bool

record can_world = timed +
  channel :: string
  support_fd :: bool
  blacklist_ids :: "int set"
  bus :: "can_bus option"
  bus_error :: "exn option"
  rx_script :: "can_msg option list"
  tx_script :: "exn option list"
  tx_log :: "can_msg list"
  periodic_log :: "(can_msg list \<times> rat \<times> rat option) list"
  shutdowns :: nat

definition not_opened :: exn where
  "not_opened = RuntimeError ''CanCommunicatorSocketCan has not been opened''"

subsection \<open>Life cycle\<close>

definition can_open :: "('a can_world_scheme, unit) py" where
  "can_open = (\<lambda>w.
     if bus w \<noteq> None
     then (Exn (RuntimeError ''CanCommunicatorSocketCan is already open''), w)
     else case bus_error w of
       Some e \<Rightarrow> (Exn e, w)
     | None \<Rightarrow> (Val (), w\<lparr>bus := Some \<lparr>bus_channel = channel w, bus_fd = support_fd w\<rparr>\<rparr>))"

definition can_close :: "('a can_world_scheme, unit) py" where
  "can_close = (\<lambda>w.
     if bus w \<noteq> None then (Val (), w\<lparr>shutdowns := Suc (shutdowns w), bus := None\<rparr>)
     else (Val (), w))"

definition can_enter :: "('a can_world_scheme, unit) py" where
  "can_enter = can_open"

definition can_exit :: "('a can_world_scheme, bool) py" where
  "can_exit = py_seq can_close (py_ret False)"

definition can_get_bus :: "('a can_world_scheme, can_bus) py" where
  "can_get_bus = (\<lambda>w. case bus w of None \<Rightarrow> (Exn not_opened, w) | Some b \<Rightarrow> (Val b, w))"

subsection \<open>Sending\<close>

definition can_send :: "can_msg \<Rightarrow> ('a can_world_scheme, unit) py" where
  "can_send m = (\<lambda>w.
     if bus w = None then (Exn not_opened, w)
     else case tx_script w of
       Some e # s \<Rightarrow> (Exn e, w\<lparr>tx_script := s\<rparr>)
     | None # s \<Rightarrow> (Val (), w\<lparr>tx_script := s, tx_log := tx_log w @ [m]\<rparr>)
     | [] \<Rightarrow> (Val (), w\<lparr>tx_log := tx_log w @ [m]\<rparr>))"

definition can_send_periodically ::
  "can_msg list \<Rightarrow> rat \<Rightarrow> rat option \<Rightarrow> ('a can_world_scheme, unit) py" where
  "can_send_periodically msgs period duration = (\<lambda>w.
     if bus w = None then (Exn not_opened, w)
     else (Val (), w\<lparr>periodic_log := periodic_log w @ [(msgs, period, duration)]\<rparr>))"

subsection \<open>Receiving\<close>

text \<open>\<open>bus.recv(timeout)\<close> and the blocking \<open>bus.recv()\<close>, as the script says.\<close>

definition bus_recv :: "('a can_world_scheme, can_msg option) py" where
  "bus_recv = (\<lambda>w. case rx_script w of
       [] \<Rightarrow> (Val None, w)
     | r # s \<Rightarrow> (Val r, w\<lparr>rx_script := s\<rparr>))"

definition bus_recv_blocking :: "('a can_world_scheme, can_msg option) py" where
  "bus_recv_blocking = (\<lambda>w. case rx_script w of
       [] \<Rightarrow> (Diverge, w)
     | r # s \<Rightarrow> (Val r, w\<lparr>rx_script := s\<rparr>))"

definition accepted :: "int set \<Rightarrow> can_msg option \<Rightarrow> bool" where
  "accepted bl r = (case r of None \<Rightarrow> False | Some m \<Rightarrow> arbitration_id m \<notin> bl)"

fun receive_loop ::
  "nat \<Rightarrow> rat \<Rightarrow> rat \<Rightarrow> rat \<Rightarrow> ('a can_world_scheme, can_msg option) py" where
  "receive_loop 0 timeout start time_past = py_diverge"
| "receive_loop (Suc fuel) timeout start time_past =
     (if \<not> time_past < timeout then py_ret None
      else py_bind bus_recv (\<lambda>r.
        py_bind (py_get blacklist_ids) (\<lambda>bl.
          if accepted bl r then py_ret r
          else py_bind time_now (\<lambda>t. receive_loop fuel timeout start (t - start)))))"

definition can_receive :: "nat \<Rightarrow> rat option \<Rightarrow> ('a can_world_scheme, can_msg option) py" where
  "can_receive fuel timeout = (\<lambda>w.
     if bus w = None then (Exn not_opened, w)
     else (case timeout of
         None \<Rightarrow> py_bind bus_recv_blocking (\<lambda>r. py_bind (py_get blacklist_ids) (\<lambda>bl.
                    py_ret (if accepted bl r then r else None)))
       | Some t \<Rightarrow>
           if t = 0 then py_bind bus_recv_blocking (\<lambda>r. py_bind (py_get blacklist_ids) (\<lambda>bl.
                    py_ret (if accepted bl r then r else None)))
           else py_bind time_now (\<lambda>start. receive_loop fuel t start 0)) w)"

fun sniff_loop ::
  "nat \<Rightarrow> nat \<Rightarrow> rat \<Rightarrow> rat \<Rightarrow> rat \<Rightarrow> can_msg list \<Rightarrow> ('a can_world_scheme, can_msg list) py" where
  "sniff_loop 0 rfuel sniff_time start time_passed acc = py_diverge"
| "sniff_loop (Suc fuel) rfuel sniff_time start time_passed acc =
     (if \<not> time_passed < sniff_time then py_ret acc
      else py_bind (can_receive rfuel (Some (sniff_time - time_passed))) (\<lambda>m.
        py_bind time_now (\<lambda>t.
          sniff_loop fuel rfuel sniff_time start (t - start)
            (case m of None \<Rightarrow> acc | Some x \<Rightarrow> acc @ [x]))))"

definition can_sniff :: "nat \<Rightarrow> nat \<Rightarrow> rat \<Rightarrow> ('a can_world_scheme, can_msg list) py" where
  "can_sniff fuel rfuel sniff_time = (\<lambda>w.
     if bus w = None then (Exn not_opened, w)
     else py_bind time_now (\<lambda>start. sniff_loop fuel rfuel sniff_time start 0 []) w)"

definition add_to_blacklist :: "int list \<Rightarrow> ('a can_world_scheme, unit) py" where
  "add_to_blacklist canids =
     py_for canids (\<lambda>c. py_modify (\<lambda>w. w\<lparr>blacklist_ids := insert c (blacklist_ids w)\<rparr>))"

subsection \<open>What a call leaves alone\<close>

definition same_can :: "'a can_world_scheme \<Rightarrow> 'a can_world_scheme \<Rightarrow> bool" where
  "same_can w w' \<longleftrightarrow> blacklist_ids w' = blacklist_ids w \<and> bus w' = bus w \<and> clock w' = clock w"

lemma same_can_refl [simp]: "same_can w w"
  by (simp add: same_can_def)

lemma same_can_trans: "same_can u v \<Longrightarrow> same_can v w \<Longrightarrow> same_can u w"
  by (simp add: same_can_def)

lemma same_can_ticks [simp]: "same_can w (w'\<lparr>ticks := k\<rparr>) = same_can w w'"
  by (simp add: same_can_def)

text \<open>The messages of a stretch of bus results that get past the blacklist, in order.\<close>

definition delivered :: "int set \<Rightarrow> can_msg option list \<Rightarrow> can_msg list" where
  "delivered bl rs = map the (filter (accepted bl) rs)"

lemma delivered_simps [simp]:
  "delivered bl [] = []"
  "delivered bl (rs @ qs) = delivered bl rs @ delivered bl qs"
  "delivered bl (r # rs) = (if accepted bl r then the r # delivered bl rs else delivered bl rs)"
  by (auto simp: delivered_def)

lemma accepted_Some: "accepted bl r \<Longrightarrow> \<exists>m. r = Some m \<and> arbitration_id m \<notin> bl"
  by (auto simp: accepted_def split: option.splits)

lemma bus_recv_run:
  obtains r used rest where "bus_recv w = (Val r, w\<lparr>rx_script := rest\<rparr>)"
    and "rx_script w = used @ rest" and "used = [r] \<or> used = [] \<and> r = None"
proof (cases "rx_script w")
  case Nil
  then show ?thesis
    using that [of None "[]" "[]"] by (simp add: bus_recv_def)
next
  case (Cons r rest)
  then show ?thesis
    using that [of r rest "[r]"] by (simp add: bus_recv_def)
qed

text \<open>
  A receive loop uses up a stretch of the bus's results. It returns \<open>None\<close> when nothing in it
  gets past the blacklist, and otherwise its last entry, the only one that does.
\<close>

definition first_accepted :: "int set \<Rightarrow> can_msg option list \<Rightarrow> can_msg option \<Rightarrow> bool" where
  "first_accepted bl used r \<longleftrightarrow>
     (case r of
        None \<Rightarrow> delivered bl used = []
      | Some m \<Rightarrow> \<exists>u. used = u @ [Some m] \<and> delivered bl u = [] \<and> arbitration_id m \<notin> bl)"

lemma first_accepted_delivered:
  "first_accepted bl used r \<Longrightarrow> delivered bl used = (case r of None \<Rightarrow> [] | Some m \<Rightarrow> [m])"
  by (auto simp: first_accepted_def accepted_def split: option.splits)

lemma first_accepted_one:
  "accepted bl r \<Longrightarrow> first_accepted bl [r] r"
  by (auto simp: first_accepted_def dest!: accepted_Some)

lemma first_accepted_skip:
  "\<not> accepted bl x \<Longrightarrow> first_accepted bl used r \<Longrightarrow> first_accepted bl (x # used) r"
  by (auto simp: first_accepted_def split: option.splits intro: exI [where x = "x # _"])

lemma receive_loop_uses:
  assumes "receive_loop fuel timeout start tp w = (Val r, w')"
  shows "same_can w w' \<and> (\<exists>used. rx_script w = used @ rx_script w' \<and>
           first_accepted (blacklist_ids w) used r)"
  using assms
proof (induction fuel arbitrary: tp w)
  case 0
  then show ?case by (simp add: py_diverge_def)
next
  case (Suc fuel)
  show ?case
  proof (cases "tp < timeout")
    case False
    with Suc.prems show ?thesis by (auto simp: first_accepted_def)
  next
    case True
    obtain x used rest where x: "bus_recv w = (Val x, w\<lparr>rx_script := rest\<rparr>)"
      and used: "rx_script w = used @ rest" and x_used: "used = [x] \<or> used = [] \<and> x = None"
      by (rule bus_recv_run)
    show ?thesis
    proof (cases "accepted (blacklist_ids w) x")
      case acc: True
      then have "used = [x]" using x_used by (auto simp: accepted_def)
      moreover have "r = x" "w' = w\<lparr>rx_script := rest\<rparr>"
        using Suc.prems True x acc by (simp_all add: run_bind_Val)
      moreover have "first_accepted (blacklist_ids w) [x] x"
        using acc by (rule first_accepted_one)
      ultimately show ?thesis
        using used by (intro conjI exI [where x = "[x]"]) (simp_all add: same_can_def)
    next
      case rej: False
      let ?w2 = "w\<lparr>rx_script := rest, ticks := Suc (ticks w)\<rparr>"
      have "receive_loop fuel timeout start (clock w (ticks w) - start) ?w2 = (Val r, w')"
        using Suc.prems True x rej by (simp add: py_bind_def)
      from Suc.IH [OF this] obtain used' where same: "same_can ?w2 w'"
        and used': "rest = used' @ rx_script w'"
        and fa: "first_accepted (blacklist_ids w) used' r"
        by auto
      have "first_accepted (blacklist_ids w) (used @ used') r"
        using x_used rej fa first_accepted_skip by auto
      then show ?thesis
        using used used' same
        by (intro conjI exI [where x = "used @ used'"]) (simp_all add: same_can_def)
    qed
  qed
qed

lemma blocking_receive_uses:
  assumes "py_bind bus_recv_blocking (\<lambda>r. py_bind (py_get blacklist_ids) (\<lambda>bl.
             py_ret (if accepted bl r then r else None))) w = (Val r, w')"
  shows "same_can w w' \<and> (\<exists>used. rx_script w = used @ rx_script w' \<and>
           first_accepted (blacklist_ids w) used r)"
  using assms
  by (cases "rx_script w")
    (auto simp: py_bind_def bus_recv_blocking_def same_can_def first_accepted_def
      dest!: accepted_Some intro!: exI [where x = "[_]"] split: if_splits)

lemma can_receive_uses:
  assumes "can_receive fuel timeout w = (Val r, w')"
  shows "same_can w w' \<and> (\<exists>used. rx_script w = used @ rx_script w' \<and>
           first_accepted (blacklist_ids w) used r)"
proof -
  from assms have opened: "bus w \<noteq> None"
    by (cases "bus w") (auto simp: can_receive_def)
  show ?thesis
  proof (cases "timeout = None \<or> timeout = Some 0")
    case True
    then show ?thesis
      using assms opened by (intro blocking_receive_uses) (auto simp: can_receive_def)
  next
    case False
    then obtain t where "timeout = Some t" "t \<noteq> 0" by auto
    then have "receive_loop fuel t (clock w (ticks w)) 0 (w\<lparr>ticks := Suc (ticks w)\<rparr>) = (Val r, w')"
      using assms opened by (simp add: can_receive_def py_bind_def)
    from receive_loop_uses [OF this] show ?thesis
      by (auto simp: same_can_def)
  qed
qed

lemma sniff_loop_uses:
  assumes "sniff_loop fuel rfuel sniff_time start tp acc w = (Val ms, w')"
  shows "\<exists>used. rx_script w = used @ rx_script w' \<and> ms = acc @ delivered (blacklist_ids w) used"
  using assms
proof (induction fuel arbitrary: tp acc w)
  case 0
  then show ?case by (simp add: py_diverge_def)
next
  case (Suc fuel)
  show ?case
  proof (cases "tp < sniff_time")
    case False
    with Suc.prems show ?thesis by (intro exI [where x = "[]"]) auto
  next
    case True
    then obtain m w1 where m: "can_receive rfuel (Some (sniff_time - tp)) w = (Val m, w1)"
      and rest: "sniff_loop fuel rfuel sniff_time start (clock w1 (ticks w1) - start)
         (case m of None \<Rightarrow> acc | Some x \<Rightarrow> acc @ [x]) (w1\<lparr>ticks := Suc (ticks w1)\<rparr>) = (Val ms, w')"
      using Suc.prems by (auto simp: py_bind_Val_iff)
    from can_receive_uses [OF m] obtain used where used: "rx_script w = used @ rx_script w1"
      and fa: "first_accepted (blacklist_ids w) used m" and same: "blacklist_ids w1 = blacklist_ids w"
      by (auto simp: same_can_def)
    from Suc.IH [OF rest] obtain used' where "rx_script w1 = used' @ rx_script w'"
      and "ms = (case m of None \<Rightarrow> acc | Some x \<Rightarrow> acc @ [x]) @ delivered (blacklist_ids w) used'"
      using same by auto
    then show ?thesis
      using used first_accepted_delivered [OF fa]
      by (auto intro!: exI [where x = "used @ used'"] split: option.splits)
  qed
qed

subsection \<open>The clock stops the loop\<close>

lemma receive_loop_stops:
  assumes "timeout \<le> clock w (ticks w + k) - start" and "k + 2 \<le> fuel"
  shows "\<exists>r w'. receive_loop fuel timeout start tp w = (Val r, w')"
  using assms
proof (induction k arbitrary: fuel tp w)
  case 0
  then obtain n where n: "fuel = Suc (Suc n)"
    by (cases fuel) (auto simp: Suc_le_eq gr0_conv_Suc)
  obtain x rest where x: "bus_recv w = (Val x, w\<lparr>rx_script := rest\<rparr>)"
    by (rule bus_recv_run)
  from 0 have "\<not> clock w (ticks w) - start < timeout" by simp
  with x n show ?case
    by (simp add: py_bind_def)
next
  case (Suc k)
  then obtain n where n: "fuel = Suc n" and "k + 2 \<le> n" by (cases fuel) auto
  obtain x rest where x: "bus_recv w = (Val x, w\<lparr>rx_script := rest\<rparr>)"
    by (rule bus_recv_run)
  have "\<exists>r w'. receive_loop n timeout start (clock w (ticks w) - start)
          (w\<lparr>rx_script := rest, ticks := Suc (ticks w)\<rparr>) = (Val r, w')"
    using Suc.prems \<open>k + 2 \<le> n\<close> by (intro Suc.IH) auto
  with x n show ?case
    by (simp add: py_bind_def)
qed

subsection \<open>Properties\<close>


definition demo_can :: can_world where
  "demo_can =
     \<lparr>clock = of_nat, ticks = 0, channel = ''vcan0'', support_fd = False, blacklist_ids = {5},
      bus = Some \<lparr>bus_channel = ''vcan0'', bus_fd = False\<rparr>, bus_error = None,
      rx_script = [Some \<lparr>arbitration_id = 5, can_data = []\<rparr>, None,
                   Some \<lparr>arbitration_id = 7, can_data = [1]\<rparr>, Some \<lparr>arbitration_id = 8, can_data = [2]\<rparr>],
      tx_script = [], tx_log = [], periodic_log = [], shutdowns = 0\<rparr>"


text \<open>
  A receive with a timeout on an open bus returns, as soon as some reading of the clock has
  passed the timeout: if that is the reading after round \<open>k\<close>, then \<open>k + 2\<close> rounds of fuel are
  enough. What it returns is the first result of the bus that is a message outside the blacklist,
  and nothing when there is none among the results it used up.
\<close>

theorem can_receive_terminates:
  assumes "bus w \<noteq> None" and "timeout \<noteq> 0"
    and "timeout \<le> clock w (ticks w + 1 + k) - clock w (ticks w)" and "k + 2 \<le> fuel"
  shows "\<exists>r w' used. can_receive fuel (Some timeout) w = (Val r, w') \<and>
     rx_script w = used @ rx_script w' \<and> first_accepted (blacklist_ids w) used r"
proof -
  have "\<exists>r w'. receive_loop fuel timeout (clock w (ticks w)) 0 (w\<lparr>ticks := Suc (ticks w)\<rparr>) = (Val r, w')"
    using assms(3,4) by (intro receive_loop_stops [of _ _ k]) auto
  then obtain r w' where "can_receive fuel (Some timeout) w = (Val r, w')"
    using assms(1,2) by (auto simp: can_receive_def py_bind_def)
  then show ?thesis
    using can_receive_uses by blast
qed

theorem can_receive_terminates_witness:
  "\<exists>r w' used. can_receive 4 (Some 2) demo_can = (Val r, w') \<and>
     rx_script demo_can = used @ rx_script w' \<and> first_accepted (blacklist_ids demo_can) used r"
  by (rule can_receive_terminates [where k = 2]) (simp_all add: demo_can_def)

text \<open>
  The life cycle: before \<open>open\<close> every operation on the bus raises and leaves the communicator
  and the bus untouched; opening an open communicator raises and keeps its bus; closing always
  succeeds, leaves it closed, and shuts the bus down exactly when there was one; and after a
  close the communicator can be opened again.
\<close>

theorem can_life_cycle:
  "(bus w = None \<longrightarrow>
      can_send m w = (Exn not_opened, w) \<and> can_send_periodically ms p d w = (Exn not_opened, w) \<and>
      can_receive fuel t w = (Exn not_opened, w) \<and> can_sniff fuel rfuel s w = (Exn not_opened, w) \<and>
      can_get_bus w = (Exn not_opened, w)) \<and>
   (bus w \<noteq> None \<longrightarrow> (\<exists>e. can_open w = (Exn e, w))) \<and>
   (\<exists>w'. can_close w = (Val (), w') \<and> bus w' = None \<and>
      shutdowns w' = shutdowns w + (if bus w = None then 0 else 1) \<and>
      (bus_error w = None \<longrightarrow> (\<exists>w''. can_open w' = (Val (), w'') \<and>
         bus w'' = Some \<lparr>bus_channel = channel w, bus_fd = support_fd w\<rparr>)))"
  by (auto simp: can_send_def can_send_periodically_def can_receive_def can_sniff_def
      can_get_bus_def can_open_def can_close_def)

theorem can_life_cycle_witness:
  "can_send \<lparr>arbitration_id = 1, can_data = []\<rparr> (demo_can\<lparr>bus := None\<rparr>) =
     (Exn not_opened, demo_can\<lparr>bus := None\<rparr>) \<and>
   (\<exists>e. can_open demo_can = (Exn e, demo_can))"
  using can_life_cycle [of "demo_can\<lparr>bus := None\<rparr>" "\<lparr>arbitration_id = 1, can_data = []\<rparr>"]
    can_life_cycle [of demo_can]
  by (auto simp: demo_can_def)

end
