(* ===== verification/Isotp_Communicator.thy ===== *)
theory Isotp_Communicator
  imports Can_Communicator
begin

section \<open>The ISO-TP communicator\<close>

text \<open>
  Models \<open>IsoTpCommunicator\<close> (\<open>communication/isotp/impl/isotp_communicator.py\<close>), which runs a
  \<open>CanStack\<close> of the package \<open>isotp\<close> on the bus of a CAN communicator. The stack's segmentation is
  not modelled: \<open>stack_rx\<close> holds what its successive \<open>recv\<close> calls give and \<open>stack_tx\<close> how its
  \<open>send\<close> calls end (done, past the end of the script). \<open>address_error\<close> is what the constructor of
  \<open>isotp.Address\<close> raises, if anything.
\<close>

definition CAN_ID_MAX_NORMAL_11_BITS :: int where
  "CAN_ID_MAX_NORMAL_11_BITS = 0x7FF"

datatype AddressingMode = Normal_11bits | Normal_29bits

record isotp_address =
  addr_rxid :: int
  addr_txid :: int
  addr_mode :: AddressingMode

record isotp_params =
  blocking_send :: bool
  tx_padding :: "int option"
  params_bitrate_switch :: "bool option"
  params_can_fd :: "bool option"

record can_stack =
  stack_bus :: can_bus
  stack_address :: isotp_address
  stack_params :: isotp_params
  stack_running :: bool

datatype tx_result = TxDone | TxTimeout | TxError exn

record isotp_world = can_world +
  rxid :: int
  txid :: int
  padding_byte :: "int option"
  bitrate_switch :: "bool option"
  can_fd :: "bool option"
  iso_is_open :: bool
  iso_address :: "isotp_address option"
  iso_params :: isotp_params
  iso_stack :: "can_stack option"
  stack_rx :: "bytes option list"
  stack_tx :: "tx_result list"
  stack_log :: "bytes list"

subsection \<open>Construction\<close>

text \<open>Python's truth value of an optional field: \<open>None\<close>, 0 and \<open>False\<close> are false.\<close>

definition truthy_int :: "int option \<Rightarrow> bool" where
  "truthy_int x = (case x of None \<Rightarrow> False | Some n \<Rightarrow> n \<noteq> 0)"

definition truthy_bool :: "bool option \<Rightarrow> bool" where
  "truthy_bool x = (x = Some True)"

definition params_of :: "'a isotp_world_scheme \<Rightarrow> isotp_params" where
  "params_of w =
     (let p0 = \<lparr>blocking_send = True, tx_padding = None, params_bitrate_switch = None,
                params_can_fd = None\<rparr>;
          p1 = (if truthy_int (padding_byte w) then p0\<lparr>tx_padding := padding_byte w\<rparr> else p0);
          p2 = (if truthy_bool (bitrate_switch w)
                then p1\<lparr>params_bitrate_switch := bitrate_switch w\<rparr> else p1);
          p3 = (if truthy_bool (can_fd w) then p2\<lparr>params_can_fd := can_fd w\<rparr> else p2)
      in p3)"

definition isotp_post_init ::
  "(isotp_address \<Rightarrow> exn option) \<Rightarrow> ('a isotp_world_scheme, unit) py" where
  "isotp_post_init address_error = (\<lambda>w.
     let mode = (if rxid w > CAN_ID_MAX_NORMAL_11_BITS \<or> txid w > CAN_ID_MAX_NORMAL_11_BITS
                 then Normal_29bits else Normal_11bits);
         addr = \<lparr>addr_rxid = rxid w, addr_txid = txid w, addr_mode = mode\<rparr>
     in case address_error addr of
       Some e \<Rightarrow> (Exn e, w)
     | None \<Rightarrow>
         (Val (), w\<lparr>iso_address := Some addr, iso_params := params_of w\<rparr>))"

lemma params_of_fields:
  "tx_padding (params_of w) = (if padding_byte w = Some 0 then None else padding_byte w)"
  "blocking_send (params_of w)"
  "padding_byte w = Some 0 \<Longrightarrow> params_of (w\<lparr>padding_byte := None\<rparr>) = params_of w"
  by (auto simp: params_of_def Let_def truthy_int_def split: option.splits)

definition isotp_set_address :: "isotp_address \<Rightarrow> ('a isotp_world_scheme, unit) py" where
  "isotp_set_address addr = (\<lambda>w.
     let w1 = w\<lparr>iso_address := Some addr\<rparr>
     in if iso_is_open w1
        then (Val (), w1\<lparr>iso_stack := map_option (\<lambda>s. s\<lparr>stack_address := addr\<rparr>) (iso_stack w1)\<rparr>)
        else (Val (), w1))"

subsection \<open>Opening and closing\<close>

definition isotp_open :: "('a isotp_world_scheme, bool) py" where
  "isotp_open = (\<lambda>w. case iso_address w of
       None \<Rightarrow> (Val False, w)
     | Some addr \<Rightarrow>
         py_seq can_open
           (py_bind can_get_bus (\<lambda>b.
              py_seq (py_modify (\<lambda>v. v\<lparr>iso_stack := Some \<lparr>stack_bus = b, stack_address = addr,
                         stack_params = iso_params v, stack_running = False\<rparr>\<rparr>))
             (py_seq (py_modify (\<lambda>v. v\<lparr>iso_stack := map_option (\<lambda>s. s\<lparr>stack_running := True\<rparr>) (iso_stack v)\<rparr>))
             (py_seq (py_modify (\<lambda>v. v\<lparr>iso_is_open := True\<rparr>))
                     (py_ret True))))) w)"

definition isotp_close :: "('a isotp_world_scheme, bool) py" where
  "isotp_close = (\<lambda>w.
     if iso_is_open w
     then py_seq (py_modify (\<lambda>v. v\<lparr>iso_stack := map_option (\<lambda>s. s\<lparr>stack_running := False\<rparr>) (iso_stack v)\<rparr>))
         (py_seq can_close
         (py_seq (py_modify (\<lambda>v. v\<lparr>iso_is_open := False\<rparr>))
                 (py_ret True))) w
     else (Val True, w))"

definition isotp_teardown :: "('a isotp_world_scheme, unit) py" where
  "isotp_teardown = py_seq isotp_close (py_ret ())"

subsection \<open>Sending and receiving\<close>

definition isotp_not_open :: exn where
  "isotp_not_open = RuntimeError ''IsoTpCommunicator has not been opened successfully''"

definition isotp_send :: "bytes \<Rightarrow> rat \<Rightarrow> ('a isotp_world_scheme, int) py" where
  "isotp_send data timeout = (\<lambda>w.
     if \<not> iso_is_open w then (Exn isotp_not_open, w)
     else case stack_tx w of
       TxTimeout # s \<Rightarrow> (Val 0, w\<lparr>stack_tx := s\<rparr>)
     | TxError e # s \<Rightarrow> (Exn e, w\<lparr>stack_tx := s\<rparr>)
     | TxDone # s \<Rightarrow> (Val (int (length data)), w\<lparr>stack_tx := s, stack_log := stack_log w @ [data]\<rparr>)
     | [] \<Rightarrow> (Val (int (length data)), w\<lparr>stack_log := stack_log w @ [data]\<rparr>))"

definition received_bytes :: "bytes option \<Rightarrow> bytes" where
  "received_bytes r = (case r of None \<Rightarrow> [] | Some d \<Rightarrow> if d \<noteq> [] then d else [])"

definition isotp_recv :: "rat \<Rightarrow> ('a isotp_world_scheme, bytes) py" where
  "isotp_recv recv_timeout = (\<lambda>w.
     if \<not> iso_is_open w then (Exn isotp_not_open, w)
     else case stack_rx w of
       [] \<Rightarrow> (Val [], w)
     | r # s \<Rightarrow> (Val (received_bytes r), w\<lparr>stack_rx := s\<rparr>))"

definition isotp_comm :: "'a isotp_world_scheme comm" where
  "isotp_comm =
     \<lparr>comm_open = isotp_open, comm_close = isotp_close, comm_send = isotp_send,
      comm_recv = isotp_recv, comm_type = ISOTP\<rparr>"

subsection \<open>The communicator's laws\<close>

definition isotp_pending :: "'a isotp_world_scheme \<Rightarrow> nat" where
  "isotp_pending w = length (stack_rx w)"

text \<open>
  Ready: open, the stack accepts every message handed to it, and the clock stays within \<open>t\<close> of its
  first reading.
\<close>

definition isotp_ready :: "rat \<Rightarrow> 'a isotp_world_scheme \<Rightarrow> bool" where
  "isotp_ready t w \<longleftrightarrow> iso_is_open w \<and> set (stack_tx w) \<subseteq> {TxDone} \<and>
     (\<forall>k. clock w 0 \<le> clock w k \<and> clock w k \<le> clock w 0 + t)"

definition isotp_inbox :: "'a isotp_world_scheme \<Rightarrow> bytes list" where
  "isotp_inbox w = map received_bytes (stack_rx w)"

definition isotp_epoch :: "'a isotp_world_scheme \<Rightarrow> rat" where
  "isotp_epoch w = clock w 0"

interpretation isotp: message_link time_now isotp_send isotp_recv isotp_pending
  by unfold_locales
    (auto simp: isotp_send_def isotp_recv_def isotp_pending_def received_bytes_def returns_def
      split: if_splits list.splits tx_result.splits option.splits)

interpretation isotp: queue_link time_now isotp_send isotp_recv isotp_pending
    isotp_ready isotp_inbox isotp_epoch
  by unfold_locales
    (auto simp: isotp_send_def isotp_recv_def isotp_pending_def isotp_ready_def isotp_inbox_def
      isotp_epoch_def split: list.splits tx_result.splits)

subsection \<open>Properties\<close>

text \<open>
  The invariant of the communicator: its flag says exactly when it holds a running stack, and a
  running stack is on the communicator's open bus.
\<close>

definition isotp_inv :: "'a isotp_world_scheme \<Rightarrow> bool" where
  "isotp_inv w \<longleftrightarrow>
     (iso_is_open w \<longleftrightarrow> (\<exists>s. iso_stack w = Some s \<and> stack_running s)) \<and>
     (\<forall>s. iso_stack w = Some s \<and> stack_running s \<longrightarrow> bus w = Some (stack_bus s)) \<and>
     (iso_is_open w \<longrightarrow> (\<exists>s. iso_stack w = Some s \<and> iso_address w = Some (stack_address s)))"

lemma isotp_inv_frame:
  "isotp_inv (w\<lparr>stack_rx := rx\<rparr>) = isotp_inv w"
  "isotp_inv (w\<lparr>stack_tx := tx\<rparr>) = isotp_inv w"
  "isotp_inv (w\<lparr>stack_log := l\<rparr>) = isotp_inv w"
  by (simp_all add: isotp_inv_def)

lemma isotp_send_inv: "keeps isotp_inv (isotp_send d t)"
  by (rule keepsI)
    (auto simp: isotp_send_def isotp_inv_frame split: list.splits tx_result.splits)

lemma isotp_recv_inv: "keeps isotp_inv (isotp_recv t)"
  by (rule keepsI) (auto simp: isotp_recv_def isotp_inv_frame split: list.splits)

lemma isotp_open_inv: "keeps isotp_inv isotp_open"
  by (rule keepsI)
    (auto simp: isotp_open_def isotp_inv_def py_defs can_open_def can_get_bus_def
      split: option.splits)

lemma isotp_close_inv: "keeps isotp_inv isotp_close"
  by (rule keepsI) (auto simp: isotp_close_def isotp_inv_def py_defs can_close_def)

lemma isotp_set_address_inv: "keeps isotp_inv (isotp_set_address a)"
  by (rule keepsI) (auto simp: isotp_set_address_def isotp_inv_def Let_def)

datatype isotp_call =
    CallOpen | CallClose | CallTeardown | CallSetAddress isotp_address
  | CallSend bytes rat | CallRecv rat

fun isotp_run :: "isotp_call list \<Rightarrow> 'a isotp_world_scheme \<Rightarrow> 'a isotp_world_scheme" where
  "isotp_run [] w = w"
| "isotp_run (CallOpen # cs) w = isotp_run cs (snd (isotp_open w))"
| "isotp_run (CallClose # cs) w = isotp_run cs (snd (isotp_close w))"
| "isotp_run (CallTeardown # cs) w = isotp_run cs (snd (isotp_teardown w))"
| "isotp_run (CallSetAddress a # cs) w = isotp_run cs (snd (isotp_set_address a w))"
| "isotp_run (CallSend d t # cs) w = isotp_run cs (snd (isotp_send d t w))"
| "isotp_run (CallRecv t # cs) w = isotp_run cs (snd (isotp_recv t w))"

lemma isotp_teardown_inv: "keeps isotp_inv isotp_teardown"
  by (auto simp: isotp_teardown_def intro: isotp_close_inv)

lemmas isotp_invs = isotp_open_inv isotp_close_inv isotp_teardown_inv isotp_set_address_inv
  isotp_send_inv isotp_recv_inv

lemma isotp_run_inv: "isotp_inv w \<Longrightarrow> isotp_inv (isotp_run cs w)"
proof (induction cs arbitrary: w)
  case Nil
  then show ?case by simp
next
  case (Cons c cs)
  show ?case
    using Cons.prems by (cases c) (simp_all add: Cons.IH isotp_invs [THEN keeps_run])
qed

text \<open>
  C12. After any sequence of calls on a freshly built communicator, each of which may fail, the flag
  \<open>_is_open\<close> says exactly whether a stack is running, a running stack is on the open bus of the
  CAN communicator and has the communicator's current address, and sending and receiving raise
  exactly when the flag is down.
\<close>

theorem isotp_always_consistent:
  assumes "iso_is_open w = False" and "iso_stack w = None"
  shows "let v = isotp_run calls w in
     (iso_is_open v \<longleftrightarrow> (\<exists>s. iso_stack v = Some s \<and> stack_running s)) \<and>
     (iso_is_open v \<longrightarrow> (\<exists>s. iso_stack v = Some s \<and> bus v = Some (stack_bus s) \<and>
        iso_address v = Some (stack_address s))) \<and>
     (isotp_recv t v = (Exn isotp_not_open, v) \<longleftrightarrow> \<not> iso_is_open v) \<and>
     (\<not> iso_is_open v \<longrightarrow> isotp_send d t v = (Exn isotp_not_open, v))"
proof -
  have "isotp_inv w"
    using assms by (simp add: isotp_inv_def)
  then have "isotp_inv (isotp_run calls w)"
    by (rule isotp_run_inv)
  then show ?thesis
    by (auto simp: isotp_inv_def Let_def isotp_send_def isotp_recv_def split: list.splits)
qed

definition demo_isotp :: isotp_world where
  "demo_isotp =
     \<lparr>clock = (\<lambda>_. 0), ticks = 0, channel = ''can0'', support_fd = False, blacklist_ids = {},
      bus = None, bus_error = None, rx_script = [], tx_script = [], tx_log = [],
      periodic_log = [], shutdowns = 0, rxid = 0x700, txid = 0x708, padding_byte = Some 0,
      bitrate_switch = None, can_fd = Some True, iso_is_open = False, iso_address = None,
      iso_params = \<lparr>blocking_send = True, tx_padding = None, params_bitrate_switch = None,
                    params_can_fd = None\<rparr>,
      iso_stack = None, stack_rx = [], stack_tx = [], stack_log = []\<rparr>"

theorem isotp_always_consistent_witness:
  "let v = isotp_run [CallOpen, CallSend [1] 1, CallClose, CallOpen] demo_isotp in
     (iso_is_open v \<longleftrightarrow> (\<exists>s. iso_stack v = Some s \<and> stack_running s))"
  using isotp_always_consistent
    [of demo_isotp "[CallOpen, CallSend [1] 1, CallClose, CallOpen]"]
  by (simp add: demo_isotp_def Let_def)

text \<open>
  What construction makes of the fields: 29-bit addressing exactly when one of the two CAN
  identifiers needs more than 11 bits, and a stack that pads exactly when a non-zero padding byte
  is given. A padding byte of 0x00, which the field allows, is dropped: such a communicator has the
  same parameters as one without padding.
\<close>

theorem isotp_construction:
  assumes "isotp_post_init err w = (Val (), w')"
  shows "(\<exists>a. iso_address w' = Some a \<and> addr_rxid a = rxid w \<and> addr_txid a = txid w \<and>
            (addr_mode a = Normal_29bits \<longleftrightarrow> rxid w > 2047 \<or> txid w > 2047)) \<and>
     (tx_padding (iso_params w') = (if padding_byte w = Some 0 then None else padding_byte w)) \<and>
     (padding_byte w = Some 0 \<longrightarrow>
        iso_params w' = iso_params (snd (isotp_post_init err (w\<lparr>padding_byte := None\<rparr>)))) \<and>
     blocking_send (iso_params w')"
proof -
  define mode where
    "mode = (if rxid w > 2047 \<or> txid w > 2047 then Normal_29bits else Normal_11bits)"
  define addr where "addr = \<lparr>addr_rxid = rxid w, addr_txid = txid w, addr_mode = mode\<rparr>"
  have "err addr = None"
    using assms by (auto simp: isotp_post_init_def Let_def CAN_ID_MAX_NORMAL_11_BITS_def addr_def
        mode_def split: option.splits)
  then have w': "w' = w\<lparr>iso_address := Some addr, iso_params := params_of w\<rparr>"
    and none: "iso_params (snd (isotp_post_init err (w\<lparr>padding_byte := None\<rparr>))) =
      params_of (w\<lparr>padding_byte := None\<rparr>)"
    using assms by (simp_all add: isotp_post_init_def Let_def CAN_ID_MAX_NORMAL_11_BITS_def
        addr_def mode_def)
  have "mode = Normal_29bits \<longleftrightarrow> rxid w > 2047 \<or> txid w > 2047"
    by (simp add: mode_def)
  with none show ?thesis
    by (simp add: w' addr_def params_of_fields)
qed

theorem isotp_construction_witness:
  "\<exists>w'. isotp_post_init (\<lambda>_. None) demo_isotp = (Val (), w') \<and> tx_padding (iso_params w') = None"
proof -
  obtain w' where run: "isotp_post_init (\<lambda>_. None) demo_isotp = (Val (), w')"
    by (simp add: isotp_post_init_def Let_def)
  then show ?thesis
    using isotp_construction [OF run] by (auto simp: demo_isotp_def)
qed

end
