(* ===== verification/Tcp_Communicator.thy ===== *)
theory Tcp_Communicator
  imports Communicator
begin

section \<open>The TCP communicator\<close>

text \<open>
  Models \<open>TcpCommunicator\<close> (\<open>communication/ip/tcp/tcp.py\<close>) over a socket of the standard library.
  The socket is none, unconnected, connected or closed. What the peer of the current connection
  sends is \<open>tcp_in\<close>: data, stretches in which nothing comes for as long as the next wait lasts,
  an error of the connection (reported once), or the end of the stream. \<open>dials\<close> says how the next
  calls of \<open>connect\<close> end and what the peer of each new connection will send; past its end
  connections are refused. \<open>send_script\<close> says how many bytes each \<open>send\<close> of the socket takes (all,
  past the end of the script), \<open>bind_script\<close> what \<open>bind\<close> raises, if anything. \<open>tcp_log\<close> records,
  in order, what went over the sockets.
\<close>

datatype sock_state = NoSocket | Unconnected | Connected | Closed

datatype inbound = InData bytes | InQuiet | InError exn | InEof

datatype dial = DialOk "inbound list" | DialError exn

datatype send_result = SendTakes nat | SendError exn

datatype tcp_event = Dialled | Wrote bytes | Got bytes | HungUp

record tcp_world = timed +
  sock :: sock_state
  tcp_in :: "inbound list"
  dials :: "dial list"
  send_script :: "send_result list"
  bind_script :: "exn option list"
  tcp_log :: "tcp_event list"

definition SOCK_DATA_RECV_AMOUNT :: nat where
  "SOCK_DATA_RECV_AMOUNT = 4096"

subsection \<open>What the socket calls raise\<close>

definition no_attribute :: exn where
  "no_attribute = AttributeError ''NoneType''"

definition bad_descriptor :: exn where
  "bad_descriptor = OSError ''Bad file descriptor''"

definition not_connected :: exn where
  "not_connected = OSError ''Transport endpoint is not connected''"

text \<open>\<open>socket.recv(16, MSG_DONTWAIT | MSG_PEEK)\<close>: data stays in the socket, an error is used up.\<close>

definition sock_peek :: "('a tcp_world_scheme, bytes) py" where
  "sock_peek = (\<lambda>w. case sock w of
       NoSocket \<Rightarrow> (Exn no_attribute, w)
     | Closed \<Rightarrow> (Exn bad_descriptor, w)
     | Unconnected \<Rightarrow> (Exn not_connected, w)
     | Connected \<Rightarrow> (case tcp_in w of
         [] \<Rightarrow> (Exn BlockingIOError, w)
       | InQuiet # _ \<Rightarrow> (Exn BlockingIOError, w)
       | InData d # _ \<Rightarrow> (Val (take 16 d), w)
       | InError e # s \<Rightarrow> (Exn e, w\<lparr>tcp_in := s\<rparr>)
       | InEof # _ \<Rightarrow> (Val [], w)))"

text \<open>\<open>socket.recv(amount)\<close>, which waits through the quiet stretches.\<close>

fun take_inbound :: "nat \<Rightarrow> inbound list \<Rightarrow> bytes res \<times> inbound list" where
  "take_inbound amount [] = (Diverge, [])"
| "take_inbound amount (InQuiet # s) = take_inbound amount s"
| "take_inbound amount (InData d # s) =
     (Val (take amount d), if length d \<le> amount then s else InData (drop amount d) # s)"
| "take_inbound amount (InError e # s) = (Exn e, s)"
| "take_inbound amount (InEof # s) = (Val [], InEof # s)"

definition sock_recv :: "nat \<Rightarrow> ('a tcp_world_scheme, bytes) py" where
  "sock_recv amount = (\<lambda>w. case sock w of
       NoSocket \<Rightarrow> (Exn no_attribute, w)
     | Closed \<Rightarrow> (Exn bad_descriptor, w)
     | Unconnected \<Rightarrow> (Exn not_connected, w)
     | Connected \<Rightarrow> (case take_inbound amount (tcp_in w) of
         (Val d, s) \<Rightarrow> (Val d, w\<lparr>tcp_in := s,
            tcp_log := (if d = [] then tcp_log w else tcp_log w @ [Got d])\<rparr>)
       | (r, s) \<Rightarrow> (r, w\<lparr>tcp_in := s\<rparr>)))"

text \<open>\<open>select.select([sock], [], [], timeout)\<close>: whether the socket is ready to be read.\<close>

definition sock_select :: "('a tcp_world_scheme, bool) py" where
  "sock_select = (\<lambda>w. case sock w of
       NoSocket \<Rightarrow> (Exn (TypeError ''argument must be an int, or have a fileno() method''), w)
     | Closed \<Rightarrow> (Exn (ValueError ''file descriptor cannot be a negative integer (-1)''), w)
     | Unconnected \<Rightarrow> (Val True, w)
     | Connected \<Rightarrow> (case tcp_in w of
         [] \<Rightarrow> (Val False, w)
       | InQuiet # s \<Rightarrow> (Val False, w\<lparr>tcp_in := s\<rparr>)
       | _ \<Rightarrow> (Val True, w)))"

definition sock_send :: "bytes \<Rightarrow> ('a tcp_world_scheme, int) py" where
  "sock_send data = (\<lambda>w. case sock w of
       NoSocket \<Rightarrow> (Exn no_attribute, w)
     | Closed \<Rightarrow> (Exn bad_descriptor, w)
     | Unconnected \<Rightarrow> (Exn not_connected, w)
     | Connected \<Rightarrow> (case send_script w of
         [] \<Rightarrow> (Val (int (length data)), w\<lparr>tcp_log := tcp_log w @ [Wrote data]\<rparr>)
       | SendError e # s \<Rightarrow> (Exn e, w\<lparr>send_script := s\<rparr>)
       | SendTakes n # s \<Rightarrow> (Val (int (min n (length data))),
            w\<lparr>send_script := s, tcp_log := tcp_log w @ [Wrote (take n data)]\<rparr>)))"

definition sock_close :: "('a tcp_world_scheme, unit) py" where
  "sock_close = (\<lambda>w. case sock w of
       NoSocket \<Rightarrow> (Exn no_attribute, w)
     | Connected \<Rightarrow> (Val (), w\<lparr>sock := Closed, tcp_in := [], tcp_log := tcp_log w @ [HungUp]\<rparr>)
     | _ \<Rightarrow> (Val (), w\<lparr>sock := Closed, tcp_in := []\<rparr>))"

subsection \<open>The communicator's operations\<close>

text \<open>A new socket replaces the one the communicator held, even when binding it then fails.\<close>

definition tcp_open :: "('a tcp_world_scheme, bool) py" where
  "tcp_open = (\<lambda>w.
     let w1 = w\<lparr>sock := Unconnected, tcp_in := []\<rparr>
     in case bind_script w1 of
          Some e # s \<Rightarrow> (Exn e, w1\<lparr>bind_script := s\<rparr>)
        | None # s \<Rightarrow> (Val True, w1\<lparr>bind_script := s\<rparr>)
        | [] \<Rightarrow> (Val True, w1))"

definition is_timeout :: "exn \<Rightarrow> bool" where
  "is_timeout e = (case e of TimeoutError _ \<Rightarrow> True | _ \<Rightarrow> False)"

definition tcp_is_open :: "('a tcp_world_scheme, bool) py" where
  "tcp_is_open =
     py_catch (py_bind sock_peek (\<lambda>data. py_ret (data \<noteq> [])))
       (\<lambda>ex. if ex = BlockingIOError then py_ret True
             else if ex = ConnectionResetError then py_ret False
             else if is_timeout ex then py_ret True
             else py_ret False)"

text \<open>\<open>shutdown\<close> is only called on a socket \<open>is_open\<close> says is open, where it succeeds.\<close>

definition tcp_close :: "('a tcp_world_scheme, bool) py" where
  "tcp_close = py_bind tcp_is_open (\<lambda>_. py_seq sock_close (py_ret True))"

definition tcp_send :: "bytes \<Rightarrow> rat \<Rightarrow> ('a tcp_world_scheme, int) py" where
  "tcp_send data timeout = py_catch (sock_send data) (\<lambda>ex. py_ret 0)"

definition tcp_recv_size :: "rat \<Rightarrow> nat \<Rightarrow> ('a tcp_world_scheme, bytes) py" where
  "tcp_recv_size recv_timeout amount =
     (let read = py_catch (sock_recv amount)
            (\<lambda>ex. if ex = ConnectionResetError \<or> is_timeout ex then py_ret [] else py_raise ex)
      in if recv_timeout > 0
         then py_bind sock_select (\<lambda>ready. if \<not> ready then py_ret [] else read)
         else read)"

definition tcp_recv :: "rat \<Rightarrow> ('a tcp_world_scheme, bytes) py" where
  "tcp_recv recv_timeout = tcp_recv_size recv_timeout SOCK_DATA_RECV_AMOUNT"

definition tcp_connect :: "('a tcp_world_scheme, bool) py" where
  "tcp_connect = (\<lambda>w. case sock w of
       NoSocket \<Rightarrow> (Exn no_attribute, w)
     | Closed \<Rightarrow> (Exn bad_descriptor, w)
     | Connected \<Rightarrow> (Exn (OSError ''Transport endpoint is already connected''), w)
     | Unconnected \<Rightarrow> (case dials w of
         [] \<Rightarrow> (Exn (OSError ''Connection refused''), w)
       | DialError e # ds \<Rightarrow> (Exn e, w\<lparr>dials := ds\<rparr>)
       | DialOk s # ds \<Rightarrow> (Val True,
            w\<lparr>sock := Connected, tcp_in := s, dials := ds, tcp_log := tcp_log w @ [Dialled]\<rparr>)))"

definition tcp_enter :: "('a tcp_world_scheme, unit) py" where
  "tcp_enter =
     py_bind (py_bind tcp_open (\<lambda>a. if a then tcp_connect else py_ret False))
       (\<lambda>ok. if ok then py_ret ()
             else py_raise (RuntimeError ''Failed opening socket or connecting to target''))"

definition tcp_exit :: "('a tcp_world_scheme, bool) py" where
  "tcp_exit = py_seq tcp_close (py_ret False)"

definition tcp_comm :: "'a tcp_world_scheme comm" where
  "tcp_comm =
     \<lparr>comm_open = tcp_open, comm_close = tcp_close, comm_send = tcp_send,
      comm_recv = tcp_recv, comm_type = TCP\<rparr>"

subsection \<open>What is still to arrive\<close>

text \<open>
  The bytes and events the current connection and those still to be dialled can bring.
\<close>

fun inbound_size :: "inbound \<Rightarrow> nat" where
  "inbound_size (InData d) = Suc (length d)"
| "inbound_size InQuiet = 1"
| "inbound_size (InError _) = 1"
| "inbound_size InEof = 0"

fun dial_size :: "dial \<Rightarrow> nat" where
  "dial_size (DialOk s) = Suc (sum_list (map inbound_size s))"
| "dial_size (DialError _) = 1"

definition tcp_pending :: "'a tcp_world_scheme \<Rightarrow> nat" where
  "tcp_pending w =
     sum_list (map inbound_size (tcp_in w)) + sum_list (map dial_size (dials w))"

definition same_tcp :: "'a tcp_world_scheme \<Rightarrow> 'a tcp_world_scheme \<Rightarrow> bool" where
  "same_tcp w w' \<longleftrightarrow> dials w' = dials w \<and> sock w' = sock w"

lemma take_inbound_size:
  assumes "take_inbound amount s = (r, s')"
  shows "sum_list (map inbound_size s') \<le> sum_list (map inbound_size s)"
    and "r = Val d \<Longrightarrow> d \<noteq> [] \<Longrightarrow>
      sum_list (map inbound_size s') < sum_list (map inbound_size s)"
  using assms
  by (induction amount s arbitrary: r s' rule: take_inbound.induct) (auto split: if_splits)

lemma take_inbound_ready:
  "s \<noteq> [] \<Longrightarrow> hd s \<noteq> InQuiet \<Longrightarrow> fst (take_inbound amount s) \<noteq> Diverge"
  by (cases "(amount, s)" rule: take_inbound.cases) auto

lemma tcp_recv_not_Diverge: "0 < t \<Longrightarrow> returns (tcp_recv t) w"
  using take_inbound_ready [of "tcp_in w" SOCK_DATA_RECV_AMOUNT]
  by (auto simp: returns_def tcp_recv_def tcp_recv_size_def Let_def py_defs sock_select_def
      sock_recv_def split: sock_state.splits list.splits inbound.splits prod.splits res.splits)

lemma sock_recv_size:
  "sock_recv n w = (r, w') \<Longrightarrow> dials w' = dials w \<and>
     sum_list (map inbound_size (tcp_in w')) \<le> sum_list (map inbound_size (tcp_in w)) \<and>
     (\<forall>d. r = Val d \<longrightarrow> d \<noteq> [] \<longrightarrow>
        sum_list (map inbound_size (tcp_in w')) < sum_list (map inbound_size (tcp_in w)))"
  by (auto simp: sock_recv_def dest: take_inbound_size
      split: sock_state.splits prod.splits res.splits if_splits)

lemma sock_select_size:
  "sock_select w = (r, w') \<Longrightarrow> dials w' = dials w \<and>
     sum_list (map inbound_size (tcp_in w')) \<le> sum_list (map inbound_size (tcp_in w))"
  by (auto simp: sock_select_def split: sock_state.splits list.splits inbound.splits)

lemma tcp_recv_size_pending:
  assumes "tcp_recv_size t n w = (r, w')"
  shows "tcp_pending w' \<le> tcp_pending w \<and> (\<forall>d. r = Val d \<longrightarrow> d \<noteq> [] \<longrightarrow> tcp_pending w' < tcp_pending w)"
proof -
  define read where "read = py_catch (sock_recv n :: ('a tcp_world_scheme, bytes) py)
            (\<lambda>ex. if ex = ConnectionResetError \<or> is_timeout ex then py_ret [] else py_raise ex)"
  have read: "tcp_pending v' \<le> tcp_pending v \<and>
      (\<forall>d. q = Val d \<longrightarrow> d \<noteq> [] \<longrightarrow> tcp_pending v' < tcp_pending v)"
    if "read v = (q, v')" for v v' :: "'a tcp_world_scheme" and q
    using that sock_recv_size [of n v]
    by (auto simp: read_def py_catch_def tcp_pending_def split: prod.splits res.splits if_splits)
  show ?thesis
  proof (cases "t > 0")
    case False
    then show ?thesis
      using assms read [of w] by (simp add: tcp_recv_size_def read_def)
  next
    case True
    obtain b v where sel: "sock_select w = (b, v)" by fastforce
    have "tcp_pending v \<le> tcp_pending w"
      using sock_select_size [OF sel] by (simp add: tcp_pending_def)
    then show ?thesis
      using assms True sel read [of v r w']
      by (auto simp: tcp_recv_size_def read_def [symmetric] Let_def py_bind_def
          split: res.splits if_splits)
  qed
qed

lemma tcp_send_frame:
  "tcp_send d t w = (r, w') \<Longrightarrow> tcp_in w' = tcp_in w \<and> dials w' = dials w \<and> sock w' = sock w"
  by (auto simp: tcp_send_def sock_send_def py_defs
      split: sock_state.splits list.splits send_result.splits)

lemma tcp_send_returns: "returns (tcp_send d t) w"
  by (auto simp: returns_def tcp_send_def sock_send_def py_defs
      split: sock_state.splits list.splits send_result.splits)

interpretation tcp: message_link time_now tcp_send tcp_recv tcp_pending
proof unfold_locales
  fix w w' :: "'a tcp_world_scheme" and d t r sent
  show "\<exists>c w'. time_now w = (Val c, w') \<and> tcp_pending w' = tcp_pending w"
    by (simp add: tcp_pending_def)
  show "returns (tcp_send d t) w"
    by (rule tcp_send_returns)
  show "tcp_pending w' \<le> tcp_pending w" if "tcp_send d t w = (sent, w')"
    using tcp_send_frame [OF that] by (simp add: tcp_pending_def)
  show "0 < t \<Longrightarrow> returns (tcp_recv t) w"
    by (rule tcp_recv_not_Diverge)
  show "tcp_pending w' \<le> tcp_pending w" if "tcp_recv t w = (r, w')"
    using tcp_recv_size_pending that unfolding tcp_recv_def by blast
  show "tcp_pending w' < tcp_pending w" if "tcp_recv t w = (Val d, w')" "d \<noteq> []"
    using tcp_recv_size_pending that unfolding tcp_recv_def by blast
qed

lemma sock_recv_log:
  "sock_recv n w = (r, w') \<Longrightarrow>
     tcp_log w' = tcp_log w @ (case r of Val d \<Rightarrow> if d = [] then [] else [Got d] | _ \<Rightarrow> [])"
  by (auto simp: sock_recv_def split: sock_state.splits prod.splits res.splits)

lemma sock_select_log: "sock_select w = (r, w') \<Longrightarrow> tcp_log w' = tcp_log w"
  by (auto simp: sock_select_def split: sock_state.splits list.splits inbound.splits)

lemma tcp_recv_log:
  assumes "tcp_recv t w = (r, w')"
  shows "tcp_log w' = tcp_log w @ (case r of Val d \<Rightarrow> if d = [] then [] else [Got d] | _ \<Rightarrow> [])"
proof -
  obtain b v where sel: "sock_select w = (b, v)" by fastforce
  obtain q x where w: "sock_recv SOCK_DATA_RECV_AMOUNT w = (q, x)" by fastforce
  obtain p y where v: "sock_recv SOCK_DATA_RECV_AMOUNT v = (p, y)" by fastforce
  show ?thesis
    using assms sel w v sock_select_log [OF sel] sock_recv_log [OF w] sock_recv_log [OF v]
    by (auto simp: tcp_recv_def tcp_recv_size_def Let_def py_bind_def py_catch_def
        split: res.splits if_splits)
qed

interpretation tcp: journal_link time_now tcp_send tcp_recv tcp_pending tcp_log Got
  by unfold_locales (auto dest: tcp_recv_log)

lemma tcp_send_log:
  "tcp_send d t w = (r, w') \<Longrightarrow> (tcp_log w' = tcp_log w \<or> (\<exists>n. tcp_log w' = tcp_log w @ [Wrote (take n d)]))
     \<and> (\<forall>n. r = Val n \<longrightarrow> n \<noteq> 0 \<longrightarrow> tcp_log w' = tcp_log w @ [Wrote (take (nat n) d)])"
  by (auto simp: tcp_send_def sock_send_def py_defs min_def
      split: sock_state.splits list.splits send_result.splits if_splits intro: exI [where x = "length d"])

subsection \<open>What the other operations leave\<close>

lemma tcp_is_open_frame:
  "tcp_is_open w = (r, w') \<Longrightarrow> \<exists>b. r = Val b \<and> sock w' = sock w \<and> dials w' = dials w \<and>
     tcp_log w' = tcp_log w \<and> (tcp_in w' = tcp_in w \<or> (\<exists>e. tcp_in w = InError e # tcp_in w'))"
  by (auto simp: tcp_is_open_def sock_peek_def py_defs
      split: sock_state.splits list.splits inbound.splits if_splits)

lemma tcp_is_open_pending: "tcp_is_open w = (r, w') \<Longrightarrow> tcp_pending w' \<le> tcp_pending w"
  using tcp_is_open_frame [of w r w'] by (auto simp: tcp_pending_def)

lemma tcp_is_open_closed: "sock w \<noteq> Connected \<Longrightarrow> tcp_is_open w = (Val False, w)"
  by (cases "sock w")
    (simp_all add: tcp_is_open_def sock_peek_def py_defs no_attribute_def bad_descriptor_def
      not_connected_def is_timeout_def)

lemma tcp_close_run:
  assumes "tcp_close w = (r, w')"
  shows "if sock w = NoSocket then r = Exn no_attribute \<and> w' = w
         else r = Val True \<and> sock w' = Closed \<and> dials w' = dials w \<and>
              tcp_log w' = tcp_log w @ (if sock w = Connected then [HungUp] else [])"
    and "tcp_pending w' \<le> tcp_pending w"
proof -
  obtain b v where b: "tcp_is_open w = (Val b, v)" "sock v = sock w" "dials v = dials w"
    "tcp_log v = tcp_log w"
    using tcp_is_open_frame by (metis prod.exhaust)
  have pend: "tcp_pending v \<le> tcp_pending w"
    using b(1) by (rule tcp_is_open_pending)
  have unsock: "v = w" if "sock w = NoSocket"
    using b(1) tcp_is_open_closed [of w] that by simp
  show "if sock w = NoSocket then r = Exn no_attribute \<and> w' = w
         else r = Val True \<and> sock w' = Closed \<and> dials w' = dials w \<and>
              tcp_log w' = tcp_log w @ (if sock w = Connected then [HungUp] else [])"
    using assms b unsock
    by (cases "sock w") (auto simp: tcp_close_def py_defs sock_close_def)
  show "tcp_pending w' \<le> tcp_pending w"
    using assms b pend
    by (cases "sock w") (auto simp: tcp_close_def py_defs sock_close_def tcp_pending_def)
qed

lemma tcp_open_run:
  "tcp_open w = (r, w') \<Longrightarrow> r \<noteq> Diverge \<and> sock w' = Unconnected \<and> dials w' = dials w \<and>
     tcp_log w' = tcp_log w \<and> tcp_pending w' \<le> tcp_pending w \<and> (\<forall>b. r = Val b \<longrightarrow> b)"
  by (auto simp: tcp_open_def Let_def tcp_pending_def split: list.splits option.splits)

lemma tcp_connect_run:
  "tcp_connect w = (r, w') \<Longrightarrow> r \<noteq> Diverge \<and> tcp_pending w' \<le> tcp_pending w \<and>
     (\<forall>b. r = Val b \<longrightarrow> b \<and> sock w' = Connected \<and> tcp_log w' = tcp_log w @ [Dialled]) \<and>
     (\<forall>e. r = Exn e \<longrightarrow> tcp_log w' = tcp_log w)"
  by (auto simp: tcp_connect_def tcp_pending_def
      split: sock_state.splits list.splits dial.splits)

lemma tcp_shrinks [intro, simp]:
  "moves (no_more tcp_pending) tcp_is_open"
  "moves (no_more tcp_pending) tcp_close"
  "moves (no_more tcp_pending) tcp_open"
  "moves (no_more tcp_pending) tcp_connect"
  by (auto intro!: movesI simp: no_more_def
      dest: tcp_is_open_pending tcp_close_run(2) tcp_open_run tcp_connect_run)

lemma tcp_returns [intro, simp]:
  "returns tcp_is_open w"
  "returns tcp_close w"
  "returns tcp_open w"
  "returns tcp_connect w"
proof -
  show "returns tcp_is_open w"
    using tcp_is_open_frame [of w] by (cases "tcp_is_open w") (auto simp: returns_def)
  show "returns tcp_close w"
    using tcp_close_run(1) [of w] by (cases "tcp_close w") (auto simp: returns_def split: if_splits)
  show "returns tcp_open w"
    using tcp_open_run [of w] by (cases "tcp_open w") (auto simp: returns_def)
  show "returns tcp_connect w"
    using tcp_connect_run [of w] by (cases "tcp_connect w") (auto simp: returns_def)
qed

lemma tcp_closed:
  assumes "sock w = Closed"
  shows "tcp_send d t w = (Val 0, w)" and "\<exists>e. tcp_recv t w = (Exn e, w)"
    and "\<exists>e. tcp_connect w = (Exn e, w)"
proof -
  have recv: "sock_recv n w = (Exn bad_descriptor, w)" for n
    using assms by (simp add: sock_recv_def)
  have not_caught: "\<not> (bad_descriptor = ConnectionResetError \<or> is_timeout bad_descriptor)"
    by (simp add: bad_descriptor_def is_timeout_def)
  show "\<exists>e. tcp_recv t w = (Exn e, w)"
  proof (cases "0 < t")
    case True
    with assms show ?thesis
      by (auto simp: tcp_recv_def tcp_recv_size_def Let_def sock_select_def py_bind_def)
  next
    case False
    with recv not_caught show ?thesis
      by (auto simp: tcp_recv_def tcp_recv_size_def Let_def py_catch_def)
  qed
  show "tcp_send d t w = (Val 0, w)"
    using assms by (simp add: tcp_send_def sock_send_def py_catch_def)
  show "\<exists>e. tcp_connect w = (Exn e, w)"
    using assms by (simp add: tcp_connect_def)
qed

subsection \<open>Properties\<close>

text \<open>The bytes the peer of the current connection sends before the end of the stream.\<close>

fun stream :: "inbound list \<Rightarrow> bytes" where
  "stream [] = []"
| "stream (InData d # s) = d @ stream s"
| "stream (InEof # s) = []"
| "stream (_ # s) = stream s"

datatype tcp_call = TcpRecv rat nat | TcpIsOpen | TcpSend bytes rat

text \<open>The calls made on one connection, with what the receiving ones return, in order.\<close>

fun tcp_calls :: "tcp_call list \<Rightarrow> 'a tcp_world_scheme \<Rightarrow> bytes list \<times> 'a tcp_world_scheme" where
  "tcp_calls [] w = ([], w)"
| "tcp_calls (TcpIsOpen # cs) w = tcp_calls cs (snd (tcp_is_open w))"
| "tcp_calls (TcpSend d t # cs) w = tcp_calls cs (snd (tcp_send d t w))"
| "tcp_calls (TcpRecv t n # cs) w =
     (case tcp_recv_size t n w of
        (Val d, w') \<Rightarrow> (case tcp_calls cs w' of (ds, v) \<Rightarrow> (d # ds, v))
      | (_, w') \<Rightarrow> tcp_calls cs w')"

lemma take_inbound_stream:
  "take_inbound n s = (r, s') \<Longrightarrow>
     stream s = (case r of Val d \<Rightarrow> d @ stream s' | _ \<Rightarrow> stream s')"
  by (induction n s arbitrary: r s' rule: take_inbound.induct)
    (auto simp: append_assoc [symmetric] simp del: append_assoc split: if_splits)

lemma sock_recv_stream:
  "sock_recv n w = (r, w') \<Longrightarrow> sock w = Connected \<Longrightarrow> sock w' = Connected \<and>
     stream (tcp_in w) = (case r of Val d \<Rightarrow> d @ stream (tcp_in w') | _ \<Rightarrow> stream (tcp_in w'))"
  by (auto simp: sock_recv_def dest: take_inbound_stream split: prod.splits res.splits)

lemma sock_select_stream:
  "sock_select w = (r, w') \<Longrightarrow> sock w = Connected \<Longrightarrow>
     sock w' = Connected \<and> stream (tcp_in w') = stream (tcp_in w)"
  by (auto simp: sock_select_def split: list.splits inbound.splits)

lemma tcp_recv_size_stream:
  assumes "tcp_recv_size t n w = (r, w')" and "sock w = Connected"
  shows "sock w' = Connected \<and>
     stream (tcp_in w) = (case r of Val d \<Rightarrow> d @ stream (tcp_in w') | _ \<Rightarrow> stream (tcp_in w'))"
proof -
  obtain b v where sel: "sock_select w = (b, v)" by fastforce
  note v = sock_select_stream [OF sel assms(2)]
  obtain q x where w: "sock_recv n w = (q, x)" by fastforce
  obtain p y where v': "sock_recv n v = (p, y)" by fastforce
  show ?thesis
    using assms sel v sock_recv_stream [OF w] sock_recv_stream [OF v'] w v'
    by (auto simp: tcp_recv_size_def Let_def py_bind_def py_catch_def
        split: res.splits if_splits)
qed

text \<open>
  C9. However the calls on a connected communicator are made - receives of any size and timeout,
  polls of \<open>is_open\<close>, sends - the data the receives return, put together, followed by what is
  still to be read, is the peer's stream: no byte is lost, repeated or reordered, and polling does
  not use any up.
\<close>

theorem tcp_stream_integrity:
  assumes "sock w = Connected" and "tcp_calls calls w = (ds, w')"
  shows "stream (tcp_in w) = concat ds @ stream (tcp_in w')"
  using assms
proof (induction calls arbitrary: w ds)
  case Nil
  then show ?case by simp
next
  case (Cons c calls)
  show ?case
  proof (cases c)
    case (TcpRecv t n)
    obtain r v where r: "tcp_recv_size t n w = (r, v)" by fastforce
    show ?thesis
      using Cons TcpRecv r tcp_recv_size_stream [OF r]
      by (auto split: res.splits prod.splits)
  next
    case TcpIsOpen
    obtain r v where r: "tcp_is_open w = (r, v)" by fastforce
    show ?thesis
      using Cons.IH [of v ds] Cons.prems TcpIsOpen r tcp_is_open_frame [OF r] by auto
  next
    case (TcpSend d t)
    obtain r v where r: "tcp_send d t w = (r, v)" by fastforce
    show ?thesis
      using Cons.IH [of v ds] Cons.prems TcpSend r tcp_send_frame [OF r] by auto
  qed
qed

definition demo_tcp :: tcp_world where
  "demo_tcp =
     \<lparr>clock = of_nat, ticks = 0, sock = Connected,
      tcp_in = [InData [1, 2, 3], InQuiet, InData [4], InEof],
      dials = [DialOk [InData [9]]], send_script = [SendTakes 1], bind_script = [], tcp_log = []\<rparr>"

theorem tcp_stream_integrity_witness:
  "\<exists>w'. tcp_calls [TcpRecv 1 2, TcpIsOpen, TcpRecv 1 2, TcpRecv 1 2] demo_tcp = ([[1, 2], [3], []], w') \<and>
     stream (tcp_in demo_tcp) = concat [[1, 2], [3], []] @ stream (tcp_in w')"
proof -
  obtain w' where run: "tcp_calls [TcpRecv 1 2, TcpIsOpen, TcpRecv 1 2, TcpRecv 1 2] demo_tcp =
      ([[1, 2], [3], []], w')"
    by (simp add: demo_tcp_def tcp_recv_size_def Let_def py_defs sock_select_def sock_recv_def
        tcp_is_open_def sock_peek_def)
  moreover have "sock demo_tcp = Connected"
    by (simp add: demo_tcp_def)
  ultimately show ?thesis
    using tcp_stream_integrity by blast
qed

text \<open>
  The life cycle. Entering the context from any state, when binding and dialling succeed, gives
  a connected communicator on the new peer's stream; closing a communicator that has a socket
  always succeeds and leaves it closed, with \<open>is_open\<close> false, sends returning 0 and receives
  raising; closing one that never had a socket raises \<open>AttributeError\<close>. Dialling again without
  opening first raises on a closed communicator and on a connected one.
\<close>

theorem tcp_life_cycle:
  "(bind_script w = [] \<and> dials w = DialOk s # ds \<longrightarrow>
      (\<exists>w'. tcp_enter w = (Val (), w') \<and> sock w' = Connected \<and> tcp_in w' = s)) \<and>
   (sock w \<noteq> NoSocket \<longrightarrow>
      (\<exists>w'. tcp_close w = (Val True, w') \<and> sock w' = Closed \<and> tcp_is_open w' = (Val False, w') \<and>
         tcp_send d t w' = (Val 0, w') \<and> (\<exists>e. tcp_recv t w' = (Exn e, w')) \<and>
         (\<exists>e. tcp_connect w' = (Exn e, w')))) \<and>
   (sock w = NoSocket \<longrightarrow> tcp_close w = (Exn no_attribute, w)) \<and>
   (sock w = Connected \<longrightarrow> (\<exists>e. tcp_connect w = (Exn e, w)))"
proof (intro conjI impI)
  show "\<exists>w'. tcp_enter w = (Val (), w') \<and> sock w' = Connected \<and> tcp_in w' = s"
    if "bind_script w = [] \<and> dials w = DialOk s # ds"
    using that by (simp add: tcp_enter_def py_defs tcp_open_def Let_def tcp_connect_def)
  show "tcp_close w = (Exn no_attribute, w)" if "sock w = NoSocket"
    using that tcp_close_run(1) [of w] by (metis prod.exhaust)
  show "\<exists>e. tcp_connect w = (Exn e, w)" if "sock w = Connected"
    using that by (simp add: tcp_connect_def)
  show "\<exists>w'. tcp_close w = (Val True, w') \<and> sock w' = Closed \<and> tcp_is_open w' = (Val False, w') \<and>
      tcp_send d t w' = (Val 0, w') \<and> (\<exists>e. tcp_recv t w' = (Exn e, w')) \<and>
      (\<exists>e. tcp_connect w' = (Exn e, w'))" if "sock w \<noteq> NoSocket"
  proof -
    obtain r w' where run: "tcp_close w = (r, w')" by fastforce
    then have "r = Val True" and closed: "sock w' = Closed"
      using tcp_close_run(1) [OF run] that by auto
    moreover have "tcp_is_open w' = (Val False, w')"
      using closed by (intro tcp_is_open_closed) simp
    ultimately show ?thesis
      using run tcp_closed [OF closed] by (auto simp: tcp_connect_def)
  qed
qed

theorem tcp_life_cycle_witness:
  "(\<exists>w'. tcp_enter demo_tcp = (Val (), w') \<and> sock w' = Connected \<and> tcp_in w' = [InData [9]]) \<and>
   (\<exists>w'. tcp_close demo_tcp = (Val True, w') \<and> tcp_is_open w' = (Val False, w')) \<and>
   tcp_close (demo_tcp\<lparr>sock := NoSocket\<rparr>) = (Exn no_attribute, demo_tcp\<lparr>sock := NoSocket\<rparr>)"
proof -
  have w: "bind_script demo_tcp = []" "dials demo_tcp = [DialOk [InData [9]]]"
    "sock demo_tcp = Connected" "sock (demo_tcp\<lparr>sock := NoSocket\<rparr>) = NoSocket"
    by (simp_all add: demo_tcp_def)
  show ?thesis
    using tcp_life_cycle [of demo_tcp "[InData [9]]" "[]" "[]" 1]
      tcp_life_cycle [of "demo_tcp\<lparr>sock := NoSocket\<rparr>" "[]" "[]" "[]" 1] w
    by auto
qed

end
