(* ===== verification/Doip_Utils.thy ===== *)
theory Doip_Utils
  imports Tcp_Communicator
begin

section \<open>DoIP requests over a communicator\<close>

text \<open>
  Models the static methods of \<open>DoipUtils\<close> (\<open>protocol/doip/impl/doip_utils.py\<close>) that exchange
  DoIP messages over any communicator: the reading loop \<open>_read_doip\<close>, the routing activation, the
  UDS request and the UDS response.

  The package \<open>doipclient\<close> is a parameter, the record \<open>doip_lib\<close>: packing, the payload types, and
  the stateful parser. Messages carry the fields the source reads. \<open>BaseDoIPMessage\<close> is an
  instance of the base class itself, which the reading loop skips; \<open>OtherDoIPMessage\<close> stands for
  the classes the source does not name.
\<close>

datatype doip_message =
    VehicleIdentificationRequest
  | VehicleIdentificationRequestWithEID bytes
  | VehicleIdentificationRequestWithVIN string
  | RoutingActivationRequest int int "int option"
  | DoipEntityStatusRequest
  | DiagnosticMessage int int bytes
  | DiagnosticMessagePositiveAcknowledgement bytes
  | GenericDoIPNegativeAcknowledge int
  | RoutingActivationResponse int bytes
  | VehicleIdentificationResponse bytes
  | EntityStatusResponse bytes
  | BaseDoIPMessage
  | OtherDoIPMessage string

record 'p doip_lib =
  message_pack :: "doip_message \<Rightarrow> exn + bytes"
  payload_message_to_type :: "doip_message \<Rightarrow> exn + int"
  pack_doip :: "int \<Rightarrow> int \<Rightarrow> bytes \<Rightarrow> exn + bytes"
  parser_new :: 'p
  parser_reset :: "'p \<Rightarrow> 'p"
  read_message :: "'p \<Rightarrow> bytes \<Rightarrow> (exn + doip_message option) \<times> 'p"
  A_PROCESSING_TIME :: rat

datatype DoipProtocolVersion = DoIP_13400_2010 | DoIP_13400_2012 | DoIP_13400_2019

fun doip_version_value :: "DoipProtocolVersion \<Rightarrow> int" where
  "doip_version_value DoIP_13400_2010 = 0x01"
| "doip_version_value DoIP_13400_2012 = 0x02"
| "doip_version_value DoIP_13400_2019 = 0x03"

definition DOIP_PORT :: int where
  "DOIP_PORT = 13400"

definition ActivationType_Default :: int where
  "ActivationType_Default = 0"

definition ResponseCode_Success :: int where
  "ResponseCode_Success = 0x10"

definition pack_doip_message ::
  "'p doip_lib \<Rightarrow> doip_message \<Rightarrow> DoipProtocolVersion \<Rightarrow> exn + bytes" where
  "pack_doip_message lib message protocol_version =
     (case message_pack lib message of
        Inl e \<Rightarrow> Inl e
      | Inr payload_data \<Rightarrow>
          (case payload_message_to_type lib message of
             Inl e \<Rightarrow> Inl e
           | Inr payload_type \<Rightarrow>
               pack_doip lib (doip_version_value protocol_version) payload_type payload_data))"

subsection \<open>Reading\<close>

text \<open>
  One unit of fuel for each round of the loop. \<open>data\<close> and \<open>response\<close> are the loop's variables,
  \<open>p\<close> the state of the parser.
\<close>

definition is_generic_nack :: "doip_message option \<Rightarrow> bool" where
  "is_generic_nack r = (case r of Some (GenericDoIPNegativeAcknowledge _) \<Rightarrow> True | _ \<Rightarrow> False)"

definition parse_data ::
  "'p doip_lib \<Rightarrow> 'p \<Rightarrow> bytes \<Rightarrow> doip_message option \<Rightarrow> exn + (doip_message option \<times> 'p)" where
  "parse_data lib p data response =
     (if data \<noteq> []
      then (case read_message lib p data of
              (Inl e, _) \<Rightarrow> Inl e
            | (Inr r, p') \<Rightarrow> Inr (r, p'))
      else Inr (response, p))"

fun read_doip_loop ::
  "'p doip_lib \<Rightarrow> ('w, rat) py \<Rightarrow> (rat \<Rightarrow> ('w, bytes) py) \<Rightarrow> rat \<Rightarrow> rat \<Rightarrow>
     nat \<Rightarrow> 'p \<Rightarrow> bytes \<Rightarrow> doip_message option \<Rightarrow> ('w, doip_message option) py" where
  "read_doip_loop lib now recv timeout start 0 p data response = py_diverge"
| "read_doip_loop lib now recv timeout start (Suc fuel) p data response =
     py_bind now (\<lambda>t.
       if \<not> t - start \<le> timeout then py_ret None
       else py_bind (py_lift (parse_data lib p data response)) (\<lambda>(response', p').
         if is_generic_nack response' then py_ret None
         else if response' \<noteq> None \<and> response' \<noteq> Some BaseDoIPMessage then py_ret response'
         else py_bind (recv timeout) (\<lambda>data'.
           if data' = [] then py_ret None
           else read_doip_loop lib now recv timeout start fuel p' data' response')))"

definition read_doip ::
  "'p doip_lib \<Rightarrow> ('w, rat) py \<Rightarrow> ('w \<Rightarrow> nat) \<Rightarrow> (rat \<Rightarrow> ('w, bytes) py) \<Rightarrow> rat \<Rightarrow>
     ('w, doip_message option) py" where
  "read_doip lib now budget recv timeout =
     py_bind now (\<lambda>start.
       (\<lambda>w. read_doip_loop lib now recv timeout start (Suc (budget w)) (parser_new lib) [] None w))"

subsection \<open>Requests\<close>

definition routing_activation_request ::
  "int \<Rightarrow> int \<Rightarrow> int option \<Rightarrow> doip_message" where
  "routing_activation_request client_logical_address activation_type vm_specific =
     RoutingActivationRequest client_logical_address activation_type vm_specific"

definition initiate_routing_activation_req_bound ::
  "'p doip_lib \<Rightarrow> ('w, rat) py \<Rightarrow> ('w \<Rightarrow> nat) \<Rightarrow> 'w comm \<Rightarrow> int \<Rightarrow> rat \<Rightarrow> int \<Rightarrow>
     DoipProtocolVersion \<Rightarrow> int option \<Rightarrow> ('w, (int \<times> bytes) option) py" where
  "initiate_routing_activation_req_bound lib now budget communicator client_logical_address timeout
       activation_type protocol_version vm_specific =
     (let message = routing_activation_request client_logical_address activation_type vm_specific in
      py_bind (py_lift (pack_doip_message lib message protocol_version)) (\<lambda>data.
        py_bind (comm_send communicator data timeout) (\<lambda>bytes_sent.
          if bytes_sent = 0
          then py_seq (comm_close communicator) (py_ret None)
          else py_bind (read_doip lib now budget (comm_recv communicator) timeout) (\<lambda>response.
            case response of
              Some (RoutingActivationResponse code rest) \<Rightarrow> py_ret (Some (code, rest))
            | _ \<Rightarrow> py_ret None))))"

definition send_uds_request ::
  "'p doip_lib \<Rightarrow> ('w, rat) py \<Rightarrow> ('w \<Rightarrow> nat) \<Rightarrow> 'w comm \<Rightarrow> bytes \<Rightarrow> int \<Rightarrow> int \<Rightarrow> rat \<Rightarrow>
     ('w, int) py" where
  "send_uds_request lib now budget communicator payload client_logical_address
       target_logical_address timeout =
     (let message = DiagnosticMessage client_logical_address target_logical_address payload in
      py_bind (py_lift (pack_doip_message lib message DoIP_13400_2012)) (\<lambda>data.
        py_bind (comm_send communicator data timeout) (\<lambda>sent_bytes.
          py_bind (read_doip lib now budget (comm_recv communicator) timeout) (\<lambda>response.
            py_ret sent_bytes))))"

definition read_uds_response ::
  "'p doip_lib \<Rightarrow> ('w, rat) py \<Rightarrow> ('w \<Rightarrow> nat) \<Rightarrow> 'w comm \<Rightarrow> rat \<Rightarrow> ('w, bytes option) py" where
  "read_uds_response lib now budget communicator timeout =
     py_bind (read_doip lib now budget (comm_recv communicator) timeout) (\<lambda>response.
       case response of
         Some (DiagnosticMessage _ _ user_data) \<Rightarrow> py_ret (Some user_data)
       | _ \<Rightarrow> py_ret None)"

subsection \<open>The reading loop ends\<close>

text \<open>What the loop makes of the chunks it receives: the first message it does not skip.\<close>

fun first_interesting :: "'p doip_lib \<Rightarrow> 'p \<Rightarrow> bytes list \<Rightarrow> doip_message option" where
  "first_interesting lib p [] = None"
| "first_interesting lib p (c # cs) =
     (case read_message lib p c of
        (Inl e, p') \<Rightarrow> None
      | (Inr r, p') \<Rightarrow>
          if is_generic_nack r then None
          else if r \<noteq> None \<and> r \<noteq> Some BaseDoIPMessage then r
          else first_interesting lib p' cs)"

declare read_doip_loop.simps(2) [simp del]

context message_link
begin

lemma read_doip_loop_shrinks:
  "moves (no_more pending) (read_doip_loop lib now recv timeout start fuel p data response)"
  by (induction fuel arbitrary: p data response)
    (auto simp: read_doip_loop.simps(2) intro!: moves_bind)

lemma read_doip_loop_returns:
  "0 < timeout \<Longrightarrow> pending w < fuel \<Longrightarrow>
     returns (read_doip_loop lib now recv timeout start fuel p data response) w"
proof (induction fuel arbitrary: p data response w)
  case 0
  then show ?case by simp
next
  case (Suc fuel)
  have ask: "returns (py_bind (recv timeout) (\<lambda>d. if d = [] then py_ret None
      else read_doip_loop lib now recv timeout start fuel q d resp)) u"
    if "pending u = pending w" for u q resp
  proof (rule returns_bind)
    show "returns (recv timeout) u"
      using Suc.prems(1) by (rule recv_returns)
    show "returns (if d = [] then py_ret None
        else read_doip_loop lib now recv timeout start fuel q d resp) v"
      if "recv timeout u = (Val d, v)" for d v
      using Suc.IH [of v q d resp] Suc.prems that recv_progress [OF that] \<open>pending u = pending w\<close>
      by auto
  qed
  show ?case
    unfolding read_doip_loop.simps(2)
  proof (rule returns_bind [OF now_returns])
    fix c v
    assume "now w = (Val c, v)"
    then have "pending v = pending w"
      by (rule now_pending)
    then have "returns (if is_generic_nack x then py_ret None
        else if x \<noteq> None \<and> x \<noteq> Some BaseDoIPMessage then py_ret x
        else py_bind (recv timeout) (\<lambda>d. if d = [] then py_ret None
          else read_doip_loop lib now recv timeout start fuel q d x)) v" for x q
      using ask by simp
    then show "returns (if \<not> c - start \<le> timeout then py_ret None
        else py_bind (py_lift (parse_data lib p data response)) (\<lambda>(x, q).
          if is_generic_nack x then py_ret None
          else if x \<noteq> None \<and> x \<noteq> Some BaseDoIPMessage then py_ret x
          else py_bind (recv timeout) (\<lambda>d. if d = [] then py_ret None
            else read_doip_loop lib now recv timeout start fuel q d x))) v"
      by (auto simp: py_lift_Val_iff
          intro!: returns_bind [OF returns_lift])
  qed
qed

lemma read_doip_returns: "0 < timeout \<Longrightarrow> returns (read_doip lib now pending recv timeout) w"
  unfolding read_doip_def
proof (intro returns_bind now_returns)
  show "returns (\<lambda>w. read_doip_loop lib now recv timeout c (Suc (pending w)) (parser_new lib) []
      None w) v" if "0 < timeout" for c v
    using read_doip_loop_returns [OF that, of v "Suc (pending v)"] by (simp add: returns_def)
qed

lemma read_doip_shrinks [intro, simp]:
  "moves (no_more pending) (read_doip lib now budget recv timeout)"
proof -
  have "moves (no_more pending) (\<lambda>w. read_doip_loop lib now recv timeout c (Suc (budget w))
      (parser_new lib) [] None w)" for c
    by (rule moves_at) (rule read_doip_loop_shrinks)
  then show ?thesis
    unfolding read_doip_def by (intro moves_bind) auto
qed

text \<open>A message is only read out of received data.\<close>

lemma read_doip_loop_progress:
  assumes "read_doip_loop lib now recv timeout start fuel p [] None w = (Val (Some m), w')"
  shows "pending w' < pending w"
proof -
  obtain n where fuel: "fuel = Suc n"
    using assms by (cases fuel) (auto simp: py_diverge_def)
  obtain c w1 where c: "now w = (Val c, w1)" "pending w1 = pending w"
    using now_total [of w] by auto
  from assms fuel c obtain d w2 where d: "recv timeout w1 = (Val d, w2)" "d \<noteq> []"
    and rest: "read_doip_loop lib now recv timeout start n p d None w2 = (Val (Some m), w')"
    by (auto simp: read_doip_loop.simps(2) py_bind_Val_iff parse_data_def is_generic_nack_def
        split: if_splits)
  show ?thesis
    using recv_progress [OF d] movesD [OF read_doip_loop_shrinks rest] c by (simp add: no_more_def)
qed

lemma read_doip_progress:
  assumes "read_doip lib now budget recv timeout w = (Val (Some m), w')"
  shows "pending w' < pending w"
proof -
  obtain c v where c: "now w = (Val c, v)" "pending v = pending w"
    using now_total [of w] by auto
  with assms have "read_doip_loop lib now recv timeout c (Suc (budget v)) (parser_new lib) [] None v =
      (Val (Some m), w')"
    by (simp add: read_doip_def run_bind_Val)
  from read_doip_loop_progress [OF this] c show ?thesis
    by simp
qed

end

context journal_link
begin

lemma read_doip_loop_journal:
  assumes "read_doip_loop lib now recv timeout start fuel p data response w = (r, w')"
    and "data \<noteq> []"
  shows "\<exists>chunks. journal w' = journal w @ map got chunks \<and>
     (\<forall>m. r = Val (Some m) \<longrightarrow> first_interesting lib p (data # chunks) = Some m)"
  using assms
proof (induction fuel arbitrary: p data response w)
  case 0
  then show ?case by (auto simp: py_diverge_def)
next
  case (Suc fuel)
  obtain c w1 where c: "now w = (Val c, w1)" "journal w1 = journal w"
    using now_total [of w] now_journal by blast
  show ?case
  proof (cases "parse_data lib p data response")
    case (Inl e)
    with Suc.prems c show ?thesis
      by (auto simp: read_doip_loop.simps(2) py_bind_def intro!: exI [where x = "[]"] split: if_splits)
  next
    case (Inr rq)
    obtain x q where rq: "rq = (x, q)" by fastforce
    have read: "read_message lib p data = (Inr x, q)"
      using Inr rq Suc.prems(2) by (auto simp: parse_data_def split: prod.splits sum.splits)
    show ?thesis
    proof (cases "c - start \<le> timeout \<and> \<not> is_generic_nack x \<and> (x = None \<or> x = Some BaseDoIPMessage)")
      case False
      then show ?thesis
        using Suc.prems c Inr rq read
        by (intro exI [where x = "[]"])
          (auto simp: read_doip_loop.simps(2) py_bind_def split: if_splits)
    next
      case True
      obtain d w2 where d: "recv timeout w1 = (d, w2)" by fastforce
      note jd = recv_journal [OF d]
      have run: "(case d of Val d' \<Rightarrow> (if d' = [] then py_ret None
            else read_doip_loop lib now recv timeout start fuel q d' x) w2
          | Exn e \<Rightarrow> (Exn e, w2) | Diverge \<Rightarrow> (Diverge, w2)) = (r, w')"
        using Suc.prems(1) c Inr rq True d
        by (auto simp: read_doip_loop.simps(2) py_bind_def split: res.splits)
      show ?thesis
      proof (cases "\<exists>d'. d = Val d' \<and> d' \<noteq> []")
        case False
        then show ?thesis
          using run jd c by (intro exI [where x = "[]"]) (auto split: res.splits)
      next
        case True
        then obtain d' where d': "d = Val d'" "d' \<noteq> []" by auto
        with run have "read_doip_loop lib now recv timeout start fuel q d' x w2 = (r, w')"
          by simp
        from Suc.IH [OF this d'(2)] obtain chunks where
          "journal w' = journal w2 @ map got chunks"
          "\<forall>m. r = Val (Some m) \<longrightarrow> first_interesting lib q (d' # chunks) = Some m"
          by auto
        then show ?thesis
          using jd d' c read \<open>c - start \<le> timeout \<and> _\<close>
          by (intro exI [where x = "d' # chunks"]) auto
      qed
    qed
  qed
qed

lemma read_doip_journal:
  assumes "read_doip lib now budget recv timeout w = (r, w')"
  shows "\<exists>chunks. journal w' = journal w @ map got chunks \<and>
     (\<forall>m. r = Val (Some m) \<longrightarrow> first_interesting lib (parser_new lib) chunks = Some m)"
proof -
  obtain c v where c: "now w = (Val c, v)" "journal v = journal w"
    using now_total [of w] now_journal by blast
  obtain c' v' where c': "now v = (Val c', v')" "journal v' = journal w"
    using now_total [of v] now_journal c(2) by metis
  show ?thesis
  proof (cases "c' - c \<le> timeout")
    case False
    then show ?thesis
      using assms c c'
      by (intro exI [where x = "[]"]) (auto simp: read_doip_def read_doip_loop.simps(2) run_bind_Val)
  next
    case True
    obtain d u where d: "recv timeout v' = (d, u)" by fastforce
    note jd = recv_journal [OF d]
    have run: "(case d of Val d' \<Rightarrow> (if d' = [] then py_ret None
          else read_doip_loop lib now recv timeout c (budget v) (parser_new lib) d' None) u
        | Exn e \<Rightarrow> (Exn e, u) | Diverge \<Rightarrow> (Diverge, u)) = (r, w')"
      using assms c c' True d
      by (auto simp: read_doip_def read_doip_loop.simps(2) py_bind_def parse_data_def
          is_generic_nack_def split: res.splits)
    show ?thesis
    proof (cases "\<exists>d'. d = Val d' \<and> d' \<noteq> []")
      case False
      then show ?thesis
        using run jd c' by (intro exI [where x = "[]"]) (auto split: res.splits)
    next
      case True
      then obtain d' where d': "d = Val d'" "d' \<noteq> []" by auto
      with run have "read_doip_loop lib now recv timeout c (budget v) (parser_new lib) d' None u = (r, w')"
        by simp
      from read_doip_loop_journal [OF this d'(2)] obtain chunks where
        "journal w' = journal u @ map got chunks"
        "\<forall>m. r = Val (Some m) \<longrightarrow> first_interesting lib (parser_new lib) (d' # chunks) = Some m"
        by auto
      then show ?thesis
        using jd d' c' by (intro exI [where x = "d' # chunks"]) auto
    qed
  qed
qed

end

subsection \<open>Properties\<close>

text \<open>
  A message format to try the theorems on: two bytes, the kind and a value, with a parser that
  buffers what it has not read yet.
\<close>

definition demo_message :: "byte \<Rightarrow> byte \<Rightarrow> doip_message" where
  "demo_message k v =
     (if k = 5 then RoutingActivationResponse (uint v) []
      else if k = 6 then DiagnosticMessage 0 0 [v]
      else if k = 7 then DiagnosticMessagePositiveAcknowledgement []
      else BaseDoIPMessage)"

definition demo_doip_lib :: "bytes doip_lib" where
  "demo_doip_lib =
     \<lparr>message_pack = (\<lambda>m. case m of DiagnosticMessage _ _ d \<Rightarrow> Inr (6 # d) | _ \<Rightarrow> Inr [5]),
      payload_message_to_type = (\<lambda>_. Inr 1),
      pack_doip = (\<lambda>v t d. Inr d),
      parser_new = [],
      parser_reset = (\<lambda>_. []),
      read_message = (\<lambda>p d. let b = p @ d in
        if length b < 2 then (Inr None, b) else (Inr (Some (demo_message (b ! 0) (b ! 1))), drop 2 b)),
      A_PROCESSING_TIME = 2\<rparr>"



text \<open>
  C14. What follows an acknowledgement in the same segment is lost. When the peer answers a UDS
  request with one segment whose first message is any that the reading loop returns, the request
  consumes the whole segment; nothing of it is left for the call that reads the UDS response, which
  returns nothing unless the peer sends more.
\<close>

theorem doip_segment_consumed:
  assumes "sock w = Connected" and "tcp_in w = [InData c]" and "c \<noteq> []" and "length c \<le> 4096"
    and "send_script w = []" and "clock w = (\<lambda>_. t0)" and "0 < timeout"
    and "pack_doip_message lib (DiagnosticMessage client target payload) DoIP_13400_2012 = Inr d"
    and "read_message lib (parser_new lib) c = (Inr (Some m), p)"
    and "\<not> is_generic_nack (Some m)" and "m \<noteq> BaseDoIPMessage"
  shows "\<exists>w'. send_uds_request lib time_now tcp_pending tcp_comm payload client target timeout w =
            (Val (int (length d)), w') \<and> tcp_in w' = [] \<and>
     (\<exists>w''. read_uds_response lib time_now tcp_pending tcp_comm timeout w' = (Val None, w''))"
proof -
  have nack: "\<not> is_generic_nack None" by (simp add: is_generic_nack_def)
  obtain n where n: "tcp_pending w = Suc n"
    using assms(2) by (simp add: tcp_pending_def)
  define w1 where "w1 = w\<lparr>tcp_log := tcp_log w @ [Wrote d]\<rparr>"
  have send: "comm_send tcp_comm d timeout w = (Val (int (length d)), w1)"
    using assms(1,5) by (simp add: tcp_comm_def tcp_send_def sock_send_def py_catch_def w1_def)
  define w2 where "w2 = w1\<lparr>ticks := ticks w + 3, tcp_in := [], tcp_log := tcp_log w1 @ [Got c]\<rparr>"
  have "read_doip lib time_now tcp_pending tcp_recv timeout w1 = (Val (Some m), w2)"
    using assms nack n
    by (simp add: read_doip_def read_doip_loop.simps(2) run_bind_Val parse_data_def w1_def w2_def
        tcp_recv_def tcp_recv_size_def Let_def sock_select_def sock_recv_def py_catch_def
        py_bind_def SOCK_DATA_RECV_AMOUNT_def tcp_pending_def numeral_eq_Suc)
  then have "send_uds_request lib time_now tcp_pending tcp_comm payload client target timeout w =
      (Val (int (length d)), w2)"
    using assms(8) send by (simp add: send_uds_request_def py_bind_def tcp_comm_def)
  moreover have "\<exists>w3. read_uds_response lib time_now tcp_pending tcp_comm timeout w2 = (Val None, w3)"
    using assms nack
    by (simp add: read_uds_response_def read_doip_def read_doip_loop.simps(2) parse_data_def w1_def
        w2_def tcp_comm_def tcp_recv_def tcp_recv_size_def Let_def sock_select_def py_bind_def)
  ultimately show ?thesis
    by (auto simp: w2_def)
qed

theorem doip_segment_consumed_witness:
  "let w = demo_tcp\<lparr>tcp_in := [InData [7, 0, 6, 80]], send_script := [], clock := (\<lambda>_. 0)\<rparr> in
   \<exists>w'. send_uds_request demo_doip_lib time_now tcp_pending tcp_comm [34] 14 15 1 w =
            (Val 2, w') \<and> tcp_in w' = [] \<and>
     (\<exists>w''. read_uds_response demo_doip_lib time_now tcp_pending tcp_comm 1 w' = (Val None, w''))"
  using doip_segment_consumed
    [of "demo_tcp\<lparr>tcp_in := [InData [7, 0, 6, 80]], send_script := [], clock := (\<lambda>_. 0)\<rparr>"
      "[7, 0, 6, 80]" 0 1 demo_doip_lib 14 15 "[34]" "[6, 34]"
      "DiagnosticMessagePositiveAcknowledgement []" "[6, 80]"]
  by (simp add: demo_tcp_def demo_doip_lib_def pack_doip_message_def demo_message_def
      is_generic_nack_def)

end
