(* ===== verification/Doip_Communicator.thy ===== *)
theory Doip_Communicator
  imports Doip_Utils
begin

section \<open>The DoIP communicator\<close>

text \<open>
  Models \<open>DoipCommunicator\<close> (\<open>communication/doip/doip_communicator.py\<close>): UDS over DoIP over a TCP
  communicator, which it dials again when it finds the connection gone, and on which it activates
  routing before it sends. The reading loops get \<open>tcp_pending\<close> rounds, which is enough: each
  round of a loop that goes on has received data.
\<close>

record doip_world = tcp_world +
  client_logical_address :: int
  target_logical_address :: int
  routing_activation_needed :: bool

definition initiate_routing_activation_if_needed ::
  "'p doip_lib \<Rightarrow> rat \<Rightarrow> ('a doip_world_scheme, bool) py" where
  "initiate_routing_activation_if_needed lib timeout =
     py_bind (py_get routing_activation_needed) (\<lambda>needed.
       if needed
       then py_bind (py_get client_logical_address) (\<lambda>client.
              py_bind (initiate_routing_activation_req_bound lib time_now tcp_pending tcp_comm
                  client timeout ActivationType_Default DoIP_13400_2012 None) (\<lambda>resp.
                case resp of
                  None \<Rightarrow> py_ret False
                | Some (code, _) \<Rightarrow>
                    if code \<noteq> ResponseCode_Success then py_ret False else py_ret True))
       else py_ret True)"

definition reconnect_tcp_if_needed :: "('a doip_world_scheme, bool) py" where
  "reconnect_tcp_if_needed =
     py_bind tcp_is_open (\<lambda>is_open.
       if \<not> is_open
       then py_seq tcp_close (py_seq tcp_open (py_seq tcp_connect (py_ret True)))
       else py_ret False)"

definition doip_send :: "'p doip_lib \<Rightarrow> bytes \<Rightarrow> rat \<Rightarrow> ('a doip_world_scheme, int) py" where
  "doip_send lib data timeout =
     py_bind reconnect_tcp_if_needed (\<lambda>reconnected.
       py_bind (if reconnected then initiate_routing_activation_if_needed lib timeout
                else py_ret True) (\<lambda>ok.
         if \<not> ok then py_ret 0
         else py_bind (py_get client_logical_address) (\<lambda>client.
                py_bind (py_get target_logical_address) (\<lambda>target.
                  send_uds_request lib time_now tcp_pending tcp_comm data client target timeout))))"

definition doip_recv :: "'p doip_lib \<Rightarrow> rat \<Rightarrow> ('a doip_world_scheme, bytes) py" where
  "doip_recv lib recv_timeout =
     py_bind reconnect_tcp_if_needed (\<lambda>reconnected.
       py_bind (if reconnected then initiate_routing_activation_if_needed lib recv_timeout
                else py_ret True) (\<lambda>ok.
         if \<not> ok then py_ret []
         else py_bind (read_uds_response lib time_now tcp_pending tcp_comm recv_timeout)
                (\<lambda>received_data.
                   py_ret (case received_data of None \<Rightarrow> [] | Some d \<Rightarrow> if d \<noteq> [] then d else []))))"

definition doip_open :: "'p doip_lib \<Rightarrow> ('a doip_world_scheme, bool) py" where
  "doip_open lib =
     py_seq tcp_open (py_seq tcp_connect (initiate_routing_activation_if_needed lib 2))"

definition doip_close :: "('a doip_world_scheme, bool) py" where
  "doip_close = py_seq tcp_close (py_ret True)"

definition doip_comm :: "'p doip_lib \<Rightarrow> 'a doip_world_scheme comm" where
  "doip_comm lib =
     \<lparr>comm_open = doip_open lib, comm_close = doip_close, comm_send = doip_send lib,
      comm_recv = doip_recv lib, comm_type = DOIP\<rparr>"

subsection \<open>The communicator's laws\<close>

lemma tcp_comm_simps [simp]:
  "comm_open tcp_comm = tcp_open" "comm_close tcp_comm = tcp_close"
  "comm_send tcp_comm = tcp_send" "comm_recv tcp_comm = tcp_recv"
  by (simp_all add: tcp_comm_def)

lemma read_over_tcp [simp]:
  "0 < t \<Longrightarrow> returns (read_doip lib time_now tcp_pending tcp_recv t) w"
  "moves (no_more tcp_pending) (read_doip lib time_now tcp_pending tcp_recv t)"
  by (rule tcp.read_doip_returns, assumption) (rule tcp.read_doip_shrinks)

lemma tcp_io_shrinks [simp]:
  "moves (no_more tcp_pending) (tcp_send d t)"
  "moves (no_more tcp_pending) (tcp_recv t)"
  by simp_all

lemma activation_bound_shrinks [simp]:
  "moves (no_more tcp_pending) (initiate_routing_activation_req_bound lib time_now tcp_pending
     tcp_comm la t act v vm)"
  by (auto simp: initiate_routing_activation_req_bound_def Let_def intro!: moves_bind moves_seq
      split: option.splits doip_message.splits)

lemma activation_bound_returns:
  "0 < t \<Longrightarrow> returns (initiate_routing_activation_req_bound lib time_now tcp_pending
     tcp_comm la t act v vm) w"
  by (auto simp: initiate_routing_activation_req_bound_def Let_def tcp_send_returns
      intro!: returns_bind returns_seq split: option.splits doip_message.splits)

lemma activation_shrinks [simp]:
  "moves (no_more tcp_pending) (initiate_routing_activation_if_needed lib t)"
  by (auto simp: initiate_routing_activation_if_needed_def intro!: moves_bind split: option.splits)

lemma activation_returns:
  "0 < t \<Longrightarrow> returns (initiate_routing_activation_if_needed lib t) w"
  by (auto simp: initiate_routing_activation_if_needed_def
      intro!: returns_bind activation_bound_returns split: option.splits)

lemma reconnect_shrinks [simp]: "moves (no_more tcp_pending) reconnect_tcp_if_needed"
  by (auto simp: reconnect_tcp_if_needed_def intro!: moves_bind moves_seq)

lemma reconnect_returns: "returns reconnect_tcp_if_needed w"
  by (auto simp: reconnect_tcp_if_needed_def intro!: returns_bind returns_seq)

lemma activate_shrinks [simp]:
  "moves (no_more tcp_pending)
     (if b then initiate_routing_activation_if_needed lib t else py_ret True)"
  by simp

lemma doip_send_shrinks [simp]: "moves (no_more tcp_pending) (doip_send lib d t)"
  by (auto simp: doip_send_def send_uds_request_def Let_def intro!: moves_bind)

lemma doip_send_returns: "0 < t \<Longrightarrow> returns (doip_send lib d t) w"
  by (auto simp: doip_send_def send_uds_request_def Let_def tcp_send_returns
      intro!: returns_bind reconnect_returns activation_returns)

lemma doip_recv_shrinks [simp]: "moves (no_more tcp_pending) (doip_recv lib t)"
  by (auto simp: doip_recv_def read_uds_response_def intro!: moves_bind
      split: option.splits doip_message.splits)

lemma doip_recv_returns: "0 < t \<Longrightarrow> returns (doip_recv lib t) w"
  by (auto simp: doip_recv_def read_uds_response_def
      intro!: returns_bind reconnect_returns activation_returns
      split: option.splits doip_message.splits)

lemma read_uds_response_Some:
  assumes "read_uds_response lib now budget c t w = (Val (Some d), w')"
  shows "\<exists>m. read_doip lib now budget (comm_recv c) t w = (Val (Some m), w')"
proof -
  from assms obtain r v where r: "read_doip lib now budget (comm_recv c) t w = (Val r, v)"
    and k: "(case r of Some (DiagnosticMessage _ _ user_data) \<Rightarrow> py_ret (Some user_data)
       | _ \<Rightarrow> py_ret None) v = (Val (Some d), w')"
    unfolding read_uds_response_def py_bind_Val_iff by blast
  from k obtain m where "r = Some m" "v = w'"
    by (cases r) (auto split: doip_message.splits)
  with r show ?thesis by blast
qed

lemma doip_recv_progress:
  assumes "doip_recv lib t w = (Val d, w')" and "d \<noteq> []"
  shows "tcp_pending w' < tcp_pending w"
proof -
  from assms(1) obtain b w1 ok w2 where b: "reconnect_tcp_if_needed w = (Val b, w1)"
    and ok: "(if b then initiate_routing_activation_if_needed lib t else py_ret True) w1 = (Val ok, w2)"
    and k: "(if \<not> ok then py_ret []
         else py_bind (read_uds_response lib time_now tcp_pending tcp_comm t)
                (\<lambda>received_data. py_ret (case received_data of None \<Rightarrow> []
                   | Some d \<Rightarrow> if d \<noteq> [] then d else []))) w2 = (Val d, w')"
    unfolding doip_recv_def py_bind_Val_iff by blast
  from k assms(2) have "read_uds_response lib time_now tcp_pending tcp_comm t w2 = (Val (Some d), w')"
    by (auto simp: py_bind_Val_iff split: if_splits option.splits)
  then obtain m where m: "read_doip lib time_now tcp_pending tcp_recv t w2 = (Val (Some m), w')"
    using read_uds_response_Some by fastforce
  show ?thesis
    using movesD [OF reconnect_shrinks b] movesD [OF activate_shrinks ok] tcp.read_doip_progress [OF m]
    by (simp add: no_more_def)
qed

interpretation doip: message_link time_now "doip_send lib" "doip_recv lib" tcp_pending
  for lib :: "'p doip_lib"
proof unfold_locales
  fix w w' :: "'a doip_world_scheme" and d t r sent
  show "\<exists>c w'. time_now w = (Val c, w') \<and> tcp_pending w' = tcp_pending w"
    by (simp add: tcp_pending_def)
  show "0 < t \<Longrightarrow> returns (doip_send lib d t) w"
    by (rule doip_send_returns)
  show "doip_send lib d t w = (sent, w') \<Longrightarrow> tcp_pending w' \<le> tcp_pending w"
    using movesD [OF doip_send_shrinks] by (auto simp: no_more_def)
  show "0 < t \<Longrightarrow> returns (doip_recv lib t) w"
    by (rule doip_recv_returns)
  show "doip_recv lib t w = (r, w') \<Longrightarrow> tcp_pending w' \<le> tcp_pending w"
    using movesD [OF doip_recv_shrinks] by (auto simp: no_more_def)
  show "doip_recv lib t w = (Val d, w') \<Longrightarrow> d \<noteq> [] \<Longrightarrow> tcp_pending w' < tcp_pending w"
    by (rule doip_recv_progress)
qed

subsection \<open>What goes over the connection\<close>

definition same_config :: "'a doip_world_scheme \<Rightarrow> 'a doip_world_scheme \<Rightarrow> bool" where
  "same_config w w' \<longleftrightarrow> routing_activation_needed w' = routing_activation_needed w \<and>
     client_logical_address w' = client_logical_address w \<and>
     target_logical_address w' = target_logical_address w"

lemma same_config_refl [intro!, simp]: "reflp same_config"
  by (simp add: reflp_def same_config_def)

lemma same_config_trans [intro!, simp]: "transp same_config"
  by (auto simp: transp_def same_config_def)

lemma tcp_config:
  "moves same_config sock_peek" "moves same_config sock_close"
  "moves same_config tcp_open" "moves same_config tcp_connect"
  by (auto simp: moves_def same_config_def sock_peek_def sock_close_def tcp_open_def tcp_connect_def
      Let_def split: sock_state.splits list.splits inbound.splits option.splits dial.splits)

lemma reconnect_config: "moves same_config reconnect_tcp_if_needed"
  by (auto simp: reconnect_tcp_if_needed_def tcp_close_def tcp_is_open_def
      intro!: moves_bind moves_seq moves_catch tcp_config)

definition link_log :: "'a tcp_world_scheme \<Rightarrow> 'a tcp_world_scheme \<Rightarrow> bool" where
  "link_log w w' \<longleftrightarrow> (\<exists>es. tcp_log w' = tcp_log w @ es \<and> set es \<subseteq> {HungUp, Dialled})"

lemma link_log_refl [intro!, simp]: "reflp link_log"
  by (simp add: reflp_def link_log_def)

lemma link_log_trans [intro!, simp]: "transp link_log"
  unfolding transp_def link_log_def by (metis Un_least append.assoc set_append)

lemma tcp_link_log:
  "moves link_log tcp_is_open" "moves link_log tcp_close"
  "moves link_log tcp_open" "moves link_log tcp_connect"
proof -
  show "moves link_log tcp_is_open"
    by (rule movesI) (auto simp: link_log_def dest: tcp_is_open_frame)
  show "moves link_log tcp_close"
  proof (rule movesI)
    show "link_log w w'" if "tcp_close w = (r, w')" for w r w'
      using tcp_close_run(1) [OF that] by (auto simp: link_log_def split: if_splits)
  qed
  show "moves link_log tcp_open"
    by (rule movesI) (auto simp: link_log_def dest: tcp_open_run)
  show "moves link_log tcp_connect"
  proof (rule movesI)
    show "link_log w w'" if "tcp_connect w = (r, w')" for w r w'
      using tcp_connect_run [OF that] by (cases r) (auto simp: link_log_def)
  qed
qed

lemma reconnect_link_log: "moves link_log reconnect_tcp_if_needed"
  by (auto simp: reconnect_tcp_if_needed_def intro!: moves_bind moves_seq tcp_link_log)

text \<open>
  What an activation puts on the connection: part of the request, what it receives, and perhaps
  the end of the connection. A response it returns is the first message of what it received.
\<close>

lemma activation_log:
  assumes run: "initiate_routing_activation_req_bound lib time_now tcp_pending tcp_comm la t act v vm w =
       (r, w')"
    and req: "pack_doip_message lib (routing_activation_request la act vm) v = Inr req"
  obtains wr chunks rest where "tcp_log w' = tcp_log w @ wr @ map Got chunks @ rest"
    and "wr = [] \<or> (\<exists>n. wr = [Wrote (take n req)])" and "set rest \<subseteq> {HungUp, Dialled}"
    and "\<And>code x. r = Val (Some (code, x)) \<Longrightarrow>
       first_interesting lib (parser_new lib) chunks = Some (RoutingActivationResponse code x)"
proof -
  obtain s w1 where s: "tcp_send req t w = (s, w1)" by fastforce
  obtain wr where log1: "tcp_log w1 = tcp_log w @ wr" and wr: "wr = [] \<or> (\<exists>n. wr = [Wrote (take n req)])"
    using tcp_send_log [OF s] by (auto intro: that)
  obtain n where n: "s = Val n"
    using s tcp_send_returns [of req t w]
    by (cases s) (auto simp: returns_def tcp_send_def py_catch_def sock_send_def
        split: sock_state.splits list.splits send_result.splits)
  show ?thesis
  proof (cases "n = 0")
    case True
    then have run': "py_seq tcp_close (py_ret None) w1 = (r, w')"
      using run req s n by (simp add: initiate_routing_activation_req_bound_def py_bind_def)
    have "moves link_log (py_seq tcp_close (py_ret (None :: (int \<times> bytes) option)))"
      by (intro moves_seq tcp_link_log) auto
    from movesD [OF this run'] obtain es where "tcp_log w' = tcp_log w1 @ es" "set es \<subseteq> {HungUp, Dialled}"
      by (auto simp: link_log_def)
    moreover have "r \<noteq> Val (Some x)" for x
      using run' by (auto simp: py_seq_Val_iff)
    ultimately show ?thesis
      using log1 wr by (intro that [of wr "[]" es]) auto
  next
    case False
    obtain q w2 where q: "read_doip lib time_now tcp_pending tcp_recv t w1 = (q, w2)" by fastforce
    obtain chunks where log2: "tcp_log w2 = tcp_log w1 @ map Got chunks"
      and first: "\<forall>m. q = Val (Some m) \<longrightarrow> first_interesting lib (parser_new lib) chunks = Some m"
      using tcp.read_doip_journal [OF q] by blast
    have k: "w' = w2 \<and> (\<forall>code x. r = Val (Some (code, x)) \<longrightarrow>
        q = Val (Some (RoutingActivationResponse code x)))"
      using run req s n False q
      by (auto simp: initiate_routing_activation_req_bound_def py_bind_def
          split: res.splits option.splits doip_message.splits)
    then show ?thesis
      using log1 log2 first wr by (intro that [of wr chunks "[]"]) auto
  qed
qed

lemma send_uds_log:
  assumes "send_uds_request lib time_now tcp_pending tcp_comm d la ta t w = (r, w')"
  shows "\<exists>rest. tcp_log w' = tcp_log w @ rest"
proof -
  define ext where "ext = (\<lambda>(u :: 'a tcp_world_scheme) (v :: 'a tcp_world_scheme). \<exists>es. tcp_log v = tcp_log u @ es)"
  have [intro!, simp]: "reflp ext" "transp ext"
    by (auto simp: ext_def reflp_def transp_def)
  have send: "moves ext (tcp_send x t)" for x
    by (rule movesI) (auto simp: ext_def dest!: tcp_send_log)
  have read: "moves ext (read_doip lib time_now tcp_pending tcp_recv t)"
    by (rule movesI) (auto simp: ext_def dest!: tcp.read_doip_journal)
  have "moves ext (send_uds_request lib time_now tcp_pending tcp_comm d la ta t)"
    by (auto simp: send_uds_request_def Let_def intro!: moves_bind send read)
  from movesD [OF this assms] show ?thesis
    by (simp add: ext_def)
qed

subsection \<open>Properties\<close>

text \<open>On a new connection: the request for activation, what it is answered with, and then the rest.\<close>

lemma doip_send_redialled:
  assumes "doip_send lib d t w = (r, w')" and b: "reconnect_tcp_if_needed w = (Val True, w1)"
    and cfg: "routing_activation_needed w1" "client_logical_address w1 = client_logical_address w"
    and req: "pack_doip_message lib (RoutingActivationRequest (client_logical_address w) 0 None)
           DoIP_13400_2012 = Inr req"
  shows "\<exists>wr chunks rest. tcp_log w' = tcp_log w1 @ wr @ map Got chunks @ rest \<and>
     (wr = [] \<or> (\<exists>n. wr = [Wrote (take n req)])) \<and>
     ((\<exists>b. Wrote b \<in> set rest) \<longrightarrow> (\<exists>x. first_interesting lib (parser_new lib) chunks =
        Some (RoutingActivationResponse ResponseCode_Success x)))"
proof -
  obtain q w2 where q: "initiate_routing_activation_req_bound lib time_now tcp_pending tcp_comm
      (client_logical_address w) t ActivationType_Default DoIP_13400_2012 None w1 = (q, w2)"
    by fastforce
  have req': "pack_doip_message lib (routing_activation_request (client_logical_address w)
      ActivationType_Default None) DoIP_13400_2012 = Inr req"
    using req by (simp add: routing_activation_request_def ActivationType_Default_def)
  obtain wr chunks es where log2: "tcp_log w2 = tcp_log w1 @ wr @ map Got chunks @ es"
    and wr: "wr = [] \<or> (\<exists>n. wr = [Wrote (take n req)])" and es: "set es \<subseteq> {HungUp, Dialled}"
    and first: "\<And>code x. q = Val (Some (code, x)) \<Longrightarrow>
      first_interesting lib (parser_new lib) chunks = Some (RoutingActivationResponse code x)"
    by (rule activation_log [OF q req']) (rule that; blast)
  show ?thesis
  proof (cases "\<exists>x. q = Val (Some (ResponseCode_Success, x))")
    case False
    then have "w' = w2"
      using assms(1) b q cfg
      by (auto simp: doip_send_def py_bind_def initiate_routing_activation_if_needed_def
          split: res.splits option.splits if_splits)
    then show ?thesis
      using log2 wr es by (intro exI [where x = wr] exI [where x = chunks] exI [where x = es]) auto
  next
    case True
    then obtain x where x: "q = Val (Some (ResponseCode_Success, x))" by blast
    have "initiate_routing_activation_if_needed lib t w1 = (Val True, w2)"
      using q cfg x by (simp add: initiate_routing_activation_if_needed_def py_bind_def)
    then have "send_uds_request lib time_now tcp_pending tcp_comm d (client_logical_address w2)
        (target_logical_address w2) t w2 = (r, w')"
      using assms(1) b by (simp add: doip_send_def py_bind_def)
    from send_uds_log [OF this] obtain rest where "tcp_log w' = tcp_log w2 @ rest"
      by blast
    then show ?thesis
      using log2 wr first [OF x]
      by (intro exI [where x = wr] exI [where x = chunks] exI [where x = "es @ rest"]) auto
  qed
qed

text \<open>
  C4. A communicator that needs routing activation and finds its connection gone writes nothing of
  the UDS request on the new connection before the activation has succeeded there: what goes over
  the sockets is hang-ups and dials, then at most (a part of) the activation request, then the
  chunks received, and any later write implies that the first message in those chunks is a routing
  activation response with the code \<open>Success\<close>. This holds however the sockets and the peer behave.
\<close>

theorem doip_activation_first:
  assumes "doip_send lib d t w = (r, w')" and "tcp_is_open w = (Val False, v)"
    and "routing_activation_needed w"
    and "pack_doip_message lib (RoutingActivationRequest (client_logical_address w) 0 None)
           DoIP_13400_2012 = Inr req"
  shows "\<exists>pre wr chunks rest. tcp_log w' = tcp_log w @ pre @ wr @ map Got chunks @ rest \<and>
     set pre \<subseteq> {HungUp, Dialled} \<and> (wr = [] \<or> (\<exists>n. wr = [Wrote (take n req)])) \<and>
     ((\<exists>b. Wrote b \<in> set rest) \<longrightarrow> (\<exists>x. first_interesting lib (parser_new lib) chunks =
        Some (RoutingActivationResponse ResponseCode_Success x)))"
proof -
  obtain b w1 where b: "reconnect_tcp_if_needed w = (b, w1)" by fastforce
  obtain pre where pre: "tcp_log w1 = tcp_log w @ pre" "set pre \<subseteq> {HungUp, Dialled}"
    using movesD [OF reconnect_link_log b] by (auto simp: link_log_def)
  have cfg: "routing_activation_needed w1" "client_logical_address w1 = client_logical_address w"
    using movesD [OF reconnect_config b] assms(3) by (auto simp: same_config_def)
  show ?thesis
  proof (cases "b = Val True")
    case False
    moreover have "b \<noteq> Val False"
      using b assms(2) by (auto simp: reconnect_tcp_if_needed_def py_bind_Val_iff py_seq_Val_iff)
    ultimately have "w' = w1"
      using assms(1) b by (cases b) (auto simp: doip_send_def py_bind_def)
    then show ?thesis
      using pre by (intro exI [where x = pre] exI [where x = "[]"]) auto
  next
    case True
    then obtain wr chunks rest where "tcp_log w' = tcp_log w1 @ wr @ map Got chunks @ rest"
      "wr = [] \<or> (\<exists>n. wr = [Wrote (take n req)])"
      "(\<exists>b. Wrote b \<in> set rest) \<longrightarrow> (\<exists>x. first_interesting lib (parser_new lib) chunks =
        Some (RoutingActivationResponse ResponseCode_Success x))"
      using doip_send_redialled [OF assms(1) _ cfg assms(4)] b by blast
    then show ?thesis
      using pre by (intro exI [where x = pre] exI [where x = wr] exI [where x = chunks]
          exI [where x = rest]) auto
  qed
qed

definition demo_doip :: doip_world where
  "demo_doip =
     \<lparr>clock = (\<lambda>_. 0), ticks = 0, sock = Connected, tcp_in = [InEof],
      dials = [DialOk [InData [5, 16], InData [7, 0], InData [6, 80]]], send_script = [],
      bind_script = [], tcp_log = [], client_logical_address = 14, target_logical_address = 15,
      routing_activation_needed = True\<rparr>"

theorem doip_activation_first_witness:
  "\<exists>r w' pre wr chunks rest. doip_send demo_doip_lib [34] 1 demo_doip = (r, w') \<and>
     tcp_log w' = pre @ wr @ map Got chunks @ rest \<and>
     set pre \<subseteq> {HungUp, Dialled} \<and> (wr = [] \<or> (\<exists>n. wr = [Wrote (take n [5])])) \<and>
     ((\<exists>b. Wrote b \<in> set rest) \<longrightarrow> (\<exists>x. first_interesting demo_doip_lib [] chunks =
        Some (RoutingActivationResponse 16 x)))"
proof -
  obtain r w' where run: "doip_send demo_doip_lib [34] 1 demo_doip = (r, w')" by fastforce
  have "tcp_is_open demo_doip = (Val False, demo_doip)" "routing_activation_needed demo_doip"
    "tcp_log demo_doip = []"
    by (simp_all add: demo_doip_def tcp_is_open_def sock_peek_def py_defs)
  moreover have "pack_doip_message demo_doip_lib
      (RoutingActivationRequest (client_logical_address demo_doip) 0 None) DoIP_13400_2012 = Inr [5]"
    "parser_new demo_doip_lib = []"
    by (simp_all add: pack_doip_message_def demo_doip_lib_def)
  ultimately show ?thesis
    using doip_activation_first [OF run] by (auto simp: run ResponseCode_Success_def)
qed



end
