(* ===== verification/Uds_Exchange.thy ===== *)
theory Uds_Exchange
  imports Crypto_Utils Isotp_Communicator Doip_Communicator
begin

section \<open>The UDS client: one request and its response\<close>

text \<open>
  Models the exchange of \<open>UdsUtils\<close> (\<open>protocol/uds/impl/uds_utils.py\<close>): sending a request and
  reading its response, with attempts, discarded responses and response-pending answers. The
  client is a record: the communicator it works over, the number of attempts, and what it calls
  outside the repository - the package \<open>udsoncan\<close> (building requests, interpreting responses)
  and the clock. \<open>uds_budget\<close> bounds the rounds of a receive loop by the state of the link; the
  lemmas on \<open>message_link\<close> show that a link's \<open>pending\<close> is enough.
\<close>

definition DEFAULT_UDS_PENDING_TIMEOUT :: rat where
  "DEFAULT_UDS_PENDING_TIMEOUT = 60"

definition RequestCorrectlyReceived_ResponsePending :: int where
  "RequestCorrectlyReceived_ResponsePending = 0x78"

subsection \<open>What the client uses of udsoncan\<close>

record uds_request =
  request_response_id :: int
  get_payload :: bytes

record uds_response =
  valid :: bool
  invalid_reason :: string
  response_id :: int
  positive :: bool
  code :: int
  code_name :: string
  resp_data :: bytes

record memory_location =
  ml_address :: int
  ml_memorysize :: int
  ml_address_format :: int
  ml_memorysize_format :: int

record dtc_query =
  dtc_subfunction :: int
  status_mask :: "int option"
  severity_mask :: "int option"
  dtc :: "int option"
  snapshot_record_number :: "int option"
  extended_data_record_number :: "int option"
  memory_selection :: "int option"

datatype did_value = StrValue string | BytesValue bytes | OtherValue

text \<open>The calls of \<open>make_request\<close>, and the tasks of the Authentication service.\<close>

datatype uds_call =
    MakeSession int
  | MakeEcuReset int
  | MakeReadDid "int list"
  | MakeRoutineControl int int "bytes option"
  | MakeTesterPresent
  | MakeWriteDid int did_value "did_value \<Rightarrow> exn + bytes"
  | MakeRequestSeed "int option"
  | MakeSendKey "int option" bytes
  | MakeRequestDownload memory_location int
  | MakeTransferData int bytes
  | MakeTransferExit "bytes option"
  | MakeReadDtc dtc_query UdsStandardVersion
  | MakeClearDtc int "int option" UdsStandardVersion
  | MakeRaw bool UdsSid "int option" "bytes option"
  | MakeTransmitCertificate int bytes
  | MakeDeAuthenticate
  | MakeAuthenticationConfiguration
  | MakeVerifyCertificateUnidirectional int bytes
  | MakeProofOfOwnership bytes

text \<open>The calls of \<open>interpret_response\<close>.\<close>

datatype uds_reading =
    ReadSession UdsStandardVersion
  | ReadEcuReset
  | ReadRoutineControl
  | ReadTesterPresent
  | ReadWriteDid
  | ReadSeed
  | ReadKey
  | ReadDownload
  | ReadTransferData
  | ReadTransferExit
  | ReadDtc int UdsStandardVersion
  | ReadClearDtc
  | ReadAuthentication

text \<open>The fields of \<open>service_data\<close> the client reads, and \<open>content\<close> for what it hands on unread.\<close>

record service_data =
  session_echo :: int
  reset_type_echo :: int
  subfunction_echo :: int
  did_echo :: int
  seed :: bytes
  security_level_echo :: "int option"
  max_length :: int
  sequence_number_echo :: int
  parameter_records :: bytes
  return_value :: int
  challenge_server :: "bytes option"
  ephemeral_public_key_server :: "bytes option"
  content :: bytes

record uds_lib =
  make_request :: "uds_call \<Rightarrow> exn + uds_request"
  from_payload :: "bytes \<Rightarrow> uds_response"
  interpret_response :: "uds_reading \<Rightarrow> uds_response \<Rightarrow> exn + service_data"
  check_memory_location :: "memory_location \<Rightarrow> exn option"
  dfi_from_byte :: "int \<Rightarrow> exn + int"

record 'w uds =
  data_link_layer :: "'w comm"
  attempts :: nat
  uds_lib :: uds_lib
  crypto_lib :: crypto_lib
  uds_now :: "('w, rat) py"
  uds_budget :: "'w \<Rightarrow> nat"

subsection \<open>Sending a request and reading the response\<close>

text \<open>How the receive loop is left: with a response, or by one of its breaks.\<close>

datatype loop_exit =
    Answered uds_response
  | Broke "bytes option" "uds_response option" rat

text \<open>
  What a round does with a message: \<open>again\<close> is the next round, with the loop's start time, timeout
  and variables.
\<close>

definition on_message ::
  "'w uds \<Rightarrow> uds_request \<Rightarrow> (rat \<Rightarrow> rat \<Rightarrow> bytes option \<Rightarrow> uds_response option \<Rightarrow> ('w, loop_exit) py) \<Rightarrow>
     rat \<Rightarrow> rat \<Rightarrow> bytes \<Rightarrow> ('w, loop_exit) py" where
  "on_message u request again start timeout raw =
     (let resp = from_payload (uds_lib u) raw in
      if \<not> valid resp then py_raise (InvalidResponse (invalid_reason resp))
      else if response_id resp \<noteq> request_response_id request
      then again start timeout None (Some resp)
      else if \<not> positive resp \<and> code resp = RequestCorrectlyReceived_ResponsePending
      then py_bind (uds_now u) (\<lambda>start'.
        again start' DEFAULT_UDS_PENDING_TIMEOUT (Some raw) (Some resp))
      else py_ret (Answered resp))"

fun uds_recv_loop ::
  "'w uds \<Rightarrow> uds_request \<Rightarrow> nat \<Rightarrow> rat \<Rightarrow> rat \<Rightarrow> bytes option \<Rightarrow> uds_response option \<Rightarrow>
     ('w, loop_exit) py" where
  "uds_recv_loop u request 0 start timeout raw_response response = py_diverge"
| "uds_recv_loop u request (Suc fuel) start timeout raw_response response =
     py_bind (uds_now u) (\<lambda>t.
       if t - start > timeout then py_ret (Broke raw_response response timeout)
       else py_bind (comm_recv (data_link_layer u) timeout) (\<lambda>raw.
         if raw = [] then py_ret (Broke (Some raw) response timeout)
         else on_message u request (\<lambda>s q x y. uds_recv_loop u request fuel s q x y)
                start timeout raw))"

definition no_raw_response :: "bytes option \<Rightarrow> bool" where
  "no_raw_response raw = (case raw of None \<Rightarrow> True | Some b \<Rightarrow> b = [])"

text \<open>The first argument counts the attempts that are left.\<close>

fun uds_attempt_loop ::
  "'w uds \<Rightarrow> uds_request \<Rightarrow> nat \<Rightarrow> rat \<Rightarrow> bytes option \<Rightarrow> uds_response option \<Rightarrow>
     ('w, uds_response) py" where
  "uds_attempt_loop u request 0 timeout raw_response response =
     (if no_raw_response raw_response then py_raise NoResponse
      else case response of
        None \<Rightarrow> py_raise UnboundLocalError
      | Some r \<Rightarrow> py_ret r)"
| "uds_attempt_loop u request (Suc n) timeout raw_response response =
     py_bind (comm_send (data_link_layer u) (get_payload request) timeout) (\<lambda>sent_bytes.
       if sent_bytes < int (length (get_payload request))
       then py_raise (RuntimeError ''Failed to send request'')
       else py_bind (uds_now u) (\<lambda>start.
         py_bind (py_get (uds_budget u)) (\<lambda>budget.
           py_bind (uds_recv_loop u request (Suc budget) start timeout raw_response response)
             (\<lambda>x. case x of
                 Answered r \<Rightarrow> py_ret r
               | Broke raw' response' timeout' \<Rightarrow>
                   uds_attempt_loop u request n timeout' raw' response'))))"

definition send_and_read_raw_response ::
  "'w uds \<Rightarrow> uds_request \<Rightarrow> rat \<Rightarrow> ('w, uds_response) py" where
  "send_and_read_raw_response u request timeout =
     uds_attempt_loop u request (attempts u) timeout None None"

definition send_and_read_response ::
  "'w uds \<Rightarrow> uds_request \<Rightarrow> rat \<Rightarrow> ('w, uds_response) py" where
  "send_and_read_response u request timeout =
     py_bind (send_and_read_raw_response u request timeout) (\<lambda>response.
       if \<not> positive response
       then py_raise (NegativeResponse (code response) (code_name response))
       else py_ret response)"

declare uds_recv_loop.simps(2) [simp del] uds_attempt_loop.simps(2) [simp del]

subsection \<open>One service call\<close>

text \<open>\<open>make_request\<close>, the exchange, \<open>interpret_response\<close>: the shape of most services.\<close>

definition uds_exchange :: "'w uds \<Rightarrow> uds_call \<Rightarrow> rat \<Rightarrow> ('w, uds_response) py" where
  "uds_exchange u call timeout =
     py_bind (py_lift (make_request (uds_lib u) call)) (\<lambda>request.
       send_and_read_response u request timeout)"

definition uds_service :: "'w uds \<Rightarrow> uds_call \<Rightarrow> uds_reading \<Rightarrow> rat \<Rightarrow> ('w, service_data) py" where
  "uds_service u call reading timeout =
     py_bind (uds_exchange u call timeout) (\<lambda>response.
       py_lift (interpret_response (uds_lib u) reading response))"

subsection \<open>What a response is\<close>

text \<open>
  A response to a request: parsed from a non-empty message, valid, and of the request's service.
\<close>

definition responds :: "uds_lib \<Rightarrow> uds_request \<Rightarrow> uds_response \<Rightarrow> bool" where
  "responds L request r \<longleftrightarrow> valid r \<and> response_id r = request_response_id request \<and>
     (\<exists>b. b \<noteq> [] \<and> r = from_payload L b)"

definition response_pending :: "uds_response \<Rightarrow> bool" where
  "response_pending r \<longleftrightarrow> \<not> positive r \<and> code r = RequestCorrectlyReceived_ResponsePending"

text \<open>
  What the loops keep of their variables: raw bytes that are there and not empty are those of
  \<open>response\<close>, which is a response-pending answer to this request.
\<close>

definition in_step :: "uds_lib \<Rightarrow> uds_request \<Rightarrow> bytes option \<Rightarrow> uds_response option \<Rightarrow> bool" where
  "in_step L request raw response \<longleftrightarrow>
     (\<not> no_raw_response raw \<longrightarrow> (\<exists>r. response = Some r \<and> responds L request r \<and> response_pending r))"

lemma in_step_simps [simp]:
  "in_step L request None response"
  "in_step L request (Some []) response"
  by (simp_all add: in_step_def no_raw_response_def)

lemma uds_recv_loop_in_step:
  assumes "uds_recv_loop u request fuel start timeout raw response w = (Val x, w')"
    and "in_step (uds_lib u) request raw response"
  shows "(\<forall>r. x = Answered r \<longrightarrow> responds (uds_lib u) request r \<and> \<not> response_pending r) \<and>
     (\<forall>raw' response' t. x = Broke raw' response' t \<longrightarrow> in_step (uds_lib u) request raw' response' \<and>
        t \<in> {timeout, DEFAULT_UDS_PENDING_TIMEOUT})"
  using assms
proof (induction fuel arbitrary: start timeout raw response w)
  case 0
  then show ?case by (simp add: py_diverge_def)
next
  case (Suc fuel)
  obtain t w1 where t: "uds_now u w = (Val t, w1)"
    using Suc.prems(1) by (auto simp: uds_recv_loop.simps(2) py_bind_Val_iff)
  show ?case
  proof (cases "t - start > timeout")
    case True
    then show ?thesis
      using Suc.prems t by (auto simp: uds_recv_loop.simps(2) run_bind_Val)
  next
    case False
    then obtain b w2 where b: "comm_recv (data_link_layer u) timeout w1 = (Val b, w2)"
      using Suc.prems(1) t by (auto simp: uds_recv_loop.simps(2) run_bind_Val py_bind_Val_iff)
    define r where "r = from_payload (uds_lib u) b"
    note run = Suc.prems(1) [unfolded uds_recv_loop.simps(2) run_bind_Val [where m = "uds_now u", OF t]]
    consider "b = []" | "b \<noteq> []" "\<not> valid r"
      | "b \<noteq> []" "valid r" "response_id r \<noteq> request_response_id request"
      | "responds (uds_lib u) request r" "response_pending r" "b \<noteq> []"
      | "responds (uds_lib u) request r" "\<not> response_pending r" "b \<noteq> []"
      using r_def by (auto simp: responds_def)
    then show ?thesis
    proof cases
      case 1
      then show ?thesis
        using run False b by (auto simp: run_bind_Val)
    next
      case 2
      then show ?thesis
        using run False b by (simp add: run_bind_Val r_def on_message_def Let_def)
    next
      case 3
      then have "uds_recv_loop u request fuel start timeout None (Some r) w2 = (Val x, w')"
        using run False b by (simp add: run_bind_Val r_def on_message_def Let_def)
      from Suc.IH [OF this] show ?thesis by simp
    next
      case 4
      then obtain s w3 where
        "uds_recv_loop u request fuel s DEFAULT_UDS_PENDING_TIMEOUT (Some b) (Some r) w3 = (Val x, w')"
        using run False b
        by (auto simp: run_bind_Val r_def on_message_def Let_def responds_def response_pending_def py_bind_Val_iff)
      from Suc.IH [OF this] show ?thesis
        using 4 by (auto simp: in_step_def)
    next
      case 5
      then show ?thesis
        using run False b
        by (auto simp: run_bind_Val r_def on_message_def Let_def responds_def response_pending_def)
    qed
  qed
qed

lemma uds_attempt_loop_responds:
  assumes "uds_attempt_loop u request n timeout raw response w = (Val r, w')"
    and "in_step (uds_lib u) request raw response"
  shows "responds (uds_lib u) request r"
  using assms
proof (induction n arbitrary: timeout raw response w)
  case 0
  then show ?case
    by (auto simp: in_step_def split: if_splits option.splits)
next
  case (Suc n)
  then obtain start w1 budget x w2 where
    x: "uds_recv_loop u request (Suc budget) start timeout raw response w1 = (Val x, w2)"
    and rest: "(case x of Answered r \<Rightarrow> py_ret r
        | Broke raw' response' t \<Rightarrow> uds_attempt_loop u request n t raw' response') w2 = (Val r, w')"
    by (auto simp: uds_attempt_loop.simps(2) py_bind_Val_iff split: if_splits)
  show ?case
  proof (cases x)
    case (Answered r')
    then show ?thesis
      using uds_recv_loop_in_step [OF x Suc.prems(2)] rest by simp
  next
    case (Broke raw' response' t)
    then show ?thesis
      using uds_recv_loop_in_step [OF x Suc.prems(2)] rest Suc.IH by simp
  qed
qed

lemma send_and_read_raw_responds:
  "send_and_read_raw_response u request timeout w = (Val r, w') \<Longrightarrow> responds (uds_lib u) request r"
  by (auto simp: send_and_read_raw_response_def dest: uds_attempt_loop_responds)

lemma send_and_read_responds:
  assumes "send_and_read_response u request timeout w = (Val r, w')"
  shows "responds (uds_lib u) request r \<and> positive r"
  using assms
  by (auto simp: send_and_read_response_def py_bind_Val_iff dest: send_and_read_raw_responds
      split: if_splits)

subsection \<open>The exchange ends\<close>

text \<open>A client over a link: its clock, its communicator and its budget are the link's.\<close>

definition over_link ::
  "'w uds \<Rightarrow> ('w, rat) py \<Rightarrow> (bytes \<Rightarrow> rat \<Rightarrow> ('w, int) py) \<Rightarrow> (rat \<Rightarrow> ('w, bytes) py) \<Rightarrow>
     ('w \<Rightarrow> nat) \<Rightarrow> bool" where
  "over_link u now send recv pending \<longleftrightarrow>
     uds_now u = now \<and> comm_send (data_link_layer u) = send \<and>
     comm_recv (data_link_layer u) = recv \<and> uds_budget u = pending"

context message_link
begin

lemma uds_recv_loop_returns:
  assumes "over_link u now send recv pending"
  shows "0 < timeout \<Longrightarrow> pending w < fuel \<Longrightarrow>
     returns (uds_recv_loop u request fuel start timeout raw response) w"
proof (induction fuel arbitrary: start timeout raw response w)
  case 0
  then show ?case by simp
next
  case (Suc fuel)
  have ops: "uds_now u = now" "comm_recv (data_link_layer u) = recv"
    using assms by (simp_all add: over_link_def)
  have go_on: "returns (uds_recv_loop u request fuel s q x y) v"
    if "pending v < fuel" "0 < q" for s q x y v
    using Suc.IH that by blast
  have after: "returns (on_message u request (\<lambda>s q x y. uds_recv_loop u request fuel s q x y)
      start timeout b) v" if "pending v < fuel" for b v
    using that Suc.prems(1) go_on
    by (auto simp: on_message_def ops Let_def DEFAULT_UDS_PENDING_TIMEOUT_def now_pending
        intro!: returns_bind [OF now_returns])
  show ?case
    unfolding uds_recv_loop.simps(2) ops
  proof (rule returns_bind [OF now_returns])
    fix t v
    assume v: "now w = (Val t, v)"
    have "returns (py_bind (recv timeout) (\<lambda>raw.
         if raw = [] then py_ret (Broke (Some raw) response timeout)
         else on_message u request (\<lambda>s q x y. uds_recv_loop u request fuel s q x y)
                start timeout raw)) v"
    proof (rule returns_bind [OF recv_returns [OF Suc.prems(1)]])
      fix b v'
      assume b: "recv timeout v = (Val b, v')"
      show "returns (if b = [] then py_ret (Broke (Some b) response timeout)
         else on_message u request (\<lambda>s q x y. uds_recv_loop u request fuel s q x y)
                start timeout b) v'"
        using recv_progress [OF b] now_pending [OF v] Suc.prems(2) after [of v' b] by auto
    qed
    then show "returns (if t - start > timeout then py_ret (Broke raw response timeout)
        else py_bind (recv timeout) (\<lambda>raw.
         if raw = [] then py_ret (Broke (Some raw) response timeout)
         else on_message u request (\<lambda>s q x y. uds_recv_loop u request fuel s q x y)
                start timeout raw)) v"
      by simp
  qed
qed

lemma uds_recv_loop_shrinks:
  assumes "over_link u now send recv pending"
  shows "moves (no_more pending) (uds_recv_loop u request fuel start timeout raw response)"
proof -
  have ops: "uds_now u = now" "comm_recv (data_link_layer u) = recv"
    using assms by (simp_all add: over_link_def)
  show ?thesis
    by (induction fuel arbitrary: start timeout raw response)
      (auto simp: ops uds_recv_loop.simps(2) on_message_def Let_def intro!: moves_bind)
qed

lemma uds_recv_loop_timeout:
  "uds_recv_loop u request fuel start timeout raw response w = (Val (Broke raw' response' t), w') \<Longrightarrow>
     t \<in> {timeout, DEFAULT_UDS_PENDING_TIMEOUT}"
  by (induction fuel arbitrary: start timeout raw response w)
    (auto simp: py_diverge_def uds_recv_loop.simps(2) on_message_def Let_def py_bind_Val_iff
      split: if_splits)

lemma uds_attempt_loop_returns:
  assumes "over_link u now send recv pending" and "0 < timeout"
  shows "returns (uds_attempt_loop u request n timeout raw response) w"
  using assms(2)
proof (induction n arbitrary: timeout raw response w)
  case 0
  then show ?case by (auto split: option.splits)
next
  case (Suc n)
  have ops: "uds_now u = now" "comm_send (data_link_layer u) = send" "uds_budget u = pending"
    using assms(1) by (simp_all add: over_link_def)
  have "0 < t" if "uds_recv_loop u request f s timeout raw response v = (Val (Broke raw' response' t), v')"
    for f s v raw' response' t v'
    using uds_recv_loop_timeout [OF that] Suc.prems by (auto simp: DEFAULT_UDS_PENDING_TIMEOUT_def)
  then show ?case
    using Suc
    by (auto simp: uds_attempt_loop.simps(2) ops
        intro!: returns_bind send_returns now_returns uds_recv_loop_returns [OF assms(1)]
        split: loop_exit.splits)
qed

lemma send_and_read_raw_returns:
  "over_link u now send recv pending \<Longrightarrow> 0 < timeout \<Longrightarrow>
     returns (send_and_read_raw_response u request timeout) w"
  by (simp add: send_and_read_raw_response_def uds_attempt_loop_returns)

lemma send_and_read_returns:
  "over_link u now send recv pending \<Longrightarrow> 0 < timeout \<Longrightarrow>
     returns (send_and_read_response u request timeout) w"
  by (auto simp: send_and_read_response_def intro!: returns_bind send_and_read_raw_returns)

lemma uds_exchange_returns:
  "over_link u now send recv pending \<Longrightarrow> 0 < timeout \<Longrightarrow> returns (uds_exchange u c timeout) w"
  by (auto simp: uds_exchange_def intro!: returns_bind send_and_read_returns)

lemma uds_service_returns:
  "over_link u now send recv pending \<Longrightarrow> 0 < timeout \<Longrightarrow> returns (uds_service u c rd timeout) w"
  by (auto simp: uds_service_def intro!: returns_bind uds_exchange_returns)

end

subsection \<open>The exchange over a queue\<close>

text \<open>
  What a receive loop makes of the messages that wait, when no clock reading stops it: an error, a
  response, or neither; and the messages it leaves.
\<close>

fun drain :: "uds_lib \<Rightarrow> uds_request \<Rightarrow> bytes list \<Rightarrow> (exn + uds_response option) \<times> bytes list" where
  "drain L request [] = (Inr None, [])"
| "drain L request (b # q) =
     (if b = [] then (Inr None, q)
      else let r = from_payload L b in
        if \<not> valid r then (Inl (InvalidResponse (invalid_reason r)), q)
        else if response_id r \<noteq> request_response_id request \<or> response_pending r
        then drain L request q
        else (Inr (Some r), q))"

text \<open>The same for the whole exchange with its attempts.\<close>

fun answer :: "uds_lib \<Rightarrow> uds_request \<Rightarrow> nat \<Rightarrow> bytes list \<Rightarrow> (exn + uds_response) \<times> bytes list" where
  "answer L request 0 q = (Inl NoResponse, q)"
| "answer L request (Suc n) q =
     (case drain L request q of
        (Inl e, q') \<Rightarrow> (Inl e, q')
      | (Inr (Some r), q') \<Rightarrow> (Inr r, q')
      | (Inr None, q') \<Rightarrow> answer L request n q')"

definition loop_result :: "rat \<Rightarrow> exn + uds_response option \<Rightarrow> loop_exit res \<Rightarrow> bool" where
  "loop_result window d r \<longleftrightarrow>
     (case d of
        Inl e \<Rightarrow> r = Exn e
      | Inr (Some a) \<Rightarrow> r = Val (Answered a)
      | Inr None \<Rightarrow> \<exists>response t. r = Val (Broke (Some []) response t) \<and> 0 < t \<and> window \<le> t)"

context queue_link
begin

lemma uds_recv_loop_drains:
  assumes "over_link u now send recv pending" and "window \<le> DEFAULT_UDS_PENDING_TIMEOUT"
  shows "ready window w \<Longrightarrow> epoch w \<le> start \<Longrightarrow> window \<le> timeout \<Longrightarrow> 0 < timeout \<Longrightarrow>
     length (inbox w) < fuel \<Longrightarrow>
     \<exists>r w'. uds_recv_loop u request fuel start timeout raw response w = (r, w') \<and>
       loop_result window (fst (drain (uds_lib u) request (inbox w))) r \<and>
       ready window w' \<and> inbox w' = snd (drain (uds_lib u) request (inbox w))"
proof (induction fuel arbitrary: start timeout raw response w)
  case 0
  then show ?case by simp
next
  case (Suc fuel)
  have ops: "uds_now u = now" "comm_recv (data_link_layer u) = recv"
    using assms(1) by (simp_all add: over_link_def)
  obtain c w1 where c: "now w = (Val c, w1)" and w1: "ready window w1" "inbox w1 = inbox w" "epoch w1 = epoch w"
    and late: "\<not> c - start > timeout"
    using ready_now [OF Suc.prems(1)] Suc.prems(2,3) by fastforce
  define after where "after = on_message u request (\<lambda>s q x y. uds_recv_loop u request fuel s q x y) start timeout"
  have run: "uds_recv_loop u request (Suc fuel) start timeout raw response w =
      py_bind (recv timeout) (\<lambda>b. if b = [] then py_ret (Broke (Some b) response timeout) else after b) w1"
    unfolding after_def using c late by (simp add: uds_recv_loop.simps(2) ops run_bind_Val)
  show ?case
  proof (cases "inbox w")
    case Nil
    obtain w2 where "recv timeout w1 = (Val [], w2)" "ready window w2" "inbox w2 = []"
      using ready_recv_Nil [OF w1(1) Suc.prems(4)] w1(2) Nil by auto
    then show ?thesis
      using Suc.prems(3,4) Nil by (simp add: run run_bind_Val loop_result_def)
  next
    case (Cons b q)
    obtain w2 where b: "recv timeout w1 = (Val b, w2)" and w2: "ready window w2" "inbox w2 = q" "epoch w2 = epoch w"
      using ready_recv_Cons [OF w1(1) Suc.prems(4)] w1(2,3) Cons by auto
    define r where "r = from_payload (uds_lib u) b"
    have q: "length q < fuel"
      using Suc.prems(5) Cons by simp
    consider "b = [] \<or> \<not> valid r \<or> response_id r = request_response_id request \<and> \<not> response_pending r"
      | "b \<noteq> []" "valid r" "response_id r \<noteq> request_response_id request"
      | "b \<noteq> []" "valid r" "response_id r = request_response_id request" "response_pending r"
      by blast
    then show ?thesis
    proof cases
      case 1
      then show ?thesis
        using Suc.prems(3,4) Cons b w2
        by (auto simp: run run_bind_Val after_def on_message_def Let_def loop_result_def r_def
            response_pending_def)
    next
      case 2
      have "\<exists>x w'. uds_recv_loop u request fuel start timeout None (Some r) w2 = (x, w') \<and>
          loop_result window (fst (drain (uds_lib u) request q)) x \<and>
          ready window w' \<and> inbox w' = snd (drain (uds_lib u) request q)"
        using Suc.IH [OF w2(1), of start timeout None "Some r"] Suc.prems q w2 by simp
      then show ?thesis
        using 2 Cons b by (simp add: run run_bind_Val after_def on_message_def Let_def r_def)
    next
      case 3
      obtain s w3 where s: "now w2 = (Val s, w3)" and w3: "ready window w3" "inbox w3 = q" "epoch w3 \<le> s"
        using ready_now [OF w2(1)] w2(2) by metis
      have "\<exists>x w'. uds_recv_loop u request fuel s DEFAULT_UDS_PENDING_TIMEOUT (Some b) (Some r) w3 = (x, w') \<and>
          loop_result window (fst (drain (uds_lib u) request q)) x \<and>
          ready window w' \<and> inbox w' = snd (drain (uds_lib u) request q)"
        using Suc.IH [OF w3(1,3), of DEFAULT_UDS_PENDING_TIMEOUT "Some b" "Some r"] q w3(2) assms(2)
        by (simp add: DEFAULT_UDS_PENDING_TIMEOUT_def)
      then show ?thesis
        using 3 Cons b s
        by (simp add: run run_bind_Val after_def on_message_def Let_def r_def response_pending_def ops)
    qed
  qed
qed

lemma uds_attempt_loop_answers:
  assumes "over_link u now send recv pending" and "window \<le> DEFAULT_UDS_PENDING_TIMEOUT"
  shows "ready window w \<Longrightarrow> window \<le> timeout \<Longrightarrow> 0 < timeout \<Longrightarrow> no_raw_response raw \<Longrightarrow>
     \<exists>w'. uds_attempt_loop u request n timeout raw response w =
            (case fst (answer (uds_lib u) request n (inbox w)) of Inl e \<Rightarrow> Exn e | Inr r \<Rightarrow> Val r, w') \<and>
       ready window w' \<and> inbox w' = snd (answer (uds_lib u) request n (inbox w))"
proof (induction n arbitrary: timeout raw response w)
  case 0
  then show ?case by simp
next
  case (Suc n)
  have ops: "uds_now u = now" "comm_send (data_link_layer u) = send" "uds_budget u = pending"
    using assms(1) by (simp_all add: over_link_def)
  obtain w1 where sent: "send (get_payload request) timeout w = (Val (int (length (get_payload request))), w1)"
    and w1: "ready window w1" "inbox w1 = inbox w"
    using ready_send [OF Suc.prems(1,3)] by blast
  obtain s w2 where s: "now w1 = (Val s, w2)" and w2: "ready window w2" "inbox w2 = inbox w" "epoch w2 \<le> s"
    using ready_now [OF w1(1)] w1(2) by metis
  obtain r w3 where loop: "uds_recv_loop u request (Suc (pending w2)) s timeout raw response w2 = (r, w3)"
    and r: "loop_result window (fst (drain (uds_lib u) request (inbox w))) r"
    and w3: "ready window w3" "inbox w3 = snd (drain (uds_lib u) request (inbox w))"
    using uds_recv_loop_drains [OF assms w2(1,3) Suc.prems(2,3), of "Suc (pending w2)" request raw response]
      ready_pending [OF w2(1)] w2(2) by auto
  have run: "uds_attempt_loop u request (Suc n) timeout raw response w =
      (case r of
         Val x \<Rightarrow> (case x of Answered a \<Rightarrow> py_ret a
                  | Broke raw' response' t \<Rightarrow> uds_attempt_loop u request n t raw' response') w3
       | Exn e \<Rightarrow> (Exn e, w3) | Diverge \<Rightarrow> (Diverge, w3))"
    using sent s loop
    by (simp add: uds_attempt_loop.simps(2) ops run_bind_Val py_bind_def [of "uds_recv_loop _ _ _ _ _ _ _"]
        split: res.splits)
  obtain d q where d: "drain (uds_lib u) request (inbox w) = (d, q)" by fastforce
  show ?case
  proof (cases "d = Inr None")
    case True
    then obtain response' t where b: "r = Val (Broke (Some []) response' t)" "0 < t" "window \<le> t"
      using r d by (auto simp: loop_result_def)
    have "no_raw_response (Some [])"
      by (simp add: no_raw_response_def)
    from Suc.IH [OF w3(1) b(3,2) this] show ?thesis
      using run b(1) d True w3(2) by simp
  next
    case False
    then show ?thesis
      using r d run w3 by (auto simp: loop_result_def split: sum.splits option.splits)
  qed
qed

end

subsection \<open>The two clients\<close>

text \<open>\<open>UdsUtils\<close> over an ISO-TP communicator and over a DoIP communicator.\<close>

definition isotp_uds :: "nat \<Rightarrow> uds_lib \<Rightarrow> crypto_lib \<Rightarrow> 'a isotp_world_scheme uds" where
  "isotp_uds n L C =
     \<lparr>data_link_layer = isotp_comm, attempts = n, uds_lib = L, crypto_lib = C,
      uds_now = time_now, uds_budget = isotp_pending\<rparr>"

definition doip_uds :: "'p doip_lib \<Rightarrow> nat \<Rightarrow> uds_lib \<Rightarrow> crypto_lib \<Rightarrow> 'a doip_world_scheme uds" where
  "doip_uds D n L C =
     \<lparr>data_link_layer = doip_comm D, attempts = n, uds_lib = L, crypto_lib = C,
      uds_now = time_now, uds_budget = tcp_pending\<rparr>"

lemma over_isotp: "over_link (isotp_uds n L C) time_now isotp_send isotp_recv isotp_pending"
  by (simp add: over_link_def isotp_uds_def isotp_comm_def)

lemma over_doip: "over_link (doip_uds D n L C) time_now (doip_send D) (doip_recv D) tcp_pending"
  by (simp add: over_link_def doip_uds_def doip_comm_def)

lemma isotp_uds_simps [simp]:
  "attempts (isotp_uds n L C) = n" "uds_lib (isotp_uds n L C) = L" "crypto_lib (isotp_uds n L C) = C"
  "attempts (doip_uds D n L C) = n" "uds_lib (doip_uds D n L C) = L" "crypto_lib (doip_uds D n L C) = C"
  by (simp_all add: isotp_uds_def doip_uds_def)

text \<open>A minimal udsoncan to try the theorems on.\<close>

definition demo_request :: "uds_call \<Rightarrow> exn + uds_request" where
  "demo_request c =
     (case c of
        MakeSession s \<Rightarrow> Inr \<lparr>request_response_id = 0x50, get_payload = [0x10, word_of_int s]\<rparr>
      | MakeEcuReset t \<Rightarrow> Inr \<lparr>request_response_id = 0x51, get_payload = [0x11, word_of_int t]\<rparr>
      | MakeReadDid ds \<Rightarrow> Inr \<lparr>request_response_id = 0x62, get_payload = [0x22]\<rparr>
      | MakeRequestSeed l \<Rightarrow> Inr \<lparr>request_response_id = 0x67, get_payload = [0x27, 1]\<rparr>
      | MakeSendKey l k \<Rightarrow> Inr \<lparr>request_response_id = 0x67, get_payload = [0x27, 2] @ k\<rparr>
      | MakeTransferData n d \<Rightarrow> Inr \<lparr>request_response_id = 0x76, get_payload = [0x36, word_of_int n] @ d\<rparr>
      | MakeVerifyCertificateUnidirectional n d \<Rightarrow> Inr \<lparr>request_response_id = 0x69, get_payload = [0x29, 1] @ d\<rparr>
      | MakeProofOfOwnership d \<Rightarrow> Inr \<lparr>request_response_id = 0x69, get_payload = [0x29, 3] @ d\<rparr>
      | _ \<Rightarrow> Inr \<lparr>request_response_id = 0x7E, get_payload = [0x3E, 0]\<rparr>)"

definition demo_response :: "bytes \<Rightarrow> uds_response" where
  "demo_response b =
     (if b = [] then \<lparr>valid = False, invalid_reason = ''empty'', response_id = 0, positive = False,
           code = 0, code_name = [], resp_data = []\<rparr>
      else if hd b = 0x7F \<and> length b = 3
      then \<lparr>valid = True, invalid_reason = [], response_id = uint (b ! 1) + 0x40,
           positive = False, code = uint (b ! 2), code_name = ''code'', resp_data = []\<rparr>
      else \<lparr>valid = True, invalid_reason = [], response_id = uint (hd b),
           positive = True, code = 0, code_name = [], resp_data = tl b\<rparr>)"

definition demo_interpret :: "uds_reading \<Rightarrow> uds_response \<Rightarrow> exn + service_data" where
  "demo_interpret rd r =
     (case resp_data r of
        [] \<Rightarrow> Inl (ValueError ''no data'')
      | b # d \<Rightarrow> Inr \<lparr>session_echo = uint b, reset_type_echo = uint b, subfunction_echo = uint b,
          did_echo = uint b, seed = d, security_level_echo = Some (uint b), max_length = uint b,
          sequence_number_echo = uint b, parameter_records = d, return_value = uint b,
          challenge_server = Some d, ephemeral_public_key_server = None, content = d\<rparr>)"

definition demo_uds_lib :: uds_lib where
  "demo_uds_lib =
     \<lparr>make_request = demo_request, from_payload = demo_response, interpret_response = demo_interpret,
      check_memory_location = (\<lambda>_. None), dfi_from_byte = Inr\<rparr>"

subsection \<open>How often a request is sent\<close>

definition same_log :: "'a isotp_world_scheme \<Rightarrow> 'a isotp_world_scheme \<Rightarrow> bool" where
  "same_log w w' \<longleftrightarrow> stack_log w' = stack_log w"

lemma same_log_refl [intro!, simp]: "reflp same_log"
  by (simp add: reflp_def same_log_def)

lemma same_log_trans [intro!, simp]: "transp same_log"
  by (simp add: transp_def same_log_def)

lemma isotp_same_log [simp]: "moves same_log time_now" "moves same_log (isotp_recv t)"
  by (auto simp: moves_def same_log_def isotp_recv_def split: list.splits)

lemma isotp_uds_ops [simp]:
  "uds_now (isotp_uds n L C) = time_now"
  "comm_recv (data_link_layer (isotp_uds n L C)) = isotp_recv"
  "comm_send (data_link_layer (isotp_uds n L C)) = isotp_send"
  by (simp_all add: isotp_uds_def isotp_comm_def)

lemma isotp_loop_same_log:
  "moves same_log (uds_recv_loop (isotp_uds n L C) request fuel start timeout raw response)"
  by (induction fuel arbitrary: start timeout raw response)
    (auto simp: uds_recv_loop.simps(2) on_message_def Let_def intro!: moves_bind)

lemma isotp_send_log:
  "isotp_send d t w = (r, w') \<Longrightarrow>
     stack_log w' = stack_log w @ (if r = Val (int (length d)) \<and> stack_log w' \<noteq> stack_log w then [d] else [])"
  by (auto simp: isotp_send_def split: if_splits list.splits tx_result.splits)

lemma isotp_attempts_log:
  fixes w :: "'a isotp_world_scheme"
  assumes "uds_attempt_loop (isotp_uds m L C) request n timeout raw response w = (r, w')"
  shows "\<exists>k\<le>n. stack_log w' = stack_log w @ replicate k (get_payload request)"
  using assms
proof (induction n arbitrary: timeout raw response w)
  case 0
  then show ?case
    by (auto split: if_splits option.splits)
next
  case (Suc n)
  let ?d = "get_payload request" and ?u = "isotp_uds m L C :: 'a isotp_world_scheme uds"
  obtain s w1 where s: "isotp_send ?d timeout w = (s, w1)" by fastforce
  obtain i where i: "i \<le> 1" "stack_log w1 = stack_log w @ replicate i ?d"
    using isotp_send_log [OF s] by (cases "stack_log w1 = stack_log w") (auto split: if_splits intro: that)
  define loop where "loop = (\<lambda>start. py_bind (py_get (uds_budget ?u)) (\<lambda>budget.
     uds_recv_loop ?u request (Suc budget) start timeout raw response))"
  have stay: "moves same_log (py_bind time_now loop)"
    unfolding loop_def by (intro moves_bind isotp_loop_same_log) auto
  obtain x w2 where x: "py_bind time_now loop w1 = (x, w2)" by fastforce
  have log2: "stack_log w2 = stack_log w1"
    using movesD [OF stay x] by (simp add: same_log_def)
  have run: "w' = w1 \<or> w' = w2 \<or> (\<exists>raw' response' t.
      uds_attempt_loop ?u request n t raw' response' w2 = (r, w'))"
    using Suc.prems s x unfolding loop_def
    by (auto simp: uds_attempt_loop.simps(2) py_bind_def split: res.splits if_splits prod.splits
        loop_exit.splits)
  then consider "w' = w1" | "w' = w2"
    | k where "k \<le> n" "stack_log w' = stack_log w2 @ replicate k ?d"
    using Suc.IH by blast
  then show ?case
  proof cases
    case 3
    then show ?thesis
      using i log2 by (intro exI [where x = "i + k"]) (auto simp: replicate_add)
  qed (use i log2 in \<open>auto intro!: exI [where x = i]\<close>)
qed

subsection \<open>Properties\<close>

text \<open>
  C1. A response the client hands on is one to the request it sent: whatever the link and the
  clock do, it is parsed from a non-empty message, it is valid and its service is the request's;
  and the checked exchange only ever returns a positive one. No message of another service, no
  invalid one and no negative one gets through.
\<close>

theorem uds_response_sound:
  "(send_and_read_raw_response u request timeout w = (Val r, w') \<longrightarrow> responds (uds_lib u) request r) \<and>
   (send_and_read_response u request timeout w = (Val r, w') \<longrightarrow>
      responds (uds_lib u) request r \<and> positive r)"
  by (simp add: send_and_read_raw_responds send_and_read_responds)

definition demo_link :: isotp_world where
  "demo_link = demo_isotp\<lparr>iso_is_open := True,
     stack_rx := [Some [0x62, 1], Some [0x7F, 0x10, 0x78], Some [0x50, 3]]\<rparr>"

definition session_request :: uds_request where
  "session_request = \<lparr>request_response_id = 0x50, get_payload = [0x10, 3]\<rparr>"

lemma demo_link_ready:
  "isotp_ready 0 demo_link"
  "isotp_inbox demo_link = [[0x62, 1], [0x7F, 0x10, 0x78], [0x50, 3]]"
  by (simp_all add: demo_link_def demo_isotp_def isotp_ready_def isotp_inbox_def received_bytes_def)

lemma demo_answer:
  "answer demo_uds_lib session_request 1 [[0x62, 1], [0x7F, 0x10, 0x78], [0x50, 3]] =
     (Inr (demo_response [0x50, 3]), [])"
  by (simp add: demo_uds_lib_def demo_response_def session_request_def response_pending_def
      RequestCorrectlyReceived_ResponsePending_def Let_def)

theorem uds_response_sound_witness:
  "\<exists>r w'. send_and_read_raw_response (isotp_uds 1 demo_uds_lib demo_crypto) session_request 2 demo_link =
      (Val r, w') \<and> responds demo_uds_lib session_request r"
proof -
  let ?u = "isotp_uds 1 demo_uds_lib demo_crypto :: isotp_world uds"
  obtain w' where "send_and_read_raw_response ?u session_request 2 demo_link =
      (Val (demo_response [0x50, 3]), w')"
    using isotp.uds_attempt_loop_answers [OF over_isotp, of 0 demo_link 2 None 1 demo_uds_lib demo_crypto
        session_request 1 None] demo_link_ready demo_answer
    by (auto simp: send_and_read_raw_response_def no_raw_response_def DEFAULT_UDS_PENDING_TIMEOUT_def)
  then show ?thesis
    using uds_response_sound [of ?u session_request 2 demo_link] by auto
qed



text \<open>
  C3. What the exchange returns over an open ISO-TP communicator whose stack accepts the messages
  and whose clock stays within the timeouts is the answer the waiting messages give: messages of
  other services and response-pending answers are discarded, an invalid message raises
  \<open>InvalidResponse\<close>, an empty receive costs an attempt, and with no attempts left the call raises
  \<open>NoResponse\<close>. The messages after the answer stay in the queue.
\<close>

theorem uds_exchange_answers:
  assumes "isotp_ready window w" and "window \<le> timeout" and "window \<le> 60" and "0 < timeout"
  shows "\<exists>w'. send_and_read_raw_response (isotp_uds n L C) request timeout w =
       (case fst (answer L request n (isotp_inbox w)) of Inl e \<Rightarrow> Exn e | Inr r \<Rightarrow> Val r, w') \<and>
     isotp_ready window w' \<and> isotp_inbox w' = snd (answer L request n (isotp_inbox w))"
  using isotp.uds_attempt_loop_answers [OF over_isotp, of window w timeout None n L C request n None] assms
  by (auto simp: send_and_read_raw_response_def no_raw_response_def DEFAULT_UDS_PENDING_TIMEOUT_def)

theorem uds_exchange_answers_witness:
  "\<exists>w'. send_and_read_raw_response (isotp_uds 1 demo_uds_lib demo_crypto) session_request 2 demo_link =
      (Val (demo_response [0x50, 3]), w')"
  using uds_exchange_answers [OF demo_link_ready(1), of 2 1 demo_uds_lib demo_crypto session_request]
    demo_answer
  by (auto simp: demo_link_ready)

text \<open>
  However the exchange ends, over ISO-TP the request was handed to the stack at most once for
  each attempt, unchanged, and nothing else was sent.
\<close>

theorem uds_attempts_bound:
  assumes "send_and_read_raw_response (isotp_uds n L C) request timeout w = (r, w')"
  shows "\<exists>k\<le>n. stack_log w' = stack_log w @ replicate k (get_payload request)"
  using isotp_attempts_log assms by (auto simp: send_and_read_raw_response_def)

theorem uds_attempts_bound_witness:
  "\<exists>r w' k. send_and_read_raw_response (isotp_uds 2 demo_uds_lib demo_crypto) session_request 2 demo_link =
      (r, w') \<and> k \<le> 2 \<and> stack_log w' = stack_log demo_link @ replicate k [0x10, 3]"
proof -
  obtain r w' where run: "send_and_read_raw_response (isotp_uds 2 demo_uds_lib demo_crypto)
      session_request 2 demo_link = (r, w')"
    by fastforce
  then show ?thesis
    using uds_attempts_bound [OF run] by (auto simp: session_request_def)
qed

end
