(* ===== verification/Uds_Utils.thy ===== *)
theory Uds_Utils
  imports Uds_Exchange
begin

section \<open>The UDS client: the services\<close>

text \<open>
  Models the services of \<open>UdsUtils\<close> (\<open>protocol/uds/impl/uds_utils.py\<close>) over the exchange of
  \<open>Uds_Exchange\<close>: the sessions, security access, data identifiers, transfer, trouble codes, the raw
  service and authentication.
\<close>

definition uds_setup :: "'w uds \<Rightarrow> ('w, bool) py" where
  "uds_setup u = comm_open (data_link_layer u)"

definition uds_teardown :: "'w uds \<Rightarrow> ('w, unit) py" where
  "uds_teardown u = py_seq (comm_close (data_link_layer u)) (py_ret ())"

definition session :: "'w uds \<Rightarrow> int \<Rightarrow> rat \<Rightarrow> UdsStandardVersion \<Rightarrow> ('w, service_data) py" where
  "session u s timeout standard_version =
     uds_service u (MakeSession s) (ReadSession standard_version) timeout"

definition ecu_reset :: "'w uds \<Rightarrow> int \<Rightarrow> rat \<Rightarrow> ('w, bool) py" where
  "ecu_reset u reset_type timeout =
     py_bind (uds_service u (MakeEcuReset reset_type) ReadEcuReset timeout) (\<lambda>d.
       py_ret (reset_type_echo d = reset_type))"

definition routine_control ::
  "'w uds \<Rightarrow> int \<Rightarrow> int \<Rightarrow> rat \<Rightarrow> bytes option \<Rightarrow> ('w, service_data) py" where
  "routine_control u routine_id control_type timeout data =
     uds_service u (MakeRoutineControl routine_id control_type data) ReadRoutineControl timeout"

definition tester_present :: "'w uds \<Rightarrow> rat \<Rightarrow> ('w, bool) py" where
  "tester_present u timeout =
     py_bind (uds_service u MakeTesterPresent ReadTesterPresent timeout) (\<lambda>d.
       py_ret (subfunction_echo d = 0))"

text \<open>The two codecs. The raw one hands its value on; it is only given \<open>bytes\<close>.\<close>

definition hex_string_encode :: "did_value \<Rightarrow> exn + bytes" where
  "hex_string_encode v =
     (case v of
        StrValue s \<Rightarrow> bytes_fromhex s
      | _ \<Rightarrow> Inl (ValueError ''AsciiCodec requires a string for encoding''))"

definition hex_string_decode :: "bytes \<Rightarrow> string" where
  "hex_string_decode b = bytes_hex b"

definition raw_bytes_encode :: "did_value \<Rightarrow> exn + bytes" where
  "raw_bytes_encode v = (case v of BytesValue b \<Rightarrow> Inr b | _ \<Rightarrow> Inl (TypeError ''bytes expected''))"

definition raw_bytes_decode :: "bytes \<Rightarrow> bytes" where
  "raw_bytes_decode b = b"

definition write_did :: "'w uds \<Rightarrow> int \<Rightarrow> did_value \<Rightarrow> rat \<Rightarrow> ('w, bool) py" where
  "write_did u did v timeout =
     (let write = (\<lambda>codec. py_bind (uds_service u (MakeWriteDid did v codec) ReadWriteDid timeout)
                     (\<lambda>d. py_ret (did_echo d = did)))
      in case v of
           StrValue _ \<Rightarrow> write hex_string_encode
         | BytesValue _ \<Rightarrow> write raw_bytes_encode
         | OtherValue \<Rightarrow> py_raise (ValueError ''Value is not supported.''))"

definition security_access :: "'w uds \<Rightarrow> security_algorithm \<Rightarrow> rat \<Rightarrow> ('w, bool) py" where
  "security_access u alg timeout =
     py_bind (uds_service u (MakeRequestSeed (seed_subfunction alg)) ReadSeed timeout) (\<lambda>d.
       if \<forall>b\<in>set (seed d). b = 0 then py_ret True
       else py_bind (py_lift (call_algorithm alg (seed d))) (\<lambda>session_key.
         py_bind (uds_service u (MakeSendKey (key_subfunction alg) session_key) ReadKey timeout) (\<lambda>d'.
           py_ret (security_level_echo d' = key_subfunction alg))))"

fun transit_to_session ::
  "'w uds \<Rightarrow> SESSION_ACCESS list \<Rightarrow> rat \<Rightarrow> UdsStandardVersion \<Rightarrow> ('w, bool) py" where
  "transit_to_session u [] timeout standard_version = py_ret True"
| "transit_to_session u (s # route) timeout standard_version =
     py_bind
       (py_catch
         (py_bind (session u (session_id s) timeout standard_version) (\<lambda>_.
            case elevation_info s of
              Some e \<Rightarrow>
                (case security_algorithm e of
                   Some alg \<Rightarrow> py_catch (py_seq (security_access u alg timeout) (py_ret True))
                                 (\<lambda>ex. py_ret True)
                 | None \<Rightarrow> py_ret True)
            | None \<Rightarrow> py_ret True))
         (\<lambda>ex. py_ret False))
       (\<lambda>ok. if ok then transit_to_session u route timeout standard_version else py_ret False)"

definition request_download ::
  "'w uds \<Rightarrow> int \<Rightarrow> int \<Rightarrow> int \<Rightarrow> int \<Rightarrow> int \<Rightarrow> rat \<Rightarrow> ('w, int) py" where
  "request_download u address memorysize enc_comp address_format memorysize_format timeout =
     (let memory_location =
        \<lparr>ml_address = address, ml_memorysize = memorysize,
         ml_address_format = 8 * address_format, ml_memorysize_format = 8 * memorysize_format\<rparr>
      in case check_memory_location (uds_lib u) memory_location of
           Some e \<Rightarrow> py_raise e
         | None \<Rightarrow> py_bind (py_lift (dfi_from_byte (uds_lib u) enc_comp)) (\<lambda>dfi.
             py_bind (uds_service u (MakeRequestDownload memory_location dfi) ReadDownload timeout)
               (\<lambda>d. py_ret (max_length d))))"

definition transfer_data :: "'w uds \<Rightarrow> int \<Rightarrow> bytes \<Rightarrow> rat \<Rightarrow> ('w, unit) py" where
  "transfer_data u seq data timeout =
     py_bind (uds_service u (MakeTransferData seq data) ReadTransferData timeout) (\<lambda>d.
       let resp_seq = sequence_number_echo d in
       if resp_seq \<noteq> seq
       then py_raise (InvalidResponse ''Unexpected sequence number response'')
       else py_ret ())"

definition transfer_exit :: "'w uds \<Rightarrow> bytes option \<Rightarrow> rat \<Rightarrow> ('w, bytes) py" where
  "transfer_exit u data timeout =
     py_bind (uds_service u (MakeTransferExit data) ReadTransferExit timeout) (\<lambda>d.
       py_ret (parameter_records d))"

definition read_dtc_information ::
  "'w uds \<Rightarrow> dtc_query \<Rightarrow> rat \<Rightarrow> UdsStandardVersion \<Rightarrow> ('w, service_data) py" where
  "read_dtc_information u query timeout standard_version =
     uds_service u (MakeReadDtc query standard_version)
       (ReadDtc (dtc_subfunction query) standard_version) timeout"

definition clear_diagnostic_information ::
  "'w uds \<Rightarrow> int \<Rightarrow> int option \<Rightarrow> rat \<Rightarrow> UdsStandardVersion \<Rightarrow> ('w, bool) py" where
  "clear_diagnostic_information u dtc_group mem timeout standard_version =
     py_seq (uds_service u (MakeClearDtc dtc_group mem standard_version) ReadClearDtc timeout)
       (py_ret True)"

definition raw_uds_service ::
  "'w uds \<Rightarrow> UdsSid \<Rightarrow> rat \<Rightarrow> int option \<Rightarrow> bytes option \<Rightarrow> ('w, uds_response) py" where
  "raw_uds_service u sid timeout sub_function data =
     py_bind (py_lift (make_request (uds_lib u) (MakeRaw (sub_function \<noteq> None) sid sub_function data)))
       (\<lambda>request. send_and_read_raw_response u request timeout)"

subsection \<open>Reading data identifiers\<close>

text \<open>
  \<open>_split_dids\<close>: \<open>first\<close> says whether the loop's index is 0, \<open>next_position\<close> is its variable. The
  remaining identifiers are the list; the last one is the singleton.
\<close>

fun split_dids_loop :: "bool \<Rightarrow> int \<Rightarrow> int list \<Rightarrow> bytes \<Rightarrow> exn + (int \<times> string) list" where
  "split_dids_loop first next_position [] data_bytes = Inr []"
| "split_dids_loop first next_position (did # dids) data_bytes =
     (case (if first
            then (case to_bytes_be 2 did of
                    Inl e \<Rightarrow> Inl e
                  | Inr pat \<Rightarrow> Inr (py_find data_bytes pat 0))
            else Inr next_position) of
        Inl e \<Rightarrow> Inl e
      | Inr curr_position \<Rightarrow>
          if curr_position = -1 then split_dids_loop False next_position dids data_bytes
          else
            let from_here = drop (nat curr_position + 2) data_bytes
            in case dids of
                 [] \<Rightarrow> Inr [(did, bytes_hex from_here)]
               | next_did # _ \<Rightarrow>
                   (case to_bytes_be 2 next_did of
                      Inl e \<Rightarrow> Inl e
                    | Inr pat \<Rightarrow>
                        let position = py_find data_bytes pat (nat curr_position + 2);
                            data = (if position = -1 then from_here
                                    else take (nat position - (nat curr_position + 2)) from_here)
                        in case split_dids_loop False position dids data_bytes of
                             Inl e \<Rightarrow> Inl e
                           | Inr dids_values \<Rightarrow> Inr ((did, bytes_hex data) # dids_values)))"

definition split_dids :: "int list \<Rightarrow> bytes \<Rightarrow> exn + (int \<times> string) list" where
  "split_dids didlist data_bytes = split_dids_loop True 0 didlist data_bytes"

definition read_did :: "'w uds \<Rightarrow> int list \<Rightarrow> rat \<Rightarrow> ('w, (int \<times> string) list) py" where
  "read_did u didlist timeout =
     py_bind (uds_exchange u (MakeReadDid didlist) timeout) (\<lambda>response.
       py_lift (split_dids didlist (resp_data response)))"

subsection \<open>Authentication\<close>

definition auth_result :: "service_data \<Rightarrow> exn + AuthenticationReturnParameter" where
  "auth_result d = auth_return_of (return_value d)"

definition authentication_transmit_certificate ::
  "'w uds \<Rightarrow> transmit_params \<Rightarrow> rat \<Rightarrow> ('w, AuthenticationReturnParameter) py" where
  "authentication_transmit_certificate u params timeout =
     py_bind (uds_service u (MakeTransmitCertificate (certificate_evaluation_id params)
         (certificate_data params)) ReadAuthentication timeout) (\<lambda>d. py_lift (auth_result d))"

definition authentication_deauthenticate ::
  "'w uds \<Rightarrow> rat \<Rightarrow> ('w, AuthenticationReturnParameter) py" where
  "authentication_deauthenticate u timeout =
     py_bind (uds_service u MakeDeAuthenticate ReadAuthentication timeout) (\<lambda>d. py_lift (auth_result d))"

definition authentication_configuration ::
  "'w uds \<Rightarrow> rat \<Rightarrow> ('w, AuthenticationReturnParameter) py" where
  "authentication_configuration u timeout =
     py_bind (uds_service u MakeAuthenticationConfiguration ReadAuthentication timeout)
       (\<lambda>d. py_lift (auth_result d))"

text \<open>An optional field of bytes is true when it is there and not empty.\<close>

definition truthy_bytes :: "bytes option \<Rightarrow> bool" where
  "truthy_bytes b \<longleftrightarrow> b \<noteq> None \<and> b \<noteq> Some []"

definition authentication_uni_certificate_exchange ::
  "'w uds \<Rightarrow> unidirectional_params \<Rightarrow> rat \<Rightarrow> ('w, AuthenticationReturnParameter) py" where
  "authentication_uni_certificate_exchange u params timeout =
     py_bind (uds_service u (MakeVerifyCertificateUnidirectional
         (communication_configuration params) (certificate_client params)) ReadAuthentication timeout)
       (\<lambda>d. if \<not> truthy_bytes (challenge_server d)
            then py_raise (InvalidResponse ''Expected challenge from server but none received'')
            else if truthy_bytes (ephemeral_public_key_server d)
            then py_raise (NotImplementedError ''Session key establishment is not supported yet'')
            else py_bind (py_lift (sign_data (crypto_lib u) (private_key_der params)
                    (the (challenge_server d)) (Some (hash_algorithm params))
                    (Some (asym_padding_type params)))) (\<lambda>sig_data.
              py_bind (uds_service u (MakeProofOfOwnership sig_data) ReadAuthentication timeout)
                (\<lambda>d'. py_lift (auth_result d'))))"

text \<open>
  A user-written parameter class has the fields its action needs or not: without them reading the
  first one raises \<open>AttributeError\<close>.
\<close>

definition authentication ::
  "'w uds \<Rightarrow> auth_params \<Rightarrow> rat \<Rightarrow> ('w, AuthenticationReturnParameter) py" where
  "authentication u params timeout =
     (case authentication_action params of
        AuthenticationConfiguration \<Rightarrow> authentication_configuration u timeout
      | PKI_CertificateExchangeUnidirectional \<Rightarrow>
          (case params of
             UnidirectionalAPCEParams p \<Rightarrow> authentication_uni_certificate_exchange u p timeout
           | _ \<Rightarrow> py_raise (AttributeError ''communication_configuration''))
      | PKI_CertificateExchangeBidirectional \<Rightarrow>
          py_raise (NotImplementedError ''PKI_CertificateExchangeBidirectional is not implemented yet'')
      | ChallengeResponse \<Rightarrow> py_raise (NotImplementedError ''ChallengeResponse is not implemented yet'')
      | DeAuthenticate \<Rightarrow> authentication_deauthenticate u timeout
      | TransmitCertificate \<Rightarrow>
          (case params of
             TransmitCertificateParams p \<Rightarrow> authentication_transmit_certificate u p timeout
           | _ \<Rightarrow> py_raise (AttributeError ''certificate_evaluation_id'')))"

subsection \<open>Splitting the identifiers\<close>

text \<open>The data of a read-by-identifier response, and what makes it readable without lengths: the
  next identifier's bytes do not occur before its record starts.\<close>

definition did_bytes :: "int \<Rightarrow> bytes" where
  "did_bytes did = be_digits 2 did"

definition encode_records :: "(int \<times> bytes) list \<Rightarrow> bytes" where
  "encode_records recs = concat (map (\<lambda>(did, v). did_bytes did @ v) recs)"

fun separated :: "(int \<times> bytes) list \<Rightarrow> bool" where
  "separated ((did, v) # (did', v') # recs) \<longleftrightarrow>
     (\<forall>k<length v. \<not> occurs_at (v @ encode_records ((did', v') # recs)) (did_bytes did') k) \<and>
     separated ((did', v') # recs)"
| "separated _ \<longleftrightarrow> True"

lemma encode_records_simps [simp]:
  "encode_records [] = []"
  "encode_records ((did, v) # recs) = did_bytes did @ v @ encode_records recs"
  by (simp_all add: encode_records_def)

lemma length_did_bytes [simp]: "length (did_bytes did) = 2"
  by (simp add: did_bytes_def)

lemma did_bytes_eq: "did_bytes did = [word_of_int (did div 256 mod 256), word_of_int (did mod 256)]"
  by (simp add: did_bytes_def eval_nat_numeral)

lemma all_less_2: "(\<forall>k<Suc (Suc 0). P k) \<longleftrightarrow> P 0 \<and> P (Suc 0)"
  by (auto simp: less_Suc_eq)

lemma occurs_at_2:
  "occurs_at xs [a, b] k \<longleftrightarrow> k + 2 \<le> length xs \<and> xs ! k = a \<and> xs ! Suc k = b"
  by (auto simp: occurs_at_def take_Suc_conv_app_nth eval_nat_numeral
      simp flip: Cons_nth_drop_Suc)

lemma to_bytes_did: "0 \<le> did \<Longrightarrow> did < 65536 \<Longrightarrow> to_bytes_be 2 did = Inr (did_bytes did)"
  by (simp add: to_bytes_be_def did_bytes_def)

lemma occurs_at_append: "occurs_at (xs @ ys) pat (length xs + k) = occurs_at ys pat k"
  by (simp add: occurs_at_def)

lemma py_find_next:
  assumes "\<forall>k<length v. \<not> occurs_at (v @ pat @ rest) pat k"
  shows "py_find (pre @ v @ pat @ rest) pat (length pre) = int (length pre + length v)"
proof (rule py_find_first)
  have "occurs_at (v @ pat @ rest) pat (length v)"
    by (simp add: occurs_at_def)
  then show "occurs_at (pre @ v @ pat @ rest) pat (length pre + length v)"
    by (simp only: occurs_at_append)
  fix k
  assume "length pre \<le> k" "k < length pre + length v"
  then have "\<not> occurs_at (v @ pat @ rest) pat (k - length pre)"
    using assms by simp
  then show "\<not> occurs_at (pre @ v @ pat @ rest) pat k"
    using occurs_at_append [of pre "v @ pat @ rest" pat "k - length pre"] \<open>length pre \<le> k\<close> by simp
qed simp

lemma split_dids_loop_records:
  "separated recs \<Longrightarrow> \<forall>(did, v)\<in>set recs. 0 \<le> did \<and> did < 65536 \<Longrightarrow>
     split_dids_loop False (int (length pre)) (map fst recs) (pre @ encode_records recs) =
       Inr (map (\<lambda>(did, v). (did, bytes_hex v)) recs)"
proof (induction recs arbitrary: pre rule: separated.induct)
  case (1 did v did' v' recs)
  let ?rest = "v' @ encode_records recs" and ?pre = "pre @ did_bytes did @ v"
  have "\<forall>k<length v. \<not> occurs_at (v @ did_bytes did' @ ?rest) (did_bytes did') k"
    using 1(2) by simp
  from py_find_next [OF this, of "pre @ did_bytes did"]
  have find: "py_find (pre @ did_bytes did @ v @ did_bytes did' @ ?rest) (did_bytes did') (length pre + 2) =
      int (length ?pre)"
    by simp
  have "split_dids_loop False (int (length ?pre)) (map fst ((did', v') # recs))
      (?pre @ encode_records ((did', v') # recs)) = Inr (map (\<lambda>(did, v). (did, bytes_hex v)) ((did', v') # recs))"
    using 1(2,3) by (intro 1(1)) auto
  then show ?case
    using find 1(3) by (simp add: to_bytes_did Let_def)
qed (auto simp: Let_def)

lemma split_dids_loop_lost [simp]: "split_dids_loop False (-1) dids data = Inr []"
  by (induction dids) auto

subsection \<open>One answered call\<close>

text \<open>
  What the server's next message is when it answers a request at once: it waits at the head of the
  stack, and it is a valid positive response of the request's service.
\<close>

definition answers_now :: "uds_lib \<Rightarrow> uds_request \<Rightarrow> bytes \<Rightarrow> bool" where
  "answers_now L request b \<longleftrightarrow> b \<noteq> [] \<and> valid (from_payload L b) \<and> positive (from_payload L b) \<and>
     response_id (from_payload L b) = request_response_id request"

lemma isotp_send_ready:
  assumes "isotp_ready window w"
  obtains s where "isotp_send d t w =
    (Val (int (length d)), w\<lparr>stack_tx := s, stack_log := stack_log w @ [d]\<rparr>)" "set s \<subseteq> {TxDone}"
proof (cases "stack_tx w")
  case Nil
  then show ?thesis
    using that [of "[]"] assms by (simp add: isotp_send_def isotp_ready_def)
next
  case (Cons x s)
  then show ?thesis
    using that [of s] assms by (simp add: isotp_send_def isotp_ready_def)
qed

lemma isotp_call_now:
  assumes "isotp_ready window w" and "window \<le> timeout" and "stack_rx w = Some b # rx"
    and "answers_now L request b"
  shows "\<exists>w'. send_and_read_response (isotp_uds (Suc n) L C) request timeout w = (Val (from_payload L b), w') \<and>
     isotp_ready window w' \<and> stack_rx w' = rx \<and> stack_log w' = stack_log w @ [get_payload request]"
proof -
  obtain s where send: "isotp_send (get_payload request) timeout w =
      (Val (int (length (get_payload request))), w\<lparr>stack_tx := s, stack_log := stack_log w @ [get_payload request]\<rparr>)"
    and s: "set s \<subseteq> {TxDone}"
    using assms(1) by (rule isotp_send_ready)
  have clk: "clock w 0 \<le> clock w i" "clock w j \<le> clock w 0 + window" for i j
    using assms(1) by (auto simp: isotp_ready_def)
  have in_time: "\<not> clock w j - clock w i > timeout" for i j
    using clk(1) [of i] clk(2) [of j] assms(2) by linarith
  have "b \<noteq> []"
    using assms(4) by (simp add: answers_now_def)
  define w2 where "w2 = w\<lparr>stack_tx := s, stack_log := stack_log w @ [get_payload request],
      ticks := Suc (Suc (ticks w)), stack_rx := rx\<rparr>"
  have recv: "isotp_recv timeout (w\<lparr>stack_tx := s, stack_log := stack_log w @ [get_payload request],
      ticks := Suc (Suc (ticks w))\<rparr>) = (Val b, w2)"
    using assms(1,3) \<open>b \<noteq> []\<close> by (simp add: isotp_recv_def isotp_ready_def received_bytes_def w2_def)
  have "send_and_read_response (isotp_uds (Suc n) L C) request timeout w = (Val (from_payload L b), w2)"
    using send recv in_time assms(4)
    by (simp add: send_and_read_response_def send_and_read_raw_response_def uds_attempt_loop.simps(2)
        run_bind_Val uds_recv_loop.simps(2) on_message_def Let_def answers_now_def py_bind_def)
  moreover have "isotp_ready window w2"
    using assms(1) s by (simp add: isotp_ready_def w2_def)
  ultimately show ?thesis
    by (intro exI [where x = w2]) (simp add: w2_def)
qed

lemma isotp_service_now:
  assumes "isotp_ready window w" and "window \<le> timeout" and "stack_rx w = Some b # rx"
    and "make_request L c = Inr request" and "answers_now L request b"
  shows "\<exists>w'. uds_service (isotp_uds (Suc n) L C) c rd timeout w =
       (case interpret_response L rd (from_payload L b) of Inl e \<Rightarrow> Exn e | Inr d \<Rightarrow> Val d, w') \<and>
     isotp_ready window w' \<and> stack_rx w' = rx \<and> stack_log w' = stack_log w @ [get_payload request]"
proof -
  obtain w' where "send_and_read_response (isotp_uds (Suc n) L C) request timeout w =
      (Val (from_payload L b), w')"
    and w': "isotp_ready window w'" "stack_rx w' = rx" "stack_log w' = stack_log w @ [get_payload request]"
    using isotp_call_now [OF assms(1-3,5)] by blast
  then have "uds_exchange (isotp_uds (Suc n) L C) c timeout w = (Val (from_payload L b), w')"
    using assms(4) by (simp add: uds_exchange_def run_bind_Val)
  then show ?thesis
    using w' by (cases "interpret_response L rd (from_payload L b)")
      (simp_all add: uds_service_def run_bind_Val)
qed

subsection \<open>Properties\<close>

text \<open>
  C7. Reading identifiers inverts the server's encoding: when the response data is the requested
  identifiers' records one after the other, and no value contains the next identifier's two bytes
  too early, \<open>_split_dids\<close> gives back every identifier with its value in hex.
\<close>

theorem split_dids_roundtrip:
  assumes "separated recs" and "\<forall>(did, v)\<in>set recs. 0 \<le> did \<and> did < 65536"
  shows "split_dids (map fst recs) (encode_records recs) =
     Inr (map (\<lambda>(did, v). (did, bytes_hex v)) recs)"
proof (cases recs)
  case Nil
  then show ?thesis by (simp add: split_dids_def)
next
  case (Cons rec recs')
  obtain did v where rec: "rec = (did, v)" by fastforce
  have find: "py_find (encode_records recs) (did_bytes did) 0 = 0"
    using py_find_next [of "[]" "did_bytes did" _ "[]"] Cons rec by simp
  have "split_dids (map fst recs) (encode_records recs) =
      split_dids_loop False 0 (map fst recs) (encode_records recs)"
    using assms(2) Cons rec find by (simp add: split_dids_def to_bytes_did)
  also have "\<dots> = Inr (map (\<lambda>(did, v). (did, bytes_hex v)) recs)"
    using split_dids_loop_records [OF assms, of "[]"] by simp
  finally show ?thesis .
qed

theorem split_dids_roundtrip_witness:
  "split_dids [0xF190, 0xF18C] [0xF1, 0x90, 1, 2, 0xF1, 0x8C, 0xF1, 0x90] =
     Inr [(0xF190, bytes_hex [1, 2]), (0xF18C, bytes_hex [0xF1, 0x90])]"
  using split_dids_roundtrip [of "[(0xF190, [1, 2]), (0xF18C, [0xF1, 0x90])]"]
  by (simp add: did_bytes_eq all_less_2 occurs_at_2)

text \<open>
  One requested identifier that the server leaves out hides all that come after it: when the
  second one's bytes are nowhere in the data, the first one is reported with everything the server
  sent, the other records included, and no later identifier is reported at all.
\<close>

theorem split_dids_missing:
  assumes "0 \<le> did" and "did < 65536" and "0 \<le> missing" and "missing < 65536"
    and "\<forall>k. \<not> occurs_at (did_bytes did @ sent) (did_bytes missing) (k + 2)"
  shows "split_dids (did # missing # later) (did_bytes did @ sent) = Inr [(did, bytes_hex sent)]"
proof -
  have first: "py_find (did_bytes did @ sent) (did_bytes did) 0 = 0"
    using py_find_next [of "[]" "did_bytes did" sent "[]"] by simp
  have "py_find (did_bytes did @ sent) (did_bytes missing) (Suc (Suc 0)) = -1"
  proof (rule py_find_none)
    fix k :: nat
    assume "Suc (Suc 0) \<le> k"
    then obtain j where "k = j + 2"
      using le_Suc_ex [of 2 k] by (auto simp: add.commute)
    then show "\<not> occurs_at (did_bytes did @ sent) (did_bytes missing) k"
      using assms(5) by blast
  qed
  then show ?thesis
    using assms(1-4) first by (simp add: split_dids_def to_bytes_did Let_def)
qed

theorem split_dids_missing_witness:
  "split_dids [0x0101, 0x0202, 0x0303] [1, 1, 7, 3, 3, 9] = Inr [(0x0101, bytes_hex [7, 3, 3, 9])]"
proof -
  have "\<not> occurs_at (did_bytes 0x0101 @ [7, 3, 3, 9]) (did_bytes 0x0202) (k + 2)" for k
  proof (cases "k \<le> 2")
    case True
    then have "k = 0 \<or> k = 1 \<or> k = 2" by auto
    then show ?thesis
      by (auto simp: occurs_at_2 did_bytes_eq)
  next
    case False
    then show ?thesis
      by (auto simp: occurs_at_2 did_bytes_eq)
  qed
  then show ?thesis
    using split_dids_missing [where did = "0x0101" and missing = "0x0202" and sent = "[7, 3, 3, 9]" and later = "[0x0303]"]
    by (simp add: did_bytes_eq)
qed

text \<open>
  C5. Security access. When the server answers at once with a seed that is not all zeros, the
  client sends exactly two messages, the seed request and the request with the key its algorithm
  computes from that seed, and reports whether the echoed level is the key's sub-function. On an
  all-zero seed it sends only the seed request and reports success.
\<close>

theorem security_access_run:
  fixes w :: "'a isotp_world_scheme"
  assumes "isotp_ready window w" and "window \<le> timeout"
    and "make_request L (MakeRequestSeed (seed_subfunction alg)) = Inr ask"
    and "answers_now L ask b" and "interpret_response L ReadSeed (from_payload L b) = Inr d"
    and "stack_rx w = Some b # rx"
  shows "((\<forall>x\<in>set (seed d). x = 0) \<longrightarrow>
       (\<exists>w'. security_access (isotp_uds (Suc n) L C) alg timeout w = (Val True, w') \<and>
          stack_log w' = stack_log w @ [get_payload ask] \<and> stack_rx w' = rx)) \<and>
     (\<forall>key unlock b' rx' d'. (\<exists>x\<in>set (seed d). x \<noteq> 0) \<and> call_algorithm alg (seed d) = Inr key \<and>
          make_request L (MakeSendKey (key_subfunction alg) key) = Inr unlock \<and> rx = Some b' # rx' \<and>
          answers_now L unlock b' \<and> interpret_response L ReadKey (from_payload L b') = Inr d' \<longrightarrow>
       (\<exists>w'. security_access (isotp_uds (Suc n) L C) alg timeout w =
            (Val (security_level_echo d' = key_subfunction alg), w') \<and>
          stack_log w' = stack_log w @ [get_payload ask, get_payload unlock] \<and> stack_rx w' = rx'))"
proof -
  let ?u = "isotp_uds (Suc n) L C :: 'a isotp_world_scheme uds"
  obtain w1 where run: "uds_service ?u (MakeRequestSeed (seed_subfunction alg)) ReadSeed timeout w = (Val d, w1)"
    and w1: "isotp_ready window w1" "stack_rx w1 = rx" "stack_log w1 = stack_log w @ [get_payload ask]"
    using isotp_service_now [OF assms(1,2,6,3,4), where n = n and C = C and rd = ReadSeed] assms(5)
    by auto
  have locked: "\<exists>w'. security_access ?u alg timeout w = (Val (security_level_echo d' = key_subfunction alg), w') \<and>
      stack_log w' = stack_log w @ [get_payload ask, get_payload unlock] \<and> stack_rx w' = rx'"
    if "\<exists>x\<in>set (seed d). x \<noteq> 0" and key: "call_algorithm alg (seed d) = Inr key"
      and unlock: "make_request L (MakeSendKey (key_subfunction alg) key) = Inr unlock"
      and "rx = Some b' # rx'" and b': "answers_now L unlock b'"
      and d': "interpret_response L ReadKey (from_payload L b') = Inr d'"
    for key unlock b' rx' d'
  proof -
    have "stack_rx w1 = Some b' # rx'"
      using that w1 by simp
    from isotp_service_now [OF w1(1) assms(2) this unlock b', where n = n and C = C and rd = ReadKey] d'
    obtain w2 where "uds_service ?u (MakeSendKey (key_subfunction alg) key) ReadKey timeout w1 = (Val d', w2)"
      and "stack_log w2 = stack_log w @ [get_payload ask, get_payload unlock]" "stack_rx w2 = rx'"
      using w1(3) by auto
    then show ?thesis
      using run that by (auto simp: security_access_def run_bind_Val)
  qed
  show ?thesis
  proof (intro conjI impI allI)
    assume "\<forall>x\<in>set (seed d). x = 0"
    then show "\<exists>w'. security_access ?u alg timeout w = (Val True, w') \<and>
        stack_log w' = stack_log w @ [get_payload ask] \<and> stack_rx w' = rx"
      using run w1 by (simp add: security_access_def run_bind_Val)
  qed (use locked in blast)
qed

definition demo_xor :: security_algorithm where
  "demo_xor = \<lparr>seed_subfunction = Some 1, key_subfunction = Some 2, sa_kind = SA_XOR 0xFF\<rparr>"

theorem security_access_run_witness:
  "let w = demo_isotp\<lparr>iso_is_open := True, stack_rx := [Some [0x67, 1, 0, 0, 0, 5], Some [0x67, 2]]\<rparr> in
   \<exists>w'. security_access (isotp_uds 1 demo_uds_lib demo_crypto) demo_xor 2 w = (Val True, w') \<and>
     stack_log w' = [[0x27, 1], [0x27, 2, 0, 0, 0, 0xFA]]"
proof -
  let ?w = "demo_isotp\<lparr>iso_is_open := True, stack_rx := [Some [0x67, 1, 0, 0, 0, 5], Some [0x67, 2]]\<rparr>"
  let ?b = "[0x67, 1, 0, 0, 0, 5] :: bytes" and ?b' = "[0x67, 2] :: bytes"
  let ?ask = "\<lparr>request_response_id = 0x67, get_payload = [0x27, 1]\<rparr>"
  let ?unlock = "\<lparr>request_response_id = 0x67, get_payload = [0x27, 2, 0, 0, 0, 0xFA]\<rparr>"
  have ready: "isotp_ready 0 ?w" and rx: "stack_rx ?w = Some ?b # [Some ?b']"
    by (simp_all add: isotp_ready_def demo_isotp_def)
  have ask: "make_request demo_uds_lib (MakeRequestSeed (seed_subfunction demo_xor)) = Inr ?ask"
    and unlock: "make_request demo_uds_lib (MakeSendKey (key_subfunction demo_xor) [0, 0, 0, 0xFA]) = Inr ?unlock"
    by (simp_all add: demo_uds_lib_def demo_request_def)
  have now: "answers_now demo_uds_lib ?ask ?b" "answers_now demo_uds_lib ?unlock ?b'"
    by (simp_all add: answers_now_def demo_uds_lib_def demo_response_def)
  obtain d d' where d: "interpret_response demo_uds_lib ReadSeed (from_payload demo_uds_lib ?b) = Inr d"
    "seed d = [0, 0, 0, 5]"
    and d': "interpret_response demo_uds_lib ReadKey (from_payload demo_uds_lib ?b') = Inr d'"
    "security_level_echo d' = key_subfunction demo_xor"
    by (simp add: demo_uds_lib_def demo_response_def demo_interpret_def demo_xor_def)
  have key: "call_algorithm demo_xor (seed d) = Inr [0, 0, 0, 0xFA]"
    using d(2) by (simp add: demo_xor_def call_algorithm_def xor_key_def pack_u32_be_Inr
        from_bytes_be_def Let_def)
  have "\<exists>x\<in>set (seed d). x \<noteq> 0"
    using d(2) by simp
  then show ?thesis
    using security_access_run [OF ready _ ask now(1) d(1) rx, of 2 0 demo_crypto] key unlock now(2) d'
    by (auto simp: demo_isotp_def)
qed

text \<open>
  A transfer that returns was confirmed block by block: when the server answers the block at
  once, \<open>transfer_data\<close> sends one message and returns exactly when the response echoes the block's
  sequence number; otherwise it raises \<open>InvalidResponse\<close>, whatever else the response says.
\<close>

theorem transfer_data_echo:
  fixes w :: "'a isotp_world_scheme"
  assumes "isotp_ready window w" and "window \<le> timeout" and "stack_rx w = Some b # rx"
    and "make_request L (MakeTransferData sn block) = Inr request" and "answers_now L request b"
    and "interpret_response L ReadTransferData (from_payload L b) = Inr d"
  shows "\<exists>w'. transfer_data (isotp_uds (Suc n) L C) sn block timeout w =
       (if sequence_number_echo d = sn then Val ()
        else Exn (InvalidResponse ''Unexpected sequence number response''), w') \<and>
     stack_log w' = stack_log w @ [get_payload request] \<and> stack_rx w' = rx"
  using isotp_service_now [OF assms(1-5), where n = n and C = C and rd = ReadTransferData] assms(6)
  by (auto simp: transfer_data_def run_bind_Val Let_def)

theorem transfer_data_echo_witness:
  "\<exists>w'. transfer_data (isotp_uds 1 demo_uds_lib demo_crypto) 7 [0xAA] 2
       (demo_isotp\<lparr>iso_is_open := True, stack_rx := [Some [0x76, 8]]\<rparr>) =
     (Exn (InvalidResponse ''Unexpected sequence number response''), w')"
proof -
  let ?w = "demo_isotp\<lparr>iso_is_open := True, stack_rx := [Some [0x76, 8]]\<rparr>"
  have ready: "isotp_ready 0 ?w" and rx: "stack_rx ?w = Some [0x76, 8] # []"
    by (simp_all add: isotp_ready_def demo_isotp_def)
  have make: "make_request demo_uds_lib (MakeTransferData 7 [0xAA]) =
      Inr \<lparr>request_response_id = 0x76, get_payload = [0x36, 7, 0xAA]\<rparr>"
    by (simp add: demo_uds_lib_def demo_request_def)
  have now: "answers_now demo_uds_lib \<lparr>request_response_id = 0x76, get_payload = [0x36, 7, 0xAA]\<rparr> [0x76, 8]"
    by (simp add: answers_now_def demo_uds_lib_def demo_response_def)
  obtain d where "interpret_response demo_uds_lib ReadTransferData (from_payload demo_uds_lib [0x76, 8]) = Inr d"
    "sequence_number_echo d = 8"
    by (simp add: demo_uds_lib_def demo_response_def demo_interpret_def)
  then show ?thesis
    using transfer_data_echo [OF ready _ rx make now, of 2 d 0 demo_crypto] by auto
qed

text \<open>
  C6. Certificate exchange signs the server's challenge and nothing else. When the server answers
  the certificate at once with a challenge and no session key, the client sends two messages, the
  certificate and the proof of ownership, which is the signature of exactly the received challenge
  under the configured key, hash and padding, and returns the result code of the second response;
  without a challenge it raises \<open>InvalidResponse\<close> after one message, and nothing is signed.
\<close>

theorem authentication_signs_challenge:
  fixes w :: "'a isotp_world_scheme"
  assumes "isotp_ready window w" and "window \<le> timeout" and "stack_rx w = Some b # rx"
    and "make_request L (MakeVerifyCertificateUnidirectional (communication_configuration p)
           (certificate_client p)) = Inr cert"
    and "answers_now L cert b"
    and "interpret_response L ReadAuthentication (from_payload L b) = Inr d"
  shows "(\<not> truthy_bytes (challenge_server d) \<longrightarrow>
       (\<exists>w' m. authentication (isotp_uds (Suc n) L C) (UnidirectionalAPCEParams p) timeout w =
          (Exn (InvalidResponse m), w') \<and> stack_log w' = stack_log w @ [get_payload cert])) \<and>
     (\<forall>challenge sig own b' rx' d' v. challenge_server d = Some challenge \<and> challenge \<noteq> [] \<and>
          \<not> truthy_bytes (ephemeral_public_key_server d) \<and>
          sign_data C (private_key_der p) challenge (Some (hash_algorithm p)) (Some (asym_padding_type p)) =
            Inr sig \<and>
          make_request L (MakeProofOfOwnership sig) = Inr own \<and> rx = Some b' # rx' \<and>
          answers_now L own b' \<and>
          interpret_response L ReadAuthentication (from_payload L b') = Inr d' \<and>
          auth_return_value v = return_value d' \<longrightarrow>
       (\<exists>w'. authentication (isotp_uds (Suc n) L C) (UnidirectionalAPCEParams p) timeout w = (Val v, w') \<and>
          stack_log w' = stack_log w @ [get_payload cert, get_payload own] \<and> stack_rx w' = rx'))"
proof -
  let ?u = "isotp_uds (Suc n) L C :: 'a isotp_world_scheme uds"
  let ?run = "authentication ?u (UnidirectionalAPCEParams p) timeout w"
  obtain w1 where run: "uds_service ?u (MakeVerifyCertificateUnidirectional
        (communication_configuration p) (certificate_client p)) ReadAuthentication timeout w = (Val d, w1)"
    and w1: "isotp_ready window w1" "stack_rx w1 = rx" "stack_log w1 = stack_log w @ [get_payload cert]"
    using isotp_service_now [OF assms(1-5), where n = n and C = C and rd = ReadAuthentication] assms(6)
    by auto
  have good: "\<exists>w'. ?run = (Val v, w') \<and>
      stack_log w' = stack_log w @ [get_payload cert, get_payload own] \<and> stack_rx w' = rx'"
    if challenge: "challenge_server d = Some challenge" "challenge \<noteq> []"
      "\<not> truthy_bytes (ephemeral_public_key_server d)"
      and sig: "sign_data C (private_key_der p) challenge (Some (hash_algorithm p))
        (Some (asym_padding_type p)) = Inr sig"
      and own: "make_request L (MakeProofOfOwnership sig) = Inr own" "rx = Some b' # rx'"
        "answers_now L own b'"
      and d': "interpret_response L ReadAuthentication (from_payload L b') = Inr d'"
        "auth_return_value v = return_value d'"
    for challenge sig own b' rx' d' v
  proof -
    have "stack_rx w1 = Some b' # rx'"
      using w1(2) own(2) by simp
    from isotp_service_now [OF w1(1) assms(2) this own(1,3), where n = n and C = C and
        rd = ReadAuthentication] d'(1)
    obtain w2 where "uds_service ?u (MakeProofOfOwnership sig) ReadAuthentication timeout w1 = (Val d', w2)"
      and "stack_log w2 = stack_log w @ [get_payload cert, get_payload own]" "stack_rx w2 = rx'"
      using w1(3) by auto
    moreover have "auth_result d' = Inr v"
      using d'(2) by (simp add: auth_result_def auth_return_of_Inr)
    ultimately show ?thesis
      using run challenge sig
      by (simp add: authentication_def authentication_uni_certificate_exchange_def run_bind_Val
          truthy_bytes_def)
  qed
  show ?thesis
  proof (intro conjI impI allI)
    assume "\<not> truthy_bytes (challenge_server d)"
    then show "\<exists>w' m. ?run = (Exn (InvalidResponse m), w') \<and> stack_log w' = stack_log w @ [get_payload cert]"
      using run w1 by (simp add: authentication_def authentication_uni_certificate_exchange_def run_bind_Val)
  qed (use good in blast)
qed

definition demo_certificate :: unidirectional_params where
  "demo_certificate =
     \<lparr>private_key_der = [1], certificate_client = [0xCC], asym_padding_type = PKCS1v15,
      hash_algorithm = SHA256, communication_configuration = 0\<rparr>"

theorem authentication_signs_challenge_witness:
  "let w = demo_isotp\<lparr>iso_is_open := True, stack_rx := [Some [0x69, 0x11, 7, 8], Some [0x69, 0x12]]\<rparr> in
   \<exists>w'. authentication (isotp_uds 1 demo_uds_lib demo_crypto) (UnidirectionalAPCEParams demo_certificate) 2 w =
       (Val OwnershipVerified_AuthenticationComplete, w') \<and>
     stack_log w' = [[0x29, 1, 0xCC], [0x29, 3, 1, 7, 8]]"
proof -
  let ?w = "demo_isotp\<lparr>iso_is_open := True, stack_rx := [Some [0x69, 0x11, 7, 8], Some [0x69, 0x12]]\<rparr>"
  let ?b = "[0x69, 0x11, 7, 8] :: bytes" and ?b' = "[0x69, 0x12] :: bytes"
  let ?cert = "\<lparr>request_response_id = 0x69, get_payload = [0x29, 1, 0xCC]\<rparr>"
  let ?own = "\<lparr>request_response_id = 0x69, get_payload = [0x29, 3, 1, 7, 8]\<rparr>"
  have ready: "isotp_ready 0 ?w" and rx: "stack_rx ?w = Some ?b # [Some ?b']"
    by (simp_all add: isotp_ready_def demo_isotp_def)
  have cert: "make_request demo_uds_lib (MakeVerifyCertificateUnidirectional
      (communication_configuration demo_certificate) (certificate_client demo_certificate)) = Inr ?cert"
    and own: "make_request demo_uds_lib (MakeProofOfOwnership [1, 7, 8]) = Inr ?own"
    by (simp_all add: demo_uds_lib_def demo_request_def demo_certificate_def)
  have now: "answers_now demo_uds_lib ?cert ?b" "answers_now demo_uds_lib ?own ?b'"
    by (simp_all add: answers_now_def demo_uds_lib_def demo_response_def)
  obtain d d' where d: "interpret_response demo_uds_lib ReadAuthentication (from_payload demo_uds_lib ?b) = Inr d"
    "challenge_server d = Some [7, 8]" "ephemeral_public_key_server d = None"
    and d': "interpret_response demo_uds_lib ReadAuthentication (from_payload demo_uds_lib ?b') = Inr d'"
    "return_value d' = auth_return_value OwnershipVerified_AuthenticationComplete"
    by (simp add: demo_uds_lib_def demo_response_def demo_interpret_def)
  have sig: "sign_data demo_crypto (private_key_der demo_certificate) [7, 8]
      (Some (hash_algorithm demo_certificate)) (Some (asym_padding_type demo_certificate)) = Inr [1, 7, 8]"
    by (simp add: demo_certificate_def sign_data_def sign_rsa_def demo_crypto_def)
  show ?thesis
    using authentication_signs_challenge [OF ready _ rx cert now(1) d(1), of 2 0 demo_crypto]
      d(2,3) sig own now(2) d'
    by (auto simp: truthy_bytes_def demo_isotp_def
        elim!: allE [of _ OwnershipVerified_AuthenticationComplete])
qed

subsection \<open>Routes\<close>

context message_link
begin

lemma session_returns:
  "over_link u now send recv pending \<Longrightarrow> 0 < timeout \<Longrightarrow> returns (session u s timeout v) w"
  by (simp add: session_def uds_service_returns)

lemma security_access_returns:
  "over_link u now send recv pending \<Longrightarrow> 0 < timeout \<Longrightarrow> returns (security_access u alg timeout) w"
  by (auto simp: security_access_def intro!: returns_bind uds_service_returns)

lemma transit_returns:
  assumes "over_link u now send recv pending" and "0 < timeout"
  shows "returns (transit_to_session u route timeout v) w"
  by (induction route arbitrary: w)
    (auto intro!: returns_bind returns_catch returns_seq session_returns [OF assms]
      security_access_returns [OF assms] split: option.splits)

end

lemma transit_no_Exn: "transit_to_session u route timeout v w \<noteq> (Exn e, w')"
  by (induction route arbitrary: w)
    (auto simp: py_bind_Exn_iff py_catch_Exn_iff split: if_splits)

lemma transit_append:
  "transit_to_session u (route @ route') timeout v w =
     py_bind (transit_to_session u route timeout v)
       (\<lambda>ok. if ok then transit_to_session u route' timeout v else py_ret False) w"
proof (induction route arbitrary: w)
  case Nil
  then show ?case by (simp add: py_bind_def)
next
  case (Cons s route)
  then show ?case
    by (auto simp: py_bind_def split: prod.splits res.splits)
qed



text \<open>
  Writing an identifier given as a string sends the bytes the string spells in hex, and a string
  that is not hex is refused before anything is sent; a value that is neither a string nor bytes
  raises \<open>ValueError\<close>. The hypothesis is what \<open>udsoncan\<close> documents of a codec: its \<open>encode\<close> makes
  the data record, and when it raises, so does \<open>make_request\<close>. Every value read back as a hex string
  can be written again: encoding inverts decoding.
\<close>

theorem write_did_codec:
  assumes "\<And>did v codec e. codec v = Inl e \<Longrightarrow> make_request (uds_lib u) (MakeWriteDid did v codec) = Inl e"
  shows "(hex_string_encode (StrValue txt) = Inl e \<longrightarrow> write_did u did (StrValue txt) timeout w = (Exn e, w)) \<and>
     (\<exists>m. write_did u did OtherValue timeout w = (Exn (ValueError m), w)) \<and>
     hex_string_encode (StrValue (hex_string_decode b)) = Inr b \<and>
     raw_bytes_encode (BytesValue (raw_bytes_decode b)) = Inr b"
  using assms [of hex_string_encode "StrValue txt" e did]
  by (auto simp: write_did_def Let_def uds_service_def uds_exchange_def py_bind_def
      hex_string_encode_def hex_string_decode_def bytes_fromhex_hex raw_bytes_encode_def
      raw_bytes_decode_def)

definition codec_lib :: uds_lib where
  "codec_lib = demo_uds_lib\<lparr>make_request := (\<lambda>c. case c of
       MakeWriteDid did v codec \<Rightarrow>
         (case codec v of
            Inl e \<Rightarrow> Inl e
          | Inr d \<Rightarrow> Inr \<lparr>request_response_id = 0x6E, get_payload = [0x2E] @ be_digits 2 did @ d\<rparr>)
     | _ \<Rightarrow> Inl (ValueError ''unsupported''))\<rparr>"

theorem write_did_codec_witness:
  "\<exists>e. write_did (isotp_uds 1 codec_lib demo_crypto) 0xF190 (StrValue ''0g'') 2 demo_link = (Exn e, demo_link)"
proof -
  obtain e where "hex_string_encode (StrValue ''0g'') = Inl e"
    by (simp add: hex_string_encode_def is_ascii_space_def hex_val_def digit_val_def)
  moreover have "make_request (uds_lib (isotp_uds 1 codec_lib demo_crypto)) (MakeWriteDid did v codec) = Inl e"
    if "codec v = Inl e" for did v codec e
    using that by (simp add: codec_lib_def)
  ultimately show ?thesis
    using write_did_codec [of "isotp_uds 1 codec_lib demo_crypto" "''0g''" e "0xF190" 2 demo_link "[]"]
    by auto
qed

end
