(* ===== verification/Raw_Sockets.thy ===== *)
theory Raw_Sockets
  imports Communicator
begin

section \<open>Raw sockets\<close>

text \<open>
  Models \<open>RawSocketCommunicatorBase\<close> (\<open>communication/ip/base/raw_socket_base.py\<close>) and its two
  subclasses in \<open>communication/ip/raw/raw_socket.py\<close>. A packet of \<open>py_pcapplusplus\<close> is the list of
  its layers. The sockets are scripts: what \<open>receive_packet\<close> and \<open>sniff\<close> give next and how sending
  ends. The coroutine that looks for answers runs after the packets are sent: it is created before
  but the event loop only starts it in \<open>run_until_complete\<close>.

  The interface a client relies on is the locale \<open>packet_link\<close>: what \<open>send_receive_packet\<close> returns
  satisfies the predicate it was called with. Both sockets are interpretations of it.
\<close>

datatype layer =
    IPv4Layer string string
  | IPv6Layer string string
  | UdpLayer int int
  | TcpLayer int int
  | PayloadLayer bytes
  | OtherLayer string

type_synonym packet = "layer list"

datatype LayerType = IPv4LayerType | IPv6LayerType | UdpLayerType | TcpLayerType | PayloadLayerType | OtherLayerType

fun layer_type :: "layer \<Rightarrow> LayerType" where
  "layer_type (IPv4Layer _ _) = IPv4LayerType"
| "layer_type (IPv6Layer _ _) = IPv6LayerType"
| "layer_type (UdpLayer _ _) = UdpLayerType"
| "layer_type (TcpLayer _ _) = TcpLayerType"
| "layer_type (PayloadLayer _) = PayloadLayerType"
| "layer_type (OtherLayer _) = OtherLayerType"

definition get_layer :: "packet \<Rightarrow> LayerType \<Rightarrow> layer option" where
  "get_layer p t = find (\<lambda>l. layer_type l = t) p"

datatype packet_arg = NoPacket | OnePacket packet | ManyPackets "packet list"

datatype IpVersion = IPv4 | IPv6

text \<open>The callback that recognises an answer; it may raise.\<close>

type_synonym is_answer = "packet \<Rightarrow> exn + bool"

locale packet_link =
  fixes send_receive :: "packet_arg \<Rightarrow> is_answer \<Rightarrow> rat \<Rightarrow> ('w, packet option) py"
  assumes answer_accepted: "send_receive a f t w = (Val (Some p), w') \<Longrightarrow> f p = Inr True"

subsection \<open>The layer 2 socket\<close>

record l2_world = timed +
  l2_open :: bool
  l2_error :: "exn option"
  l2_rx :: "packet option list"
  l2_tx :: "bool list"
  l2_log :: "packet list"

definition l2_open_socket :: "('a l2_world_scheme, bool) py" where
  "l2_open_socket = (\<lambda>w. case l2_error w of
       Some e \<Rightarrow> (Exn e, w)
     | None \<Rightarrow> (Val True, w\<lparr>l2_open := True\<rparr>))"

definition l2_close :: "('a l2_world_scheme, bool) py" where
  "l2_close = (\<lambda>w. (Val True, w\<lparr>l2_open := False\<rparr>))"

definition l2_is_open :: "('a l2_world_scheme, bool) py" where
  "l2_is_open = py_get l2_open"

text \<open>\<open>__del__\<close>: a socket that is collected while it is open is closed.\<close>

definition l2_del :: "('a l2_world_scheme, unit) py" where
  "l2_del = py_bind l2_is_open (\<lambda>b. if b then py_seq l2_close (py_ret ()) else py_ret ())"

text \<open>\<open>RawSocket.send_packet\<close> and \<open>send_packets\<close>: the script says whether the next call succeeds.\<close>

definition l2_transmit :: "packet list \<Rightarrow> ('a l2_world_scheme, bool) py" where
  "l2_transmit ps = (\<lambda>w. case l2_tx w of
       [] \<Rightarrow> (Val True, w\<lparr>l2_log := l2_log w @ ps\<rparr>)
     | ok # s \<Rightarrow> (Val ok, if ok then w\<lparr>l2_tx := s, l2_log := l2_log w @ ps\<rparr> else w\<lparr>l2_tx := s\<rparr>))"

definition l2_send_packet :: "packet \<Rightarrow> ('a l2_world_scheme, bool) py" where
  "l2_send_packet p =
     py_bind l2_is_open (\<lambda>b. if b then l2_transmit [p] else py_ret False)"

definition l2_send_packets :: "packet list \<Rightarrow> ('a l2_world_scheme, bool) py" where
  "l2_send_packets ps =
     py_bind l2_is_open (\<lambda>b. if b then l2_transmit ps else py_ret False)"

text \<open>\<open>send\<close> of the base class; a \<open>None\<close> packet goes to \<open>send_packet\<close>.\<close>

definition l2_send :: "packet_arg \<Rightarrow> ('a l2_world_scheme, bool) py" where
  "l2_send a =
     py_bind l2_is_open (\<lambda>b.
       if b
       then (case a of
               ManyPackets ps \<Rightarrow> l2_send_packets ps
             | OnePacket p \<Rightarrow> l2_send_packet p
             | NoPacket \<Rightarrow> py_raise (TypeError ''incompatible function arguments''))
       else py_ret False)"

definition l2_receive_packet :: "('a l2_world_scheme, packet option) py" where
  "l2_receive_packet = (\<lambda>w. case l2_rx w of
       [] \<Rightarrow> (Val None, w)
     | r # s \<Rightarrow> (Val r, w\<lparr>l2_rx := s\<rparr>))"

text \<open>
  The coroutine \<open>find_packet\<close>, one unit of fuel for each round. A round that goes on has received a
  packet, so the number of results that are still to come is enough.
\<close>

fun find_packet_loop ::
  "nat \<Rightarrow> is_answer \<Rightarrow> nat \<Rightarrow> rat \<Rightarrow> rat \<Rightarrow> rat \<Rightarrow> packet list \<Rightarrow> ('a l2_world_scheme, packet list) py" where
  "find_packet_loop 0 f max_answers timeout start time_spent found = py_diverge"
| "find_packet_loop (Suc fuel) f max_answers timeout start time_spent found =
     (if \<not> time_spent < timeout then py_ret found
      else py_bind l2_receive_packet (\<lambda>r.
        case r of
          None \<Rightarrow> py_ret found
        | Some p \<Rightarrow> py_bind (py_lift (f p)) (\<lambda>ok.
            let found' = (if ok then found @ [p] else found) in
            if ok \<and> max_answers \<noteq> 0 \<and> max_answers \<le> length found' then py_ret found'
            else py_bind time_now (\<lambda>t.
              find_packet_loop fuel f max_answers timeout start (t - start) found'))))"

definition has_packets :: "packet_arg \<Rightarrow> bool" where
  "has_packets a = (case a of NoPacket \<Rightarrow> False | OnePacket _ \<Rightarrow> True | ManyPackets ps \<Rightarrow> ps \<noteq> [])"

definition closed_socket :: exn where
  "closed_socket = LibraryError ''Attempt to use a closed Layer2 Raw Socket.''"

definition l2_send_receive ::
  "packet_arg \<Rightarrow> is_answer \<Rightarrow> rat \<Rightarrow> nat \<Rightarrow> ('a l2_world_scheme, packet list) py" where
  "l2_send_receive a f timeout max_answers =
     py_bind l2_is_open (\<lambda>b.
       if b
       then py_seq (if has_packets a then l2_send a else py_ret False)
              (py_bind time_now (\<lambda>start.
                 py_bind (py_get (\<lambda>w. length (l2_rx w))) (\<lambda>n.
                   find_packet_loop (Suc n) f max_answers timeout start 0 [])))
       else py_raise closed_socket)"

definition first_packet :: "packet list \<Rightarrow> packet option" where
  "first_packet ps = (case ps of [] \<Rightarrow> None | p # _ \<Rightarrow> Some p)"

definition l2_send_receive_packet ::
  "packet_arg \<Rightarrow> is_answer \<Rightarrow> rat \<Rightarrow> ('a l2_world_scheme, packet option) py" where
  "l2_send_receive_packet a f timeout =
     py_bind (l2_send_receive a f timeout 1) (\<lambda>found. py_ret (first_packet found))"

definition l2_send_receive_packets ::
  "packet_arg \<Rightarrow> is_answer \<Rightarrow> rat \<Rightarrow> ('a l2_world_scheme, packet list) py" where
  "l2_send_receive_packets a f timeout = l2_send_receive a f timeout 0"

definition l2_receive :: "rat \<Rightarrow> ('a l2_world_scheme, packet option) py" where
  "l2_receive timeout =
     py_bind l2_is_open (\<lambda>b.
       if b
       then (if timeout > 0 then l2_receive_packet
             else (\<lambda>w. if l2_rx w = [] then (Diverge, w) else l2_receive_packet w))
       else py_raise closed_socket)"

definition l2_receive_answer :: "is_answer \<Rightarrow> rat \<Rightarrow> ('a l2_world_scheme, packet option) py" where
  "l2_receive_answer f timeout = l2_send_receive_packet NoPacket f timeout"

definition l2_receive_answers :: "is_answer \<Rightarrow> rat \<Rightarrow> ('a l2_world_scheme, packet list) py" where
  "l2_receive_answers f timeout = l2_send_receive_packets NoPacket f timeout"

subsection \<open>The layer 3 socket\<close>

record l3_world =
  l3_version :: IpVersion
  l3_in :: bool
  l3_out :: bool
  l3_error :: "(exn \<times> bool) option"
  l3_sniffs :: "packet list list"
  l3_rx :: "packet option list"
  l3_tx :: "(exn + int) list"
  l3_log :: "(packet \<times> string) list"

text \<open>
  \<open>l3_error\<close>: what opening raises, and whether the sending socket is in its attribute by then; making it
  may raise, and so may binding it or opening the sniffing socket.
\<close>

definition l3_open :: "('a l3_world_scheme, bool) py" where
  "l3_open = (\<lambda>w. case l3_error w of
       Some (e, made) \<Rightarrow> (Exn e, w\<lparr>l3_out := l3_out w \<or> made\<rparr>)
     | None \<Rightarrow> (Val True, w\<lparr>l3_out := True, l3_in := True\<rparr>))"

text \<open>The sending socket stays in its attribute after it is closed, so \<open>l3_out\<close> stays.\<close>

definition l3_close :: "('a l3_world_scheme, bool) py" where
  "l3_close = (\<lambda>w.
     let w1 = w\<lparr>l3_in := False\<rparr>
     in if l3_out w1 then (Val True, w1) else (Exn (AttributeError ''close''), w1))"

definition l3_is_open :: "('a l3_world_scheme, bool) py" where
  "l3_is_open = py_get l3_in"

definition l3_del :: "('a l3_world_scheme, unit) py" where
  "l3_del = py_bind l3_is_open (\<lambda>b. if b then py_seq l3_close (py_ret ()) else py_ret ())"

text \<open>\<open>sendto\<close>: the number of bytes sent, by the script (1 past its end).\<close>

definition l3_sendto :: "packet \<Rightarrow> string \<Rightarrow> ('a l3_world_scheme, int) py" where
  "l3_sendto p dst = (\<lambda>w. case l3_tx w of
       [] \<Rightarrow> (Val 1, w\<lparr>l3_log := l3_log w @ [(p, dst)]\<rparr>)
     | Inl e # s \<Rightarrow> (Exn e, w\<lparr>l3_tx := s\<rparr>)
     | Inr n # s \<Rightarrow> (Val n, w\<lparr>l3_tx := s, l3_log := l3_log w @ [(p, dst)]\<rparr>))"

definition l3_destination :: "IpVersion \<Rightarrow> packet \<Rightarrow> string option" where
  "l3_destination v p =
     (case v of
        IPv4 \<Rightarrow> (case get_layer p IPv4LayerType of Some (IPv4Layer _ dst) \<Rightarrow> Some dst | _ \<Rightarrow> None)
      | IPv6 \<Rightarrow> (case get_layer p IPv6LayerType of Some (IPv6Layer _ dst) \<Rightarrow> Some dst | _ \<Rightarrow> None))"

text \<open>The result is 0 for \<open>False\<close>, and otherwise what \<open>sendto\<close> returns.\<close>

definition l3_send_packet :: "packet \<Rightarrow> ('a l3_world_scheme, int) py" where
  "l3_send_packet p =
     py_bind l3_is_open (\<lambda>b.
       if \<not> b then py_ret 0
       else py_bind (py_get l3_version) (\<lambda>v.
         case l3_destination v p of
           None \<Rightarrow> py_ret 0
         | Some dst \<Rightarrow> l3_sendto p dst))"

fun l3_send_packets :: "packet list \<Rightarrow> ('a l3_world_scheme, int) py" where
  "l3_send_packets [] = py_ret 1"
| "l3_send_packets (p # ps) =
     py_bind (l3_send_packet p) (\<lambda>n. if n = 0 then py_ret 0 else l3_send_packets ps)"

definition l3_send :: "packet_arg \<Rightarrow> ('a l3_world_scheme, int) py" where
  "l3_send a =
     py_bind l3_is_open (\<lambda>b.
       if b
       then (case a of
               ManyPackets ps \<Rightarrow> l3_send_packets ps
             | OnePacket p \<Rightarrow> l3_send_packet p
             | NoPacket \<Rightarrow> py_raise (AttributeError ''get_layer''))
       else py_ret 0)"

text \<open>\<open>in_socket.sniff(timeout)\<close>: the packets of the next sniff; without a socket it raises.\<close>

definition l3_sniff :: "('a l3_world_scheme, packet list) py" where
  "l3_sniff = (\<lambda>w.
     if \<not> l3_in w then (Exn (AttributeError ''sniff''), w)
     else case l3_sniffs w of
       [] \<Rightarrow> (Val [], w)
     | ps # s \<Rightarrow> (Val ps, w\<lparr>l3_sniffs := s\<rparr>))"

fun filter_answers :: "is_answer \<Rightarrow> packet list \<Rightarrow> exn + packet list" where
  "filter_answers f [] = Inr []"
| "filter_answers f (p # ps) =
     (case f p of
        Inl e \<Rightarrow> Inl e
      | Inr ok \<Rightarrow> (case filter_answers f ps of
          Inl e \<Rightarrow> Inl e
        | Inr qs \<Rightarrow> Inr (if ok then p # qs else qs)))"

definition l3_send_receive_packets ::
  "packet_arg \<Rightarrow> is_answer \<Rightarrow> rat \<Rightarrow> ('a l3_world_scheme, packet list) py" where
  "l3_send_receive_packets a f timeout =
     py_seq (l3_send a) (py_bind l3_sniff (\<lambda>ps. py_lift (filter_answers f ps)))"

definition l3_send_receive_packet ::
  "packet_arg \<Rightarrow> is_answer \<Rightarrow> rat \<Rightarrow> ('a l3_world_scheme, packet option) py" where
  "l3_send_receive_packet a f timeout =
     py_bind (l3_send_receive_packets a f timeout) (\<lambda>found. py_ret (first_packet found))"

definition l3_receive :: "rat \<Rightarrow> ('a l3_world_scheme, packet option) py" where
  "l3_receive timeout = (\<lambda>w.
     if \<not> l3_in w then (Val None, w)
     else case l3_rx w of
       [] \<Rightarrow> (Val None, w)
     | r # s \<Rightarrow> (Val r, w\<lparr>l3_rx := s\<rparr>))"

definition l3_receive_answer :: "is_answer \<Rightarrow> rat \<Rightarrow> ('a l3_world_scheme, packet option) py" where
  "l3_receive_answer f timeout = l3_send_receive_packet NoPacket f timeout"

definition l3_receive_answers :: "is_answer \<Rightarrow> rat \<Rightarrow> ('a l3_world_scheme, packet list) py" where
  "l3_receive_answers f timeout = l3_send_receive_packets NoPacket f timeout"

subsection \<open>What the sockets give\<close>

text \<open>The packets of a stretch of results that are answers, in order.\<close>

definition answers_in :: "is_answer \<Rightarrow> packet option list \<Rightarrow> packet list" where
  "answers_in f rs = filter (\<lambda>p. f p = Inr True) (concat (map (\<lambda>r. case r of None \<Rightarrow> [] | Some p \<Rightarrow> [p]) rs))"

lemma answers_in_simps [simp]:
  "answers_in f [] = []"
  "answers_in f (None # rs) = answers_in f rs"
  "answers_in f (Some p # rs) = (if f p = Inr True then p # answers_in f rs else answers_in f rs)"
  by (simp_all add: answers_in_def)

lemma l2_receive_packet_cases:
  obtains "l2_rx w = []" "l2_receive_packet w = (Val None, w)"
    | s where "l2_rx w = None # s" "l2_receive_packet w = (Val None, w\<lparr>l2_rx := s\<rparr>)"
    | p s where "l2_rx w = Some p # s" "l2_receive_packet w = (Val (Some p), w\<lparr>l2_rx := s\<rparr>)"
proof (cases "l2_rx w")
  case Nil
  then show ?thesis by (simp add: that(1) l2_receive_packet_def)
next
  case (Cons r s)
  then show ?thesis by (cases r) (simp_all add: that(2,3) l2_receive_packet_def)
qed

lemma find_packet_loop_found:
  assumes "find_packet_loop fuel f 0 timeout start spent found w = (Val ps, w')"
  shows "\<exists>used. l2_rx w = used @ l2_rx w' \<and> ps = found @ answers_in f used"
  using assms
proof (induction fuel arbitrary: spent found w)
  case 0
  then show ?case by (simp add: py_diverge_def)
next
  case (Suc fuel)
  show ?case
  proof (cases "spent < timeout")
    case False
    with Suc.prems show ?thesis by (intro exI [where x = "[]"]) auto
  next
    case True
    show ?thesis
    proof (cases rule: l2_receive_packet_cases [of w])
      case 1
      with True Suc.prems show ?thesis
        by (intro exI [where x = "[]"]) (auto simp: run_bind_Val)
    next
      case (2 s)
      with True Suc.prems show ?thesis
        by (intro exI [where x = "[None]"]) (auto simp: run_bind_Val)
    next
      case (3 p s)
      then obtain ok where ok: "f p = Inr ok"
        using True Suc.prems by (cases "f p") (auto simp: run_bind_Val py_bind_def)
      define w1 where "w1 = w\<lparr>l2_rx := s, ticks := Suc (ticks w)\<rparr>"
      have "find_packet_loop fuel f 0 timeout start (clock w (ticks w) - start)
          (if ok then found @ [p] else found) w1 = (Val ps, w')"
        using True Suc.prems 3 ok by (simp add: run_bind_Val py_bind_def w1_def)
      from Suc.IH [OF this] obtain used where "s = used @ l2_rx w'"
        "ps = (if ok then found @ [p] else found) @ answers_in f used"
        by (auto simp: w1_def)
      then show ?thesis
        using 3 ok by (intro exI [where x = "Some p # used"]) auto
    qed
  qed
qed

lemma find_packet_loop_first:
  assumes "find_packet_loop fuel f 1 timeout start spent [] w = (Val ps, w')"
  shows "\<exists>used. l2_rx w = used @ l2_rx w' \<and> ps = answers_in f used \<and> length ps \<le> 1"
  using assms
proof (induction fuel arbitrary: spent w)
  case 0
  then show ?case by (simp add: py_diverge_def)
next
  case (Suc fuel)
  show ?case
  proof (cases "spent < timeout")
    case False
    with Suc.prems show ?thesis by (intro exI [where x = "[]"]) auto
  next
    case True
    show ?thesis
    proof (cases rule: l2_receive_packet_cases [of w])
      case 1
      with True Suc.prems show ?thesis
        by (intro exI [where x = "[]"]) (auto simp: run_bind_Val)
    next
      case (2 s)
      with True Suc.prems show ?thesis
        by (intro exI [where x = "[None]"]) (auto simp: run_bind_Val)
    next
      case (3 p s)
      then obtain ok where ok: "f p = Inr ok"
        using True Suc.prems by (cases "f p") (auto simp: run_bind_Val py_bind_def)
      show ?thesis
      proof (cases ok)
        case True
        then show ?thesis
          using \<open>spent < timeout\<close> Suc.prems 3 ok
          by (intro exI [where x = "[Some p]"]) (auto simp: run_bind_Val py_bind_def)
      next
        case False
        define w1 where "w1 = w\<lparr>l2_rx := s, ticks := Suc (ticks w)\<rparr>"
        have "find_packet_loop fuel f 1 timeout start (clock w (ticks w) - start) [] w1 = (Val ps, w')"
          using True Suc.prems 3 ok False by (simp add: run_bind_Val py_bind_def w1_def)
        from Suc.IH [OF this] obtain used where "s = used @ l2_rx w'"
          "ps = answers_in f used" "length ps \<le> 1"
          by (auto simp: w1_def)
        then show ?thesis
          using 3 ok False by (intro exI [where x = "Some p # used"]) auto
      qed
    qed
  qed
qed

lemma find_packet_loop_returns:
  "length (l2_rx w) < fuel \<Longrightarrow> returns (find_packet_loop fuel f m timeout start spent found) w"
proof (induction fuel arbitrary: spent found w)
  case 0
  then show ?case by simp
next
  case (Suc fuel)
  show ?case
  proof (cases rule: l2_receive_packet_cases [of w])
    case (3 p s)
    show ?thesis
    proof (cases "f p")
      case (Inl e)
      with 3 show ?thesis by (auto simp: returns_def py_bind_def)
    next
      case (Inr ok)
      have "returns (find_packet_loop fuel f m timeout start (clock w (ticks w) - start) fd)
          (w\<lparr>l2_rx := s, ticks := Suc (ticks w)\<rparr>)" for fd
        using Suc.prems 3 by (intro Suc.IH) simp
      with 3 Inr show ?thesis by (auto simp: returns_def py_bind_def Let_def)
    qed
  qed (auto simp: returns_def py_bind_def)
qed

declare find_packet_loop.simps(2) [simp del]

lemma l2_send_frame:
  "l2_send a w = (r, w') \<Longrightarrow> l2_rx w' = l2_rx w \<and> r \<noteq> Diverge \<and> clock w' = clock w"
  by (auto simp: l2_send_def l2_is_open_def l2_send_packet_def l2_send_packets_def l2_transmit_def
      py_bind_def split: packet_arg.splits list.splits if_splits)

lemma l2_send_receive_run:
  assumes "l2_send_receive a f timeout m w = (Val ps, w')"
  obtains w1 start n where "l2_rx w1 = l2_rx w"
    and "find_packet_loop n f m timeout start 0 [] w1 = (Val ps, w')"
proof -
  define rest where "rest = py_bind (time_now :: ('a l2_world_scheme, rat) py) (\<lambda>start.
     py_bind (py_get (\<lambda>w. length (l2_rx w))) (\<lambda>n. find_packet_loop (Suc n) f m timeout start 0 []))"
  from assms obtain v where v: "l2_rx v = l2_rx w" "rest v = (Val ps, w')"
    unfolding rest_def
    by (cases "has_packets a")
      (auto simp: l2_send_receive_def l2_is_open_def py_bind_Val_iff [of "py_get l2_open"] py_seq_Val_iff
        split: if_splits dest!: l2_send_frame)
  then show ?thesis
    unfolding rest_def by (intro that [of "v\<lparr>ticks := Suc (ticks v)\<rparr>"]) (auto simp: run_bind_Val)
qed

lemma l2_answer_accepted:
  assumes "l2_send_receive_packet a f t w = (Val (Some p), w')"
  shows "f p = Inr True"
proof -
  from assms obtain ps where run: "l2_send_receive a f t 1 w = (Val ps, w')" and "first_packet ps = Some p"
    by (auto simp: l2_send_receive_packet_def py_bind_Val_iff)
  then obtain rest where ps: "ps = p # rest"
    by (auto simp: first_packet_def split: list.splits)
  from l2_send_receive_run [OF run] obtain used where "ps = answers_in f used"
    by (metis find_packet_loop_first)
  with ps have "p \<in> set (answers_in f used)" by simp
  then show ?thesis by (simp add: answers_in_def)
qed

lemma filter_answers_eq: "filter_answers f ps = Inr qs \<Longrightarrow> qs = filter (\<lambda>p. f p = Inr True) ps"
  by (induction ps arbitrary: qs) (auto split: sum.splits)

lemma l3_answer_accepted:
  assumes "l3_send_receive_packet a f t w = (Val (Some p), w')"
  shows "f p = Inr True"
proof -
  from assms obtain ps qs where "filter_answers f ps = Inr qs" "first_packet qs = Some p"
    by (auto simp: l3_send_receive_packet_def l3_send_receive_packets_def py_bind_Val_iff
        py_seq_Val_iff py_lift_Val_iff)
  then have "p \<in> set qs" "qs = filter (\<lambda>p. f p = Inr True) ps"
    using filter_answers_eq by (auto simp: first_packet_def split: list.splits)
  then show ?thesis by simp
qed

interpretation l2: packet_link l2_send_receive_packet
  by unfold_locales (rule l2_answer_accepted)

interpretation l3: packet_link l3_send_receive_packet
  by unfold_locales (rule l3_answer_accepted)

subsection \<open>Properties\<close>

text \<open>
  Collecting answers on an open layer 2 socket always returns or raises, and the packets it
  returns are exactly the answers among the packets it received, in order; asking for one answer
  gives the first one received, and receives nothing after it.
\<close>

theorem l2_collects_answers:
  assumes "l2_open w"
  shows "returns (l2_send_receive_packets a f timeout) w \<and>
     (\<forall>ps w'. l2_send_receive_packets a f timeout w = (Val ps, w') \<longrightarrow>
        (\<exists>used. l2_rx w = used @ l2_rx w' \<and> ps = answers_in f used)) \<and>
     (\<forall>r w'. l2_send_receive_packet a f timeout w = (Val r, w') \<longrightarrow>
        (\<exists>used. l2_rx w = used @ l2_rx w' \<and> r = first_packet (answers_in f used) \<and>
           length (answers_in f used) \<le> 1))"
proof (intro conjI allI impI)
  have send: "returns (l2_send a) v" for v :: "'a l2_world_scheme"
    using l2_send_frame [of a v] by (cases "l2_send a v") (auto simp: returns_def)
  show "returns (l2_send_receive_packets a f timeout) w"
    using send
    by (auto simp: l2_send_receive_packets_def l2_send_receive_def l2_is_open_def
        intro!: returns_bind returns_seq find_packet_loop_returns)
  show "\<exists>used. l2_rx w = used @ l2_rx w' \<and> ps = answers_in f used"
    if "l2_send_receive_packets a f timeout w = (Val ps, w')" for ps w'
    using l2_send_receive_run [OF that [unfolded l2_send_receive_packets_def]]
    by (metis append_Nil find_packet_loop_found)
  show "\<exists>used. l2_rx w = used @ l2_rx w' \<and> r = first_packet (answers_in f used) \<and>
      length (answers_in f used) \<le> 1"
    if run: "l2_send_receive_packet a f timeout w = (Val r, w')" for r w'
  proof -
    obtain ps where ps: "l2_send_receive a f timeout 1 w = (Val ps, w')" "r = first_packet ps"
      using run by (auto simp: l2_send_receive_packet_def py_bind_Val_iff)
    show ?thesis
      using l2_send_receive_run [OF ps(1)] ps(2) by (metis find_packet_loop_first)
  qed
qed

definition demo_l2 :: l2_world where
  "demo_l2 =
     \<lparr>clock = (\<lambda>_. 0), ticks = 0, l2_open = True, l2_error = None,
      l2_rx = [Some [UdpLayer 1 2], Some [UdpLayer 1 3], None], l2_tx = [], l2_log = []\<rparr>"

theorem l2_collects_answers_witness:
  "returns (l2_send_receive_packets (OnePacket [UdpLayer 3 1]) (\<lambda>p. Inr (p = [UdpLayer 1 3])) 1) demo_l2 \<and>
   (\<exists>w'. l2_send_receive_packet (OnePacket [UdpLayer 3 1]) (\<lambda>p. Inr (p = [UdpLayer 1 3])) 1 demo_l2 =
      (Val (Some [UdpLayer 1 3]), w'))"
proof -
  have "l2_open demo_l2" by (simp add: demo_l2_def)
  moreover obtain w' where "l2_send_receive_packet (OnePacket [UdpLayer 3 1])
      (\<lambda>p. Inr (p = [UdpLayer 1 3])) 1 demo_l2 = (Val (Some [UdpLayer 1 3]), w')"
    by (simp add: demo_l2_def l2_send_receive_packet_def l2_send_receive_def l2_is_open_def
        has_packets_def find_packet_loop.simps(2) l2_send_def l2_send_packet_def l2_transmit_def py_defs l2_receive_packet_def
        time_now_def first_packet_def)
  ultimately show ?thesis
    using l2_collects_answers by blast
qed

text \<open>
  On a layer 3 socket the calls that only receive answers never work: \<open>receive_answer\<close> and
  \<open>receive_answers\<close> pass \<open>None\<close> as the packet to send, which on an open socket raises
  \<open>AttributeError\<close> before anything is sniffed, and on a closed one the missing sniffing socket
  does. With a packet of the socket's version the call sends it, to the packet's own destination,
  and returns the answers of the next sniff.
\<close>

theorem l3_receive_answer_raises:
  "(\<exists>m w'. l3_receive_answer f timeout w = (Exn (AttributeError m), w') \<and> l3_sniffs w' = l3_sniffs w) \<and>
   (\<exists>m w'. l3_receive_answers f timeout w = (Exn (AttributeError m), w') \<and> l3_sniffs w' = l3_sniffs w) \<and>
   (l3_in w \<and> l3_destination (l3_version w) p = Some dst \<and> l3_tx w = [] \<and> l3_sniffs w = ps # s \<and>
      filter_answers f ps = Inr qs \<longrightarrow>
    (\<exists>w'. l3_send_receive_packets (OnePacket p) f timeout w = (Val qs, w') \<and>
      l3_log w' = l3_log w @ [(p, dst)] \<and> qs = filter (\<lambda>p. f p = Inr True) ps))"
  using filter_answers_eq
  by (auto simp: l3_receive_answer_def l3_receive_answers_def l3_send_receive_packet_def
      l3_send_receive_packets_def l3_send_def l3_is_open_def l3_sniff_def l3_send_packet_def
      l3_sendto_def py_defs)

definition demo_l3 :: l3_world where
  "demo_l3 =
     \<lparr>l3_version = IPv4, l3_in = True, l3_out = True, l3_error = None,
      l3_sniffs = [[[IPv4Layer ''b'' ''a''], [UdpLayer 1 3]]], l3_rx = [], l3_tx = [], l3_log = []\<rparr>"

theorem l3_receive_answer_raises_witness:
  "(\<exists>w'. l3_send_receive_packets (OnePacket [IPv4Layer ''a'' ''b'']) (\<lambda>p. Inr (get_layer p UdpLayerType \<noteq> None))
      1 demo_l3 = (Val [[UdpLayer 1 3]], w') \<and> l3_log w' = [([IPv4Layer ''a'' ''b''], ''b'')])"
proof -
  let ?f = "\<lambda>p. Inr (get_layer p UdpLayerType \<noteq> None) :: exn + bool"
  have "l3_in demo_l3" "l3_destination (l3_version demo_l3) [IPv4Layer ''a'' ''b''] = Some ''b''"
    "l3_tx demo_l3 = []" "l3_sniffs demo_l3 = [[IPv4Layer ''b'' ''a''], [UdpLayer 1 3]] # []"
    "filter_answers ?f [[IPv4Layer ''b'' ''a''], [UdpLayer 1 3]] = Inr [[UdpLayer 1 3]]"
    "l3_log demo_l3 = []"
    by (simp_all add: demo_l3_def l3_destination_def get_layer_def)
  then show ?thesis
    using l3_receive_answer_raises [of ?f 1 demo_l3] by (metis append_Nil)
qed

end
