(* ===== verification/Doip_Requests.thy ===== *)
theory Doip_Requests
  imports Doip_Utils Raw_Sockets
begin

section \<open>DoIP requests over raw sockets, and the cache of connections\<close>

text \<open>
  Models the methods of \<open>DoipUtils\<close> (\<open>protocol/doip/impl/doip_utils.py\<close>) that build packets and
  send them over the raw socket, the callback \<open>_is_answer\<close> they pass to it, and the cache of TCP
  communicators. The requests are written against the interface \<open>packet_link\<close>; the theorems are
  about the layer 3 socket.
\<close>

record ip_address =
  ip_version :: int
  ip_text :: string

datatype doip_type = VehicleIdentificationResponseType | EntityStatusResponseType

definition has_type :: "doip_message option \<Rightarrow> doip_type \<Rightarrow> bool" where
  "has_type r t =
     (case r of
        Some (VehicleIdentificationResponse _) \<Rightarrow> t = VehicleIdentificationResponseType
      | Some (EntityStatusResponse _) \<Rightarrow> t = EntityStatusResponseType
      | _ \<Rightarrow> False)"

subsection \<open>Recognising an answer\<close>

definition doip_is_answer :: "'p doip_lib \<Rightarrow> int \<Rightarrow> LayerType \<Rightarrow> doip_type \<Rightarrow> is_answer" where
  "doip_is_answer lib expected_source_port l4_type expected_resp_type other =
     (let payload_layer = get_layer other PayloadLayerType;
          port = (if l4_type = TcpLayerType
                  then Inr (case get_layer other TcpLayerType of
                              Some (TcpLayer _ dst_port) \<Rightarrow> Some dst_port | _ \<Rightarrow> None)
                  else if l4_type = UdpLayerType
                  then Inr (case get_layer other UdpLayerType of
                              Some (UdpLayer _ dst_port) \<Rightarrow> Some dst_port | _ \<Rightarrow> None)
                  else Inl (RuntimeError ''Unsupported layer 4 type received''))
      in case port of
           Inl e \<Rightarrow> Inl e
         | Inr received_dst_port \<Rightarrow>
             (case (received_dst_port, payload_layer) of
                (Some p, Some (PayloadLayer b)) \<Rightarrow>
                  if p \<noteq> 0 \<and> p = expected_source_port
                  then (case read_message lib (parser_new lib) b of
                          (Inl e, _) \<Rightarrow> Inl e
                        | (Inr r, _) \<Rightarrow> Inr (has_type r expected_resp_type))
                  else Inr False
              | _ \<Rightarrow> Inr False))"

subsection \<open>The requests\<close>

definition doip_packet :: "ip_address \<Rightarrow> int \<Rightarrow> ip_address \<Rightarrow> bytes \<Rightarrow> packet" where
  "doip_packet source_address source_port target_address data =
     [if ip_version source_address = 4
      then IPv4Layer (ip_text source_address) (ip_text target_address)
      else IPv6Layer (ip_text source_address) (ip_text target_address),
      UdpLayer source_port DOIP_PORT, PayloadLayer data]"

text \<open>What is read out of the answer: \<open>bytes\<close> of a missing layer is a \<open>TypeError\<close>.\<close>

definition doip_answer :: "'p doip_lib \<Rightarrow> doip_type \<Rightarrow> packet option \<Rightarrow> exn + doip_message option" where
  "doip_answer lib expected_resp_type resp_packet =
     (case resp_packet of
        None \<Rightarrow> Inr None
      | Some p \<Rightarrow>
          (case get_layer p PayloadLayerType of
             Some (PayloadLayer b) \<Rightarrow>
               (case read_message lib (parser_reset lib (parser_new lib)) b of
                  (Inl e, _) \<Rightarrow> Inl e
                | (Inr result, _) \<Rightarrow> Inr (if has_type result expected_resp_type then result else None))
           | _ \<Rightarrow> Inl (TypeError ''cannot convert to bytes'')))"

definition doip_raw_request ::
  "'p doip_lib \<Rightarrow> (packet_arg \<Rightarrow> is_answer \<Rightarrow> rat \<Rightarrow> ('w, packet option) py) \<Rightarrow> ip_address \<Rightarrow> int \<Rightarrow>
     ip_address \<Rightarrow> DoipProtocolVersion \<Rightarrow> doip_message \<Rightarrow> doip_type \<Rightarrow> ('w, doip_message option) py" where
  "doip_raw_request lib send_receive source_address source_port target_address protocol_version
       message expected =
     (let is_answer_cb = doip_is_answer lib source_port UdpLayerType expected
      in py_bind (py_lift (pack_doip_message lib message protocol_version)) (\<lambda>data.
           py_bind (send_receive (OnePacket (doip_packet source_address source_port target_address data))
                      is_answer_cb (A_PROCESSING_TIME lib)) (\<lambda>resp_packet.
             py_lift (doip_answer lib expected resp_packet))))"

definition identity_message :: "bytes option \<Rightarrow> string option \<Rightarrow> doip_message" where
  "identity_message eid vin =
     (case (eid, vin) of
        (Some (b # bs), _) \<Rightarrow> VehicleIdentificationRequestWithEID (b # bs)
      | (_, Some (c # cs)) \<Rightarrow> VehicleIdentificationRequestWithVIN (c # cs)
      | _ \<Rightarrow> VehicleIdentificationRequest)"

definition initiate_vehicle_identity_req ::
  "'p doip_lib \<Rightarrow> ip_address \<Rightarrow> int \<Rightarrow> ip_address \<Rightarrow> DoipProtocolVersion \<Rightarrow> bytes option \<Rightarrow> string option \<Rightarrow>
     ('a l3_world_scheme, doip_message option) py" where
  "initiate_vehicle_identity_req lib source_address source_port target_address protocol_version eid vin =
     doip_raw_request lib l3_send_receive_packet source_address source_port target_address
       protocol_version (identity_message eid vin) VehicleIdentificationResponseType"

definition req_entity_status ::
  "'p doip_lib \<Rightarrow> ip_address \<Rightarrow> int \<Rightarrow> ip_address \<Rightarrow> DoipProtocolVersion \<Rightarrow>
     ('a l3_world_scheme, doip_message option) py" where
  "req_entity_status lib source_address source_port target_address protocol_version =
     doip_raw_request lib l3_send_receive_packet source_address source_port target_address
       protocol_version DoipEntityStatusRequest EntityStatusResponseType"

subsection \<open>The cache of connections\<close>

text \<open>
  One entry for each pair of addresses: \<open>conns\<close> holds the communicator to it (and the peer behind
  it), \<open>cached\<close> the keys of the dictionary.
\<close>

record doip_utils =
  conns :: "string \<Rightarrow> tcp_world"
  cached :: "string list"

definition on_conn :: "string \<Rightarrow> (tcp_world, 'a) py \<Rightarrow> ('b doip_utils_scheme, 'a) py" where
  "on_conn key m = (\<lambda>s. case m (conns s key) of (r, w) \<Rightarrow> (r, s\<lparr>conns := (conns s)(key := w)\<rparr>))"

definition new_connection :: "string \<Rightarrow> ('b doip_utils_scheme, bool) py" where
  "new_connection key =
     py_seq (on_conn key (py_modify (\<lambda>w. w\<lparr>sock := NoSocket, tcp_in := []\<rparr>)))
    (py_seq (on_conn key tcp_open)
    (py_seq (on_conn key tcp_connect)
    (py_seq (py_modify (\<lambda>s. s\<lparr>cached := (if key \<in> set (cached s) then cached s else cached s @ [key])\<rparr>))
            (py_ret False))))"

text \<open>Whether the communicator came from the cache.\<close>

definition get_tcp_communicator :: "string \<Rightarrow> ('b doip_utils_scheme, bool) py" where
  "get_tcp_communicator key =
     py_bind (py_get cached) (\<lambda>keys.
       if key \<in> set keys
       then py_bind (on_conn key tcp_is_open) (\<lambda>is_open.
         if is_open then py_ret True
         else py_bind (on_conn key tcp_is_open) (\<lambda>is_open'.
           py_seq (if \<not> is_open' then on_conn key tcp_close else py_ret True)
             (new_connection key)))
       else new_connection key)"

definition initiate_routing_activation_req ::
  "'p doip_lib \<Rightarrow> string \<Rightarrow> int \<Rightarrow> rat \<Rightarrow> int \<Rightarrow> DoipProtocolVersion \<Rightarrow> int option \<Rightarrow>
     ('b doip_utils_scheme, (int \<times> bytes) option) py" where
  "initiate_routing_activation_req lib key client_logical_address timeout activation_type
       protocol_version vm_specific =
     py_seq (get_tcp_communicator key)
       (on_conn key (initiate_routing_activation_req_bound lib time_now tcp_pending tcp_comm
          client_logical_address timeout activation_type protocol_version vm_specific))"

text \<open>\<open>teardown\<close>, after it has closed the raw socket.\<close>

definition doip_teardown_connections :: "('b doip_utils_scheme, bool) py" where
  "doip_teardown_connections =
     py_bind (py_get cached) (\<lambda>keys.
       py_seq (py_for keys (\<lambda>k. py_seq (on_conn k tcp_close) (py_ret ()))) (py_ret True))"

subsection \<open>Lemmas\<close>

lemma doip_answer_type: "doip_answer lib ty p = Inr r \<Longrightarrow> r = None \<or> has_type r ty"
  by (auto simp: doip_answer_def split: option.splits layer.splits prod.splits sum.splits if_splits)

lemma doip_raw_request_type:
  "doip_raw_request lib send_receive src port tgt v m ty w = (Val r, w') \<Longrightarrow> r = None \<or> has_type r ty"
  by (auto simp: doip_raw_request_def Let_def py_bind_Val_iff py_lift_Val_iff dest: doip_answer_type)

context packet_link
begin

text \<open>The branch that warns of an unexpected message is never taken.\<close>

lemma doip_raw_request_found:
  assumes "parser_reset lib (parser_new lib) = parser_new lib"
    and "send_receive a (doip_is_answer lib port UdpLayerType ty) t w = (Val (Some p), w')"
  shows "\<exists>r. doip_answer lib ty (Some p) = Inr r \<and> has_type r ty"
proof -
  have "doip_is_answer lib port UdpLayerType ty p = Inr True"
    using assms(2) by (rule answer_accepted)
  then obtain b where "get_layer p PayloadLayerType = Some (PayloadLayer b)"
    and "\<exists>r q. read_message lib (parser_new lib) b = (Inr r, q) \<and> has_type r ty"
    by (auto simp: doip_is_answer_def Let_def
        split: option.splits layer.splits prod.splits sum.splits if_splits)
  then show ?thesis
    using assms(1) by (auto simp: doip_answer_def)
qed

end

text \<open>A call on one connection leaves the others and the keys alone.\<close>

definition same_others :: "string \<Rightarrow> 'b doip_utils_scheme \<Rightarrow> 'b doip_utils_scheme \<Rightarrow> bool" where
  "same_others key s t \<longleftrightarrow> (\<forall>k. k \<noteq> key \<longrightarrow> conns t k = conns s k)"

lemma same_others_refl [intro!, simp]: "reflp (same_others key)"
  by (simp add: reflp_def same_others_def)

lemma same_others_trans [intro!, simp]: "transp (same_others key)"
  by (auto simp: transp_def same_others_def)

lemma on_conn_same_others [intro!, simp]: "moves (same_others key) (on_conn key m)"
  by (auto simp: moves_def same_others_def on_conn_def split: prod.splits)

lemma new_connection_same_others [intro!, simp]: "moves (same_others key) (new_connection key)"
  unfolding new_connection_def
  by (intro moves_seq moves_ret on_conn_same_others) (auto simp: moves_def same_others_def)

lemma get_tcp_same_others: "moves (same_others key) (get_tcp_communicator key)"
  by (auto simp: get_tcp_communicator_def intro!: moves_bind moves_seq)

lemma new_connection_run:
  assumes "new_connection key s = (Val b, t)"
  shows "b = False \<and> key \<in> set (cached t) \<and> sock (conns t key) = Connected \<and>
     tcp_log (conns t key) = tcp_log (conns s key) @ [Dialled]"
proof -
  let ?w = "(conns s key)\<lparr>sock := NoSocket, tcp_in := []\<rparr>"
  obtain r1 w1 where open1: "tcp_open ?w = (r1, w1)" by fastforce
  obtain r2 w2 where conn: "tcp_connect w1 = (r2, w2)" by fastforce
  have "r1 = Val True \<and> r2 = Val True \<and> conns t key = w2 \<and> b = False \<and> key \<in> set (cached t)"
    using assms open1 conn tcp_open_run [OF open1] tcp_connect_run [OF conn]
    by (auto simp: new_connection_def on_conn_def py_seq_def py_bind_def split: res.splits if_splits)
  then show ?thesis
    using tcp_open_run [OF open1] tcp_connect_run [OF conn] by auto
qed

subsection \<open>Properties\<close>

text \<open>
  A vehicle identification over the raw socket that gives a message gives a vehicle
  identification response, and an entity status request an entity status response. Whenever the
  socket finds a packet that the callback accepts, the request does give such a response: the
  branch for an unexpected message is never taken. The hypothesis is that resetting a fresh parser
  changes nothing.
\<close>

theorem doip_raw_requests_sound:
  assumes "parser_reset lib (parser_new lib) = parser_new lib"
  shows "(\<forall>r w'. initiate_vehicle_identity_req lib src port tgt v eid vin w = (Val r, w') \<longrightarrow>
       r = None \<or> has_type r VehicleIdentificationResponseType) \<and>
     (\<forall>r w'. req_entity_status lib src port tgt v w = (Val r, w') \<longrightarrow>
       r = None \<or> has_type r EntityStatusResponseType) \<and>
     (\<forall>d p w'. pack_doip_message lib (identity_message eid vin) v = Inr d \<and>
        l3_send_receive_packet (OnePacket (doip_packet src port tgt d))
          (doip_is_answer lib port UdpLayerType VehicleIdentificationResponseType)
          (A_PROCESSING_TIME lib) w = (Val (Some p), w') \<longrightarrow>
        (\<exists>r. initiate_vehicle_identity_req lib src port tgt v eid vin w = (Val r, w') \<and>
           has_type r VehicleIdentificationResponseType))"
proof (intro conjI allI impI)
  fix d p w'
  assume run: "pack_doip_message lib (identity_message eid vin) v = Inr d \<and>
      l3_send_receive_packet (OnePacket (doip_packet src port tgt d))
        (doip_is_answer lib port UdpLayerType VehicleIdentificationResponseType)
        (A_PROCESSING_TIME lib) w = (Val (Some p), w')"
  then obtain r where "doip_answer lib VehicleIdentificationResponseType (Some p) = Inr r"
    and "has_type r VehicleIdentificationResponseType"
    using l3.doip_raw_request_found [OF assms] by blast
  with run show "\<exists>r. initiate_vehicle_identity_req lib src port tgt v eid vin w = (Val r, w') \<and>
      has_type r VehicleIdentificationResponseType"
    by (simp add: initiate_vehicle_identity_req_def doip_raw_request_def run_bind_Val)
qed (auto simp: initiate_vehicle_identity_req_def req_entity_status_def dest: doip_raw_request_type)

definition identity_lib :: "unit doip_lib" where
  "identity_lib =
     \<lparr>message_pack = (\<lambda>_. Inr []), payload_message_to_type = (\<lambda>_. Inr 1), pack_doip = (\<lambda>v t d. Inr [9]),
      parser_new = (), parser_reset = id,
      read_message = (\<lambda>p d. (Inr (if d = [7] then Some (VehicleIdentificationResponse d) else None), p)),
      A_PROCESSING_TIME = 2\<rparr>"

theorem doip_raw_requests_sound_witness:
  "\<exists>r w'. initiate_vehicle_identity_req identity_lib \<lparr>ip_version = 4, ip_text = ''a''\<rparr> 5000
       \<lparr>ip_version = 4, ip_text = ''b''\<rparr> DoIP_13400_2012 None None
       (demo_l3\<lparr>l3_sniffs := [[[UdpLayer 13400 5000, PayloadLayer [7]]]]\<rparr>) = (Val r, w') \<and>
     has_type r VehicleIdentificationResponseType"
proof -
  let ?src = "\<lparr>ip_version = 4, ip_text = ''a''\<rparr>" and ?tgt = "\<lparr>ip_version = 4, ip_text = ''b''\<rparr>"
  let ?w = "demo_l3\<lparr>l3_sniffs := [[[UdpLayer 13400 5000, PayloadLayer [7]]]]\<rparr>"
  have "parser_reset identity_lib (parser_new identity_lib) = parser_new identity_lib"
    by (simp add: identity_lib_def)
  moreover have "pack_doip_message identity_lib (identity_message None None) DoIP_13400_2012 = Inr [9]"
    by (simp add: pack_doip_message_def identity_lib_def)
  moreover obtain w' where "l3_send_receive_packet (OnePacket (doip_packet ?src 5000 ?tgt [9]))
      (doip_is_answer identity_lib 5000 UdpLayerType VehicleIdentificationResponseType)
      (A_PROCESSING_TIME identity_lib) ?w = (Val (Some [UdpLayer 13400 5000, PayloadLayer [7]]), w')"
    by (simp add: demo_l3_def l3_send_receive_packet_def l3_send_receive_packets_def l3_send_def
        l3_is_open_def l3_send_packet_def l3_destination_def get_layer_def doip_packet_def
        l3_sendto_def l3_sniff_def doip_is_answer_def identity_lib_def has_type_def first_packet_def
        py_defs Let_def)
  ultimately show ?thesis
    using doip_raw_requests_sound [of identity_lib ?src 5000 ?tgt DoIP_13400_2012 None None ?w] by blast
qed

text \<open>
  C17. The cache of connections. A communicator handed out from the cache is one that was cached and
  that \<open>is_open\<close> reports open, and nothing is dialled for it; one handed out as new has just been
  dialled, is connected and is cached under its own key from then on. Whatever the outcome, errors
  included, the connections to other addresses are untouched.
\<close>

theorem tcp_cache_correct:
  assumes "get_tcp_communicator key s = (r, t)"
  shows "(r = Val True \<longrightarrow> key \<in> set (cached s) \<and> fst (tcp_is_open (conns s key)) = Val True \<and>
        tcp_log (conns t key) = tcp_log (conns s key) \<and> cached t = cached s) \<and>
     (r = Val False \<longrightarrow> key \<in> set (cached t) \<and> sock (conns t key) = Connected \<and>
        (\<exists>es. tcp_log (conns t key) = tcp_log (conns s key) @ es @ [Dialled])) \<and>
     (\<forall>k. k \<noteq> key \<longrightarrow> conns t k = conns s k)"
proof (intro conjI)
  obtain o1 w1 where open1: "tcp_is_open (conns s key) = (Val o1, w1)"
    and w1: "sock w1 = sock (conns s key)" "tcp_log w1 = tcp_log (conns s key)"
    using tcp_is_open_frame by (metis prod.exhaust)
  obtain o2 w2 where open2: "tcp_is_open w1 = (Val o2, w2)" and w2: "tcp_log w2 = tcp_log w1"
    using tcp_is_open_frame by (metis prod.exhaust)
  obtain c w3 where close: "tcp_close w2 = (c, w3)" by fastforce
  have log3: "\<exists>es. tcp_log w3 = tcp_log w2 @ es"
    using tcp_close_run(1) [OF close] by (auto split: if_splits)
  have not_new: "r \<noteq> Val True" if "new_connection key u = (r, t)" for u
    using new_connection_run [of key u] that by auto
  show "r = Val True \<longrightarrow> key \<in> set (cached s) \<and> fst (tcp_is_open (conns s key)) = Val True \<and>
      tcp_log (conns t key) = tcp_log (conns s key) \<and> cached t = cached s"
    using assms open1 open2 close w1 not_new
    by (auto simp: get_tcp_communicator_def on_conn_def py_bind_def py_seq_def split: res.splits if_splits)
  show "r = Val False \<longrightarrow> key \<in> set (cached t) \<and> sock (conns t key) = Connected \<and>
      (\<exists>es. tcp_log (conns t key) = tcp_log (conns s key) @ es @ [Dialled])"
  proof
    assume "r = Val False"
    then obtain u es where u: "new_connection key u = (Val False, t)"
      "tcp_log (conns u key) = tcp_log (conns s key) @ es"
      using assms open1 open2 close w1 w2 log3
      by (fastforce simp: get_tcp_communicator_def on_conn_def py_bind_def py_seq_def
          split: res.splits if_splits)
    then show "key \<in> set (cached t) \<and> sock (conns t key) = Connected \<and>
        (\<exists>es. tcp_log (conns t key) = tcp_log (conns s key) @ es @ [Dialled])"
      using new_connection_run [OF u(1)] by auto
  qed
  show "\<forall>k. k \<noteq> key \<longrightarrow> conns t k = conns s k"
    using movesD [OF get_tcp_same_others assms] by (simp add: same_others_def)
qed

definition demo_cache :: doip_utils where
  "demo_cache = \<lparr>conns = (\<lambda>_. demo_tcp\<lparr>tcp_in := [InEof]\<rparr>), cached = [''a_b'']\<rparr>"

theorem tcp_cache_correct_witness:
  "\<exists>t. get_tcp_communicator ''a_b'' demo_cache = (Val False, t) \<and> sock (conns t ''a_b'') = Connected \<and>
     conns t ''a_c'' = conns demo_cache ''a_c''"
proof -
  obtain t where run: "get_tcp_communicator ''a_b'' demo_cache = (Val False, t)"
    by (simp add: get_tcp_communicator_def demo_cache_def demo_tcp_def on_conn_def py_defs
        tcp_is_open_def sock_peek_def tcp_close_def sock_close_def new_connection_def tcp_open_def
        tcp_connect_def Let_def)
  then show ?thesis
    using tcp_cache_correct [OF run] by auto
qed

end
