(* ===== verification/Doip_Session.thy ===== *)
theory Doip_Session
  imports Doip_Requests
begin

section \<open>Setting up and tearing down the DoIP client\<close>

text \<open>
  Models \<open>setup\<close> and \<open>teardown\<close> of \<open>DoipUtils\<close> (\<open>protocol/doip/impl/doip_utils.py\<close>): the client owns a
  layer 3 raw socket beside its cache of TCP communicators.
\<close>

record doip_client = doip_utils +
  raw_socket :: l3_world

definition on_raw :: "(l3_world, 'a) py \<Rightarrow> (doip_client, 'a) py" where
  "on_raw m = (\<lambda>s. case m (raw_socket s) of (r, w) \<Rightarrow> (r, s\<lparr>raw_socket := w\<rparr>))"

definition doip_setup :: "(doip_client, bool) py" where
  "doip_setup = py_bind (on_raw l3_open) (\<lambda>b. if \<not> b then py_ret False else py_ret True)"

definition doip_teardown :: "(doip_client, bool) py" where
  "doip_teardown = py_seq (on_raw l3_close) doip_teardown_connections"

subsection \<open>What is closed\<close>

text \<open>The keys a list of closings goes through, one by one.\<close>

lemma close_conn:
  fixes s :: "'b doip_utils_scheme"
  assumes "sock (conns s k) \<noteq> NoSocket"
  obtains s' where "py_seq (on_conn k tcp_close) (py_ret ()) s = (Val (), s')"
    and "sock (conns s' k) = Closed" and "\<And>j. j \<noteq> k \<Longrightarrow> conns s' j = conns s j"
    and "cached s' = cached s" and "doip_utils.more s' = doip_utils.more s"
proof -
  obtain r w where run: "tcp_close (conns s k) = (r, w)"
    by fastforce
  then have "r = Val True" "sock w = Closed"
    using tcp_close_run [OF run] assms by simp_all
  with run show thesis
    by (intro that [of "s\<lparr>conns := (conns s)(k := w)\<rparr>"]) (simp_all add: on_conn_def py_seq_def py_bind_def)
qed

lemma close_conns:
  fixes s :: "'b doip_utils_scheme"
  assumes "\<forall>k\<in>set keys. sock (conns s k) \<noteq> NoSocket"
  shows "\<exists>s'. py_for keys (\<lambda>k. py_seq (on_conn k tcp_close) (py_ret ())) s = (Val (), s') \<and>
    (\<forall>k\<in>set keys. sock (conns s' k) = Closed) \<and> (\<forall>k. k \<notin> set keys \<longrightarrow> conns s' k = conns s k) \<and>
    cached s' = cached s \<and> doip_utils.more s' = doip_utils.more s"
  using assms
proof (induction keys arbitrary: s)
  case (Cons k keys)
  from Cons.prems obtain s1 where s1: "py_seq (on_conn k tcp_close) (py_ret ()) s = (Val (), s1)"
      "sock (conns s1 k) = Closed" "\<And>j. j \<noteq> k \<Longrightarrow> conns s1 j = conns s j"
      "cached s1 = cached s" "doip_utils.more s1 = doip_utils.more s"
    using close_conn [of s k] by auto
  have "sock (conns s1 j) \<noteq> NoSocket" if "j \<in> set keys" for j
    using Cons.prems s1(2,3) that by (cases "j = k") auto
  with Cons.IH obtain s2 where s2:
      "py_for keys (\<lambda>k. py_seq (on_conn k tcp_close) (py_ret ())) s1 = (Val (), s2)"
      "\<forall>k\<in>set keys. sock (conns s2 k) = Closed" "\<forall>k. k \<notin> set keys \<longrightarrow> conns s2 k = conns s1 k"
      "cached s2 = cached s1" "doip_utils.more s2 = doip_utils.more s1"
    by blast
  have "sock (conns s2 k) = Closed"
    using s1(2) s2(2,3) by (cases "k \<in> set keys") auto
  moreover have run: "py_for (k # keys) (\<lambda>k. py_seq (on_conn k tcp_close) (py_ret ())) s = (Val (), s2)"
    unfolding py_for.simps s2(1) [symmetric] by (rule run_seq_Val) (rule s1(1))
  ultimately show ?case
    using s1(3-5) s2(2-5) by (intro exI [of _ s2] conjI run) simp_all
qed simp

text \<open>
  C39. Tearing the client down. When its raw socket has its sending side, which it has when opening fails
  only after that was made, every connection of the cache is closed, others are left as they are, and the
  raw socket is closed. Otherwise \<open>AttributeError\<close> is raised before the first connection is closed: a
  client used over TCP only, which needs no set-up, and one whose set-up failed for want of privileges,
  cannot be torn down, and all its connections stay open.
\<close>

theorem doip_teardown_closes:
  assumes "\<forall>k\<in>set (cached s). sock (conns s k) \<noteq> NoSocket"
  shows "(l3_out (raw_socket s) \<longrightarrow>
      (\<exists>s'. doip_teardown s = (Val True, s') \<and> \<not> l3_in (raw_socket s') \<and>
         (\<forall>k. if k \<in> set (cached s) then sock (conns s' k) = Closed else conns s' k = conns s k))) \<and>
    (\<not> l3_out (raw_socket s) \<longrightarrow>
      (\<exists>s'. doip_teardown s = (Exn (AttributeError ''close''), s') \<and> conns s' = conns s)) \<and>
    (\<forall>e made. l3_error (raw_socket s) = Some (e, made) \<longrightarrow>
      (\<exists>s1. doip_setup s = (Exn e, s1) \<and> conns s1 = conns s \<and>
         (l3_out (raw_socket s1) \<longleftrightarrow> l3_out (raw_socket s) \<or> made)))"
proof (intro conjI impI allI)
  assume out: "l3_out (raw_socket s)"
  let ?s = "s\<lparr>raw_socket := (raw_socket s)\<lparr>l3_in := False\<rparr>\<rparr>"
  have raw: "on_raw l3_close s = (Val True, ?s)"
    using out by (simp add: on_raw_def l3_close_def)
  have "\<forall>k\<in>set (cached s). sock (conns ?s k) \<noteq> NoSocket"
    using assms by simp
  then obtain s' where
      loop: "py_for (cached s) (\<lambda>k. py_seq (on_conn k tcp_close) (py_ret ())) ?s = (Val (), s')"
    and closed: "\<forall>k\<in>set (cached s). sock (conns s' k) = Closed"
      "\<forall>k. k \<notin> set (cached s) \<longrightarrow> conns s' k = conns s k"
    and more: "doip_utils.more s' = doip_utils.more ?s"
    using close_conns [of "cached s" ?s] by auto
  have "\<not> l3_in (raw_socket s')"
    using more by (cases s'; cases s) simp
  moreover have "doip_teardown s = (Val True, s')"
  proof -
    have "doip_teardown s = doip_teardown_connections ?s"
      unfolding doip_teardown_def by (rule run_seq_Val) (rule raw)
    also have "\<dots> = py_seq (py_for (cached s) (\<lambda>k. py_seq (on_conn k tcp_close) (py_ret ()))) (py_ret True) ?s"
      by (simp add: doip_teardown_connections_def py_bind_def)
    also have "\<dots> = py_ret True s'"
      by (rule run_seq_Val) (rule loop)
    finally show ?thesis
      by simp
  qed
  ultimately show "\<exists>s'. doip_teardown s = (Val True, s') \<and> \<not> l3_in (raw_socket s') \<and>
      (\<forall>k. if k \<in> set (cached s) then sock (conns s' k) = Closed else conns s' k = conns s k)"
    using closed by (intro exI [of _ s']) simp
next
  assume "\<not> l3_out (raw_socket s)"
  then show "\<exists>s'. doip_teardown s = (Exn (AttributeError ''close''), s') \<and> conns s' = conns s"
    by (simp add: doip_teardown_def on_raw_def l3_close_def py_seq_def py_bind_def)
next
  fix e made
  assume "l3_error (raw_socket s) = Some (e, made)"
  then show "\<exists>s1. doip_setup s = (Exn e, s1) \<and> conns s1 = conns s \<and>
      (l3_out (raw_socket s1) \<longleftrightarrow> l3_out (raw_socket s) \<or> made)"
    by (simp add: doip_setup_def on_raw_def l3_open_def py_bind_def)
qed

text \<open>A client with a connection that was never set up, and then is.\<close>

definition demo_client :: doip_client where
  "demo_client = doip_utils.extend \<lparr>conns = (\<lambda>_. demo_tcp), cached = [''a_b'']\<rparr>
     \<lparr>raw_socket = \<lparr>l3_version = IPv4, l3_in = False, l3_out = False, l3_error = None, l3_sniffs = [],
        l3_rx = [], l3_tx = [], l3_log = []\<rparr>\<rparr>"

theorem doip_teardown_closes_witness:
  "(\<exists>s. doip_teardown demo_client = (Exn (AttributeError ''close''), s) \<and> sock (conns s ''a_b'') = Connected) \<and>
   (\<exists>s s'. doip_setup demo_client = (Val True, s) \<and> doip_teardown s = (Val True, s') \<and>
      sock (conns s' ''a_b'') = Closed \<and> sock (conns s' ''a_c'') = Connected)"
proof -
  define s where "s = demo_client\<lparr>raw_socket := (raw_socket demo_client)\<lparr>l3_out := True, l3_in := True\<rparr>\<rparr>"
  have "doip_setup demo_client = (Val True, s)"
    by (simp add: doip_setup_def on_raw_def l3_open_def py_bind_def demo_client_def doip_utils.defs s_def)
  moreover have "\<exists>s'. doip_teardown s = (Val True, s') \<and> sock (conns s' ''a_b'') = Closed \<and>
      sock (conns s' ''a_c'') = Connected"
    using doip_teardown_closes [of s]
    by (force simp: s_def demo_client_def doip_utils.defs demo_tcp_def dest: spec [of _ "''a_b''"] spec [of _ "''a_c''"])
  moreover have "\<exists>s. doip_teardown demo_client = (Exn (AttributeError ''close''), s) \<and>
      sock (conns s ''a_b'') = Connected"
    using doip_teardown_closes [of demo_client]
    by (force simp: demo_client_def doip_utils.defs demo_tcp_def)
  ultimately show ?thesis
    by blast
qed


end
