(* ===== verification/Py_Int.thy ===== *)
theory Py_Int
  imports Prelude
begin

section \<open>Python's \<open>int(text, base)\<close>\<close>

text \<open>
  The built-in parser of integers, for the bases 2, 8, 10, 16 and 0 (by prefix): white space around
  the number, a sign, the base's prefix, and single underscores between digits. The limit on the
  number of decimal digits is not modelled. \<open>show_base\<close> prints a number in a base; parsing inverts
  it.
\<close>

definition is_py_space :: "char \<Rightarrow> bool" where
  "is_py_space c \<longleftrightarrow> (of_char c :: nat) \<in> {9, 10, 11, 12, 13, 28, 29, 30, 31, 32, 133, 160}"

definition py_strip :: "string \<Rightarrow> string" where
  "py_strip s = rev (dropWhile is_py_space (rev (dropWhile is_py_space s)))"

text \<open>\<open>need\<close>: the next character has to be a digit.\<close>

fun digits_value :: "nat \<Rightarrow> int \<Rightarrow> bool \<Rightarrow> string \<Rightarrow> int option" where
  "digits_value base acc need [] = (if need then None else Some acc)"
| "digits_value base acc need (c # cs) =
     (if c = CHR ''_'' then (if need then None else digits_value base acc True cs)
      else case digit_val c of
        None \<Rightarrow> None
      | Some d \<Rightarrow> if d < base then digits_value base (acc * int base + int d) False cs else None)"

definition base_prefix :: "nat \<Rightarrow> char \<Rightarrow> nat option" where
  "base_prefix base c =
     (if c \<in> {CHR ''x'', CHR ''X''} \<and> base \<in> {0, 16} then Some 16
      else if c \<in> {CHR ''o'', CHR ''O''} \<and> base \<in> {0, 8} then Some 8
      else if c \<in> {CHR ''b'', CHR ''B''} \<and> base \<in> {0, 2} then Some 2
      else None)"

definition plain_value :: "nat \<Rightarrow> string \<Rightarrow> int option" where
  "plain_value base s =
     (if base = 0
      then (case digits_value 10 0 True s of
              None \<Rightarrow> None
            | Some v \<Rightarrow> if s \<noteq> [] \<and> hd s = CHR ''0'' \<and> v \<noteq> 0 then None else Some v)
      else digits_value base 0 True s)"

definition unsigned_value :: "nat \<Rightarrow> string \<Rightarrow> int option" where
  "unsigned_value base s =
     (case s of
        c # p # rest \<Rightarrow>
          if c = CHR ''0''
          then (case base_prefix base p of
                  Some b \<Rightarrow> digits_value b 0 True
                    (if rest \<noteq> [] \<and> hd rest = CHR ''_'' then tl rest else rest)
                | None \<Rightarrow> plain_value base s)
          else plain_value base s
      | _ \<Rightarrow> plain_value base s)"

definition py_int :: "nat \<Rightarrow> string \<Rightarrow> exn + int" where
  "py_int base s =
     (let t = py_strip s;
          v = (case t of
                 c # cs \<Rightarrow>
                   if c = CHR ''-'' then map_option uminus (unsigned_value base cs)
                   else if c = CHR ''+'' then unsigned_value base cs
                   else unsigned_value base t
               | [] \<Rightarrow> None)
      in case v of
           None \<Rightarrow> Inl (ValueError ''invalid literal for int()'')
         | Some n \<Rightarrow> Inr n)"

subsection \<open>Printing\<close>

function show_base :: "nat \<Rightarrow> nat \<Rightarrow> string" where
  "show_base base n =
     (if base < 2 \<or> n < base then [hex_digit n]
      else show_base base (n div base) @ [hex_digit (n mod base)])"
  by pat_completeness auto
termination
  by (relation "measure snd") auto

declare show_base.simps [simp del]

lemma digit_val_hex_digit [simp]: "n < 16 \<Longrightarrow> digit_val (hex_digit n) = Some n"
  by (drule less_16_cases) (auto simp: hex_digit_def digit_val_def)

lemma hex_digit_plain [simp]:
  "n < 16 \<Longrightarrow> hex_digit n \<noteq> CHR ''_''" "n < 16 \<Longrightarrow> hex_digit n \<noteq> CHR ''-''"
  "n < 16 \<Longrightarrow> hex_digit n \<noteq> CHR ''+''" "n < 16 \<Longrightarrow> hex_digit n \<noteq> CHR '',''"
  "n < 16 \<Longrightarrow> \<not> is_py_space (hex_digit n)"
  "n < 16 \<Longrightarrow> hex_digit n = CHR ''0'' \<longleftrightarrow> n = 0"
  by (drule less_16_cases; auto simp: hex_digit_def is_py_space_def)+

lemma digits_value_show:
  "2 \<le> base \<Longrightarrow> base \<le> 16 \<Longrightarrow>
     digits_value base 0 True (show_base base n @ rest) = digits_value base (int n) False rest"
proof (induction base n arbitrary: rest rule: show_base.induct)
  case (1 base n)
  show ?case
  proof (cases "n < base")
    case True
    then have "n < 16"
      using 1(3) by linarith
    with True show ?thesis
      by (simp add: show_base.simps [of _ n])
  next
    case False
    then have "show_base base n = show_base base (n div base) @ [hex_digit (n mod base)]"
      using 1(2) by (subst show_base.simps) auto
    moreover have "n mod base < 16" "n mod base < base"
      using mod_less_divisor [of base n] 1(2,3) by linarith+
    moreover have "int (n div base) * int base + int (n mod base) = int n"
      by (metis div_mult_mod_eq of_nat_add of_nat_mult)
    moreover have "digits_value base 0 True (show_base base (n div base) @ xs) =
        digits_value base (int (n div base)) False xs" for xs
      using 1 False by auto
    ultimately show ?thesis
      by simp
  qed
qed

lemma show_base_not_Nil [simp]: "show_base base n \<noteq> []"
  by (subst show_base.simps) simp

lemma show_base_digits:
  "2 \<le> base \<Longrightarrow> base \<le> 16 \<Longrightarrow> c \<in> set (show_base base n) \<Longrightarrow> \<exists>d<16. c = hex_digit d"
proof (induction base n rule: show_base.induct)
  case (1 base n)
  show ?case
  proof (cases "n < base")
    case True
    then have "n < 16"
      using 1(3) by linarith
    with True 1(4) show ?thesis
      by (auto simp: show_base.simps [of _ n])
  next
    case False
    then have "show_base base n = show_base base (n div base) @ [hex_digit (n mod base)]"
      using 1(2) by (subst show_base.simps) auto
    moreover have "n mod base < 16"
      using mod_less_divisor [of base n] 1(2,3) by linarith
    ultimately show ?thesis
      using 1 False by auto
  qed
qed

lemma show_base_hd:
  "2 \<le> base \<Longrightarrow> base \<le> 16 \<Longrightarrow> 0 < n \<Longrightarrow> hd (show_base base n) \<noteq> CHR ''0''"
proof (induction base n rule: show_base.induct)
  case (1 base n)
  show ?case
  proof (cases "n < base")
    case True
    then have "n < 16"
      using 1(3) by linarith
    with True 1(4) show ?thesis
      by (simp add: show_base.simps [of _ n])
  next
    case False
    then have "show_base base n = show_base base (n div base) @ [hex_digit (n mod base)]"
      using 1(2) by (subst show_base.simps) auto
    moreover have "0 < n div base"
      using False 1(2) by (simp add: div_greater_zero_iff)
    ultimately show ?thesis
      using 1 False by simp
  qed
qed

text \<open>Parsing what was printed: in the number's own base, and by prefix for decimal numbers.\<close>

lemma py_strip_digits:
  assumes "s \<noteq> []" and "\<forall>c\<in>set s. \<not> is_py_space c"
  shows "py_strip s = s"
proof -
  have "dropWhile is_py_space xs = xs" if "\<forall>c\<in>set xs. \<not> is_py_space c" for xs
    using that by (cases xs) auto
  from this [of s] this [of "rev s"] assms(2) show ?thesis
    by (simp add: py_strip_def)
qed

lemma unsigned_value_show:
  assumes "base \<in> {2, 8, 10, 16}"
  shows "unsigned_value base (show_base base n) = Some (int n)"
    and "unsigned_value 0 (show_base 10 n) = Some (int n)"
proof -
  have digits: "digits_value b 0 True (show_base b m) = Some (int m)" if "b \<in> {2, 8, 10, 16}" for b m
    using digits_value_show [of b m "[]"] that by auto
  have zero: "show_base b 0 = ''0''" if "b \<noteq> 0" for b
    using that by (simp add: show_base.simps hex_digit_def)
  show "unsigned_value base (show_base base n) = Some (int n)"
  proof (cases "n = 0")
    case True
    with assms zero [of base] digits [of base 0] show ?thesis
      by (auto simp: unsigned_value_def plain_value_def)
  next
    case False
    then obtain c cs where "show_base base n = c # cs" "c \<noteq> CHR ''0''"
      using show_base_hd [of base n] assms by (cases "show_base base n") auto
    then show ?thesis
      using digits [OF assms, of n] assms
      by (auto simp: unsigned_value_def plain_value_def split: list.splits)
  qed
  show "unsigned_value 0 (show_base 10 n) = Some (int n)"
  proof (cases "n = 0")
    case True
    with zero [of 10] digits [of 10 0] show ?thesis
      by (auto simp: unsigned_value_def plain_value_def)
  next
    case False
    then obtain c cs where "show_base 10 n = c # cs" "c \<noteq> CHR ''0''"
      using show_base_hd [of 10 n] by (cases "show_base 10 n") auto
    then show ?thesis
      using digits [of 10 n] by (auto simp: unsigned_value_def plain_value_def split: list.splits)
  qed
qed

lemma py_int_show:
  assumes "base \<in> {2, 8, 10, 16}"
  shows "py_int base (show_base base n) = Inr (int n)"
    and "py_int 0 (show_base 10 n) = Inr (int n)"
proof -
  have strip: "py_strip (show_base b m) = show_base b m"
    and hd: "hd (show_base b m) \<noteq> CHR ''-'' \<and> hd (show_base b m) \<noteq> CHR ''+''"
    if "b \<in> {2, 8, 10, 16}" for b m
  proof -
    have dig: "\<exists>d<16. c = hex_digit d" if "c \<in> set (show_base b m)" for c
      using show_base_digits [of b c m] that \<open>b \<in> _\<close> by auto
    show "py_strip (show_base b m) = show_base b m"
    proof (intro py_strip_digits ballI)
      show "\<not> is_py_space c" if "c \<in> set (show_base b m)" for c
        using dig [OF that] hex_digit_plain(5) by blast
    qed simp
    show "hd (show_base b m) \<noteq> CHR ''-'' \<and> hd (show_base b m) \<noteq> CHR ''+''"
      using dig [OF hd_in_set [OF show_base_not_Nil]] hex_digit_plain(2,3) by metis
  qed
  have "py_int b' (show_base b m) = Inr (int m)"
    if "b \<in> {2, 8, 10, 16}" "unsigned_value b' (show_base b m) = Some (int m)" for b b' m
    using strip [OF that(1), of m] hd [OF that(1), of m] that(2)
    by (cases "show_base b m") (auto simp: py_int_def Let_def)
  then show "py_int base (show_base base n) = Inr (int n)" "py_int 0 (show_base 10 n) = Inr (int n)"
    using assms unsigned_value_show by auto
qed

subsection \<open>Texts\<close>

text \<open>\<open>hex(n)\<close>, \<open>str(n)\<close> and \<open>sep.join(texts)\<close>.\<close>

definition py_hex :: "int \<Rightarrow> string" where
  "py_hex n = (if n < 0 then ''-'' else []) @ ''0x'' @ show_base 16 (nat \<bar>n\<bar>)"

definition py_str :: "int \<Rightarrow> string" where
  "py_str n = (if n < 0 then ''-'' else []) @ show_base 10 (nat \<bar>n\<bar>)"

definition NL :: string where
  "NL = [CHR 0x0A]"

fun join_text :: "string \<Rightarrow> string list \<Rightarrow> string" where
  "join_text sep [] = []"
| "join_text sep [s] = s"
| "join_text sep (s # ss) = s @ sep @ join_text sep ss"

end
