(* ===== verification/Plugins.thy ===== *)
theory Plugins
  imports Py_Int Uds_Utils
begin

section \<open>Plugins\<close>

text \<open>
  Models the plugins under \<open>plugin/\<close>: the crash detectors, the reset and recovery plugins over the
  UDS client, the relay reset, the life cycle of background plugins and the plugin manager.
\<close>

subsection \<open>Crash detection\<close>

definition ActiveDiagnosticSession :: int where
  "ActiveDiagnosticSession = 0xF186"

text \<open>\<open>SessionChangeCrashDetector.check_crash\<close>: the value is read with \<open>int\<close>, in decimal.\<close>

definition session_check_crash :: "'w uds \<Rightarrow> int \<Rightarrow> rat \<Rightarrow> ('w, bool) py" where
  "session_check_crash u current_session operation_timeout =
     py_catch
       (py_bind (read_did u [ActiveDiagnosticSession] operation_timeout) (\<lambda>res.
          case res of
            [] \<Rightarrow> py_ret False
          | (did, data) # _ \<Rightarrow>
              py_bind (py_lift (py_int 10 data)) (\<lambda>active_session.
                if active_session \<noteq> current_session then py_ret True else py_ret False)))
       (\<lambda>ex. case ex of NoResponse \<Rightarrow> py_ret True | _ \<Rightarrow> py_ret False)"

text \<open>\<open>UnrespondedTesterPresentCrashDetector.check_crash\<close>.\<close>

definition tester_present_check_crash :: "'w uds \<Rightarrow> rat \<Rightarrow> ('w, bool) py" where
  "tester_present_check_crash u operation_timeout =
     py_catch
       (py_bind (tester_present u operation_timeout) (\<lambda>res. py_ret (\<not> res)))
       (\<lambda>ex. case ex of NoResponse \<Rightarrow> py_ret True | _ \<Rightarrow> py_ret False)"

subsection \<open>Reset and recovery\<close>

definition uds_reset :: "'w uds \<Rightarrow> int \<Rightarrow> rat \<Rightarrow> ('w, bool) py" where
  "uds_reset u reset_type operation_timeout =
     py_catch (ecu_reset u reset_type operation_timeout) (\<lambda>ex. py_ret False)"

text \<open>
  \<open>recover\<close>: the elevation is attempted when there is elevation information; without an algorithm
  in it the call raises \<open>AttributeError\<close>, which is caught like the others.
\<close>

definition uds_recover :: "'w uds \<Rightarrow> SESSION_INFO \<Rightarrow> rat \<Rightarrow> UdsStandardVersion \<Rightarrow> ('w, bool) py" where
  "uds_recover u session_info operation_timeout uds_standard_version =
     py_seq
       (case info_elevation session_info of
          None \<Rightarrow> py_ret ()
        | Some e \<Rightarrow>
            py_catch
              (case security_algorithm e of
                 None \<Rightarrow> py_raise (AttributeError ''seed_subfunction'')
               | Some alg \<Rightarrow> py_seq (security_access u alg operation_timeout) (py_ret ()))
              (\<lambda>ex. py_ret ()))
       (transit_to_session u (route_to_session session_info) operation_timeout uds_standard_version)"

text \<open>The plugins over the UDS client open and close its link when they are set up and torn down.\<close>

definition session_check_setup :: "'w uds \<Rightarrow> ('w, unit) py" where
  "session_check_setup u = py_seq (uds_setup u) (py_ret ())"

definition session_check_teardown :: "'w uds \<Rightarrow> ('w, unit) py" where
  "session_check_teardown u = uds_teardown u"

definition tester_present_check_setup :: "'w uds \<Rightarrow> ('w, unit) py" where
  "tester_present_check_setup u = py_seq (uds_setup u) (py_ret ())"

definition tester_present_check_teardown :: "'w uds \<Rightarrow> ('w, unit) py" where
  "tester_present_check_teardown u = uds_teardown u"

definition uds_reset_setup :: "'w uds \<Rightarrow> ('w, unit) py" where
  "uds_reset_setup u = py_seq (uds_setup u) (py_ret ())"

definition uds_reset_teardown :: "'w uds \<Rightarrow> ('w, unit) py" where
  "uds_reset_teardown u = uds_teardown u"

definition uds_recover_setup :: "'w uds \<Rightarrow> ('w, unit) py" where
  "uds_recover_setup u = py_seq (uds_setup u) (py_ret ())"

definition uds_recover_teardown :: "'w uds \<Rightarrow> ('w, unit) py" where
  "uds_recover_teardown u = uds_teardown u"

text \<open>The relay: what \<open>gpiod\<close> and \<open>sleep\<close> are asked to do, in order.\<close>

datatype relay_event = SetActive int | SetInactive int | Sleep rat | Released

record relay_plugin =
  reset_pin :: int
  shutdown_sleep :: rat
  boot_sleep :: rat
  relay :: bool
  gpio_error :: "exn option"
  relay_log :: "relay_event list"

definition relay_setup :: "('a relay_plugin_scheme, unit) py" where
  "relay_setup = (\<lambda>w. case gpio_error w of
       Some e \<Rightarrow> (Val (), w)
     | None \<Rightarrow> (Val (), w\<lparr>relay := True, relay_log := relay_log w @ [SetInactive (reset_pin w)]\<rparr>))"

definition relay_teardown :: "('a relay_plugin_scheme, unit) py" where
  "relay_teardown = (\<lambda>w.
     if relay w then (Val (), w\<lparr>relay_log := relay_log w @ [Released]\<rparr>) else (Val (), w))"

definition relay_do :: "('a relay_plugin_scheme \<Rightarrow> relay_event) \<Rightarrow> ('a relay_plugin_scheme, unit) py" where
  "relay_do e = py_modify (\<lambda>w. w\<lparr>relay_log := relay_log w @ [e w]\<rparr>)"

definition relay_reset :: "('a relay_plugin_scheme, bool) py" where
  "relay_reset =
     py_bind (py_get relay) (\<lambda>r.
       if r
       then py_seq (relay_do (\<lambda>w. SetActive (reset_pin w)))
           (py_seq (relay_do (\<lambda>w. Sleep (shutdown_sleep w)))
           (py_seq (relay_do (\<lambda>w. SetInactive (reset_pin w)))
           (py_seq (relay_do (\<lambda>w. Sleep (boot_sleep w)))
                   (py_ret True))))
       else py_ret False)"

subsection \<open>Background plugins\<close>

text \<open>
  \<open>BackgroundPluginBase\<close>: whether it has a thread, and its stop event. A plugin's \<open>run\<close> works while
  the event is not set, as the base class asks of it; \<open>rounds\<close> counts the rounds of work done.
\<close>

record background_plugin =
  thread :: bool
  stop_event :: bool
  rounds :: nat

definition fresh_background :: background_plugin where
  "fresh_background = \<lparr>thread = False, stop_event = False, rounds = 0\<rparr>"

definition background_start :: "background_plugin \<Rightarrow> background_plugin" where
  "background_start p = (if \<not> thread p then p\<lparr>thread := True\<rparr> else p)"

definition background_stop :: "background_plugin \<Rightarrow> background_plugin" where
  "background_stop p = (if thread p then p\<lparr>stop_event := True, thread := False\<rparr> else p)"

text \<open>The thread is scheduled for a while: it does a round of work unless asked to stop.\<close>

definition background_run :: "background_plugin \<Rightarrow> background_plugin" where
  "background_run p = (if thread p \<and> \<not> stop_event p then p\<lparr>rounds := Suc (rounds p)\<rparr> else p)"

datatype background_step = Start | Stop | Schedule

fun background_steps :: "background_step list \<Rightarrow> background_plugin \<Rightarrow> background_plugin" where
  "background_steps [] p = p"
| "background_steps (Start # ss) p = background_steps ss (background_start p)"
| "background_steps (Stop # ss) p = background_steps ss (background_stop p)"
| "background_steps (Schedule # ss) p = background_steps ss (background_run p)"

text \<open>\<open>EventNotifierPluginBase\<close>: the callbacks, which do not exist before they are set but for the first.\<close>

record 'c event_notifier =
  event_notifier_cb :: "'c option"
  error_notifier_cb :: "'c option"

definition set_notifier :: "'c \<Rightarrow> 'c \<Rightarrow> 'c event_notifier \<Rightarrow> 'c event_notifier" where
  "set_notifier on_event_callback on_error_callback p =
     p\<lparr>event_notifier_cb := Some on_event_callback, error_notifier_cb := Some on_error_callback\<rparr>"

subsection \<open>The plugin manager\<close>

text \<open>
  A plugin instance is the name of its class with the names of all classes it is an instance of.
  The dictionary keeps the order of first insertion.
\<close>

record plugin =
  class_name :: string
  classes :: "string list"

record plugin_entry =
  instance_of :: plugin
  background :: bool

type_synonym plugins = "(string \<times> plugin_entry) list"

fun dict_update :: "'k \<Rightarrow> 'v \<Rightarrow> ('k \<times> 'v) list \<Rightarrow> ('k \<times> 'v) list" where
  "dict_update k v [] = [(k, v)]"
| "dict_update k v ((k', v') # ps) = (if k' = k then (k, v) # ps else (k', v') # dict_update k v ps)"

definition plugin_manager_init :: plugins where
  "plugin_manager_init = []"

definition add_plugin :: "plugin \<Rightarrow> bool \<Rightarrow> plugins \<Rightarrow> plugins" where
  "add_plugin p b ps = dict_update (class_name p) \<lparr>instance_of = p, background = b\<rparr> ps"

text \<open>The attributes of the requested model with the class each one wants.\<close>

fun get_plugin_model :: "plugins \<Rightarrow> (string \<times> string) list \<Rightarrow> exn + (string \<times> plugin) list" where
  "get_plugin_model ps [] = Inr []"
| "get_plugin_model ps ((attr, ty) # as) =
     (case find (\<lambda>(name, entry). ty \<in> set (classes (instance_of entry))) ps of
        None \<Rightarrow> Inl (RuntimeError ''Required plugin is not available'')
      | Some (name, entry) \<Rightarrow>
          (case get_plugin_model ps as of
             Inl e \<Rightarrow> Inl e
           | Inr m \<Rightarrow> Inr ((attr, instance_of entry) # m)))"

text \<open>\<open>issubclass\<close> is called with the instance, not its class, which raises \<open>TypeError\<close>.\<close>

fun start_background_plugins :: "plugins \<Rightarrow> exn + unit" where
  "start_background_plugins [] = Inr ()"
| "start_background_plugins ((name, entry) # ps) =
     (if background entry then Inl (TypeError ''issubclass() arg 1 must be a class'')
      else start_background_plugins ps)"

fun stop_background_plugins :: "plugins \<Rightarrow> exn + unit" where
  "stop_background_plugins [] = Inr ()"
| "stop_background_plugins ((name, entry) # ps) =
     (if background entry then Inl (TypeError ''issubclass() arg 1 must be a class'')
      else stop_background_plugins ps)"

subsection \<open>Lemmas\<close>

lemma uds_recover_no_Exn: "uds_recover u si t v w \<noteq> (Exn e, w')"
  by (auto simp: uds_recover_def py_seq_def py_bind_Exn_iff py_catch_Exn_iff transit_no_Exn
      split: option.splits)

lemma session_check_no_Exn: "session_check_crash u c t w \<noteq> (Exn e, w')"
  by (auto simp: session_check_crash_def py_catch_Exn_iff split: exn.splits)

lemma tester_present_check_no_Exn: "tester_present_check_crash u t w \<noteq> (Exn e, w')"
  by (auto simp: tester_present_check_crash_def py_catch_Exn_iff split: exn.splits)

lemma uds_reset_no_Exn: "uds_reset u rt t w \<noteq> (Exn e, w')"
  by (auto simp: uds_reset_def py_catch_Exn_iff)

lemma returns_Val:
  assumes "returns m w" and "\<And>e w'. m w \<noteq> (Exn e, w')"
  shows "\<exists>b w'. m w = (Val b, w')"
  using assms by (cases "m w"; cases "fst (m w)") (auto simp: returns_def)

context message_link
begin

lemma plugin_calls_return:
  assumes "over_link u now send recv pending" and "0 < t"
  shows "returns (session_check_crash u c t) w" and "returns (tester_present_check_crash u t) w"
    and "returns (uds_reset u rt t) w" and "returns (uds_recover u si t v) w"
proof -
  note [intro!] = returns_bind returns_catch returns_seq
  note parts = uds_service_returns [OF assms] uds_exchange_returns [OF assms]
    security_access_returns [OF assms] transit_returns [OF assms]
  show "returns (session_check_crash u c t) w"
    using parts by (auto simp: session_check_crash_def read_did_def split: list.splits exn.splits)
  show "returns (tester_present_check_crash u t) w"
    using parts by (auto simp: tester_present_check_crash_def tester_present_def split: exn.splits)
  show "returns (uds_reset u rt t) w"
    using parts by (auto simp: uds_reset_def ecu_reset_def)
  show "returns (uds_recover u si t v) w"
    using parts by (auto simp: uds_recover_def split: option.splits)
qed

end

text \<open>Two decimal digits are read as what they spell; with another digit the text is refused.\<close>

lemma py_int_two_digits:
  assumes "a < 16" and "b < 16"
  shows "py_int 10 [hex_digit a, hex_digit b] =
     (if a < 10 \<and> b < 10 then Inr (int (10 * a + b)) else Inl (ValueError ''invalid literal for int()''))"
proof -
  have strip: "py_strip [hex_digit a, hex_digit b] = [hex_digit a, hex_digit b]"
    using assms by (intro py_strip_digits) auto
  have "base_prefix 10 (hex_digit b) = None"
    by (simp add: base_prefix_def)
  then have "unsigned_value 10 [hex_digit a, hex_digit b] =
      (if a < 10 \<and> b < 10 then Some (int (10 * a + b)) else None)"
    using assms by (simp add: unsigned_value_def plain_value_def)
  then show ?thesis
    using strip assms by (simp add: py_int_def Let_def)
qed

lemma bytes_hex_one: "bytes_hex [s] = [hex_digit (unat s div 16), hex_digit (unat s mod 16)]"
  by (simp add: bytes_hex_def hex_byte_def)

subsection \<open>Properties\<close>

text \<open>
  The plugins over the UDS client never raise and never hang: over ISO-TP, with a positive
  timeout, checking for a crash (either way), resetting and recovering always return a boolean,
  whatever the server and the clock do. The tester-present detector reports a crash exactly when
  the server does not respond at all or answers with a sub-function other than 0; a negative
  or malformed response does not count.
\<close>

theorem plugins_always_answer:
  assumes "0 < t"
  shows "(\<exists>b w'. session_check_crash (isotp_uds n L C) c t w = (Val b, w')) \<and>
     (\<exists>b w'. uds_reset (isotp_uds n L C) rt t w = (Val b, w')) \<and>
     (\<exists>b w'. uds_recover (isotp_uds n L C) si t v w = (Val b, w')) \<and>
     (\<exists>b w'. tester_present_check_crash (isotp_uds n L C) t w = (Val b, w') \<and>
        (b \<longleftrightarrow> fst (tester_present (isotp_uds n L C) t w) \<in> {Exn NoResponse, Val False}))"
proof (intro conjI)
  note returns = isotp.plugin_calls_return [OF over_isotp assms]
  show "\<exists>b w'. session_check_crash (isotp_uds n L C) c t w = (Val b, w')"
    by (rule returns_Val [OF returns(1) session_check_no_Exn])
  show "\<exists>b w'. uds_reset (isotp_uds n L C) rt t w = (Val b, w')"
    by (rule returns_Val [OF returns(3) uds_reset_no_Exn])
  show "\<exists>b w'. uds_recover (isotp_uds n L C) si t v w = (Val b, w')"
    by (rule returns_Val [OF returns(4) uds_recover_no_Exn])
  obtain b w' where run: "tester_present_check_crash (isotp_uds n L C) t w = (Val b, w')"
    using returns_Val [OF returns(2) tester_present_check_no_Exn] by blast
  moreover from run have "b \<longleftrightarrow> fst (tester_present (isotp_uds n L C) t w) \<in> {Exn NoResponse, Val False}"
    by (cases "tester_present (isotp_uds n L C) t w"; cases "fst (tester_present (isotp_uds n L C) t w)")
      (auto simp: tester_present_check_crash_def py_catch_def py_bind_def split: exn.splits)
  ultimately show "\<exists>b w'. tester_present_check_crash (isotp_uds n L C) t w = (Val b, w') \<and>
      (b \<longleftrightarrow> fst (tester_present (isotp_uds n L C) t w) \<in> {Exn NoResponse, Val False})"
    by blast
qed

theorem plugins_always_answer_witness:
  "\<exists>b w'. session_check_crash (isotp_uds 1 demo_uds_lib demo_crypto) 3 2 demo_link = (Val b, w')"
  using plugins_always_answer [of 2 1 demo_uds_lib demo_crypto 3 demo_link] by auto

text \<open>
  The session detector reads the session in the wrong base. The value comes as hex text and is
  parsed as decimal: for sessions below 10 the answer is right; a session whose hex text has a
  letter is never reported as a change; and a session of 16 or more written with decimal digits is
  reported as a crash even when it is the expected one.
\<close>

theorem session_detector_reads_decimal:
  assumes "read_did u [ActiveDiagnosticSession] t w = (Val [(ActiveDiagnosticSession, bytes_hex [s])], w')"
  shows "(unat s < 10 \<longrightarrow> session_check_crash u current t w = (Val (int (unat s) \<noteq> current), w')) \<and>
     (unat s div 16 \<ge> 10 \<or> unat s mod 16 \<ge> 10 \<longrightarrow> session_check_crash u current t w = (Val False, w')) \<and>
     (unat s \<ge> 16 \<and> unat s div 16 < 10 \<and> unat s mod 16 < 10 \<longrightarrow>
        session_check_crash u (int (unat s)) t w = (Val True, w'))"
proof -
  have parse: "py_int 10 (bytes_hex [s]) =
      (if unat s div 16 < 10 \<and> unat s mod 16 < 10 then Inr (int (10 * (unat s div 16) + unat s mod 16))
       else Inl (ValueError ''invalid literal for int()''))"
    unfolding bytes_hex_one by (rule py_int_two_digits) auto
  have run: "session_check_crash u c t w =
      (case py_int 10 (bytes_hex [s]) of
         Inl e \<Rightarrow> (case e of NoResponse \<Rightarrow> Val True | _ \<Rightarrow> Val False, w')
       | Inr a \<Rightarrow> (Val (a \<noteq> c), w'))" for c
    using assms by (cases "py_int 10 (bytes_hex [s])")
      (auto simp: session_check_crash_def py_catch_def py_bind_def split: exn.splits)
  have split: "unat s = 16 * (unat s div 16) + unat s mod 16"
    by simp
  show ?thesis
  proof (intro conjI impI)
    assume "unat s < 10"
    then show "session_check_crash u current t w = (Val (int (unat s) \<noteq> current), w')"
      using run parse by simp
  next
    assume "unat s div 16 \<ge> 10 \<or> unat s mod 16 \<ge> 10"
    then show "session_check_crash u current t w = (Val False, w')"
      using run parse by auto
  next
    assume big: "unat s \<ge> 16 \<and> unat s div 16 < 10 \<and> unat s mod 16 < 10"
    then have "0 < unat s div 16"
      by (simp add: div_greater_zero_iff)
    then have "10 * (unat s div 16) + unat s mod 16 \<noteq> unat s"
      using split by linarith
    then have "int (10 * (unat s div 16) + unat s mod 16) \<noteq> int (unat s)"
      by (metis of_nat_eq_iff)
    then show "session_check_crash u (int (unat s)) t w = (Val True, w')"
      using run parse big by simp
  qed
qed

theorem session_detector_reads_decimal_witness:
  "let w = demo_isotp\<lparr>iso_is_open := True, stack_rx := [Some [0x62, 0xF1, 0x86, 0x10]]\<rparr> in
   \<exists>w'. session_check_crash (isotp_uds 1 demo_uds_lib demo_crypto) 16 2 w = (Val True, w')"
proof -
  let ?w = "demo_isotp\<lparr>iso_is_open := True, stack_rx := [Some [0x62, 0xF1, 0x86, 0x10]]\<rparr>"
  let ?u = "isotp_uds (Suc 0) demo_uds_lib demo_crypto :: isotp_world uds"
  have ready: "isotp_ready 0 ?w" and rx: "stack_rx ?w = Some [0x62, 0xF1, 0x86, 0x10] # []"
    by (simp_all add: isotp_ready_def demo_isotp_def)
  have now: "answers_now demo_uds_lib \<lparr>request_response_id = 0x62, get_payload = [0x22]\<rparr> [0x62, 0xF1, 0x86, 0x10]"
    by (simp add: answers_now_def demo_uds_lib_def demo_response_def)
  obtain w' where "send_and_read_response ?u \<lparr>request_response_id = 0x62, get_payload = [0x22]\<rparr> 2 ?w =
      (Val (from_payload demo_uds_lib [0x62, 0xF1, 0x86, 0x10]), w')"
    using isotp_call_now [OF ready _ rx now, of 2 0 demo_crypto] by auto
  moreover have "split_dids [ActiveDiagnosticSession] [0xF1, 0x86, 0x10] =
      Inr [(ActiveDiagnosticSession, bytes_hex [0x10])]"
    using split_dids_loop_records [of "[(0xF186, [0x10])]" "[]"]
      py_find_next [of "[]" "did_bytes 0xF186" "[0x10]" "[]"]
    by (simp add: split_dids_def ActiveDiagnosticSession_def to_bytes_did did_bytes_eq)
  ultimately have "read_did ?u [ActiveDiagnosticSession] 2 ?w =
      (Val [(ActiveDiagnosticSession, bytes_hex [0x10])], w')"
    by (simp add: read_did_def uds_exchange_def py_bind_def demo_uds_lib_def demo_request_def
        demo_response_def)
  from session_detector_reads_decimal [OF this] show ?thesis
    by (auto simp: Let_def)
qed

lemma background_stopped:
  "stop_event p \<Longrightarrow> stop_event (background_steps ss p) \<and> rounds (background_steps ss p) = rounds p"
  by (induction ss p rule: background_steps.induct)
    (auto simp: background_start_def background_stop_def background_run_def)

lemma background_works:
  "thread p \<Longrightarrow> \<not> stop_event p \<Longrightarrow> Stop \<notin> set ss \<Longrightarrow>
     rounds (background_steps ss p) = rounds p + length (filter (\<lambda>x. x = Schedule) ss)"
  by (induction ss p rule: background_steps.induct) (auto simp: background_start_def background_run_def)

lemma background_steps_append: "background_steps (ss @ ts) p = background_steps ts (background_steps ss p)"
  by (induction ss p rule: background_steps.induct) auto

lemma background_stop_sets: "thread p \<or> stop_event p \<Longrightarrow>
    let q = background_steps ss p in thread q \<or> stop_event q"
  by (induction ss p rule: background_steps.induct)
    (auto simp: background_start_def background_stop_def background_run_def Let_def)



lemma get_plugin_model_Inr:
  "get_plugin_model ps as = Inr m \<Longrightarrow>
     list_all2 (\<lambda>(attr, ty) (attr', p). attr' = attr \<and> ty \<in> set (classes p) \<and>
       p \<in> instance_of ` snd ` set ps) as m"
proof (induction ps as arbitrary: m rule: get_plugin_model.induct)
  case (2 ps attr ty as)
  then obtain name entry where found: "find (\<lambda>(name, entry). ty \<in> set (classes (instance_of entry))) ps =
      Some (name, entry)"
    by (auto split: option.splits)
  then have "ty \<in> set (classes (instance_of entry))" "(name, entry) \<in> set ps"
    by (auto simp: find_Some_iff) (metis nth_mem)
  then have "ty \<in> set (classes (instance_of entry)) \<and> instance_of entry \<in> instance_of ` snd ` set ps"
    by force
  moreover from "2.prems" found obtain m' where "get_plugin_model ps as = Inr m'" "m = (attr, instance_of entry) # m'"
    by (auto split: sum.splits)
  ultimately show ?case
    using "2.IH" [OF found refl] by simp
qed simp

lemma get_plugin_model_Inl:
  "get_plugin_model ps as = Inl e \<Longrightarrow> e = RuntimeError ''Required plugin is not available'' \<and>
     (\<exists>(attr, ty)\<in>set as. \<forall>(name, entry)\<in>set ps. ty \<notin> set (classes (instance_of entry)))"
proof (induction ps as rule: get_plugin_model.induct)
  case (2 ps attr ty as)
  show ?case
  proof (cases "find (\<lambda>(name, entry). ty \<in> set (classes (instance_of entry))) ps")
    case None
    then have "\<forall>(name, entry)\<in>set ps. ty \<notin> set (classes (instance_of entry))"
      by (auto simp: find_None_iff)
    with 2(2) None show ?thesis
      by simp
  next
    case (Some ne)
    then obtain name entry where "find (\<lambda>(name, entry). ty \<in> set (classes (instance_of entry))) ps = Some (name, entry)"
      by (cases ne) simp
    with 2 show ?thesis
      by (simp split: sum.splits)
  qed
qed simp

lemma dict_update_fst: "fst ` set (dict_update k v ps) = insert k (fst ` set ps)"
  by (induction k v ps rule: dict_update.induct) auto

lemma dict_update_distinct: "distinct (map fst ps) \<Longrightarrow> distinct (map fst (dict_update k v ps))"
  by (induction k v ps rule: dict_update.induct) (auto simp: dict_update_fst)

lemma dict_update_map_of: "map_of (dict_update k v ps) = (map_of ps)(k \<mapsto> v)"
  by (induction k v ps rule: dict_update.induct) auto

lemma add_plugins_distinct: "distinct (map fst ps) \<Longrightarrow>
    distinct (map fst (fold (\<lambda>(p, b). add_plugin p b) as ps))"
  by (induction as arbitrary: ps) (auto simp: add_plugin_def dict_update_distinct)

lemma add_plugins_map_of: "map_of (fold (\<lambda>(p, b). add_plugin p b) as ps) =
    map_of ps ++ map_of (map (\<lambda>(p, b). (class_name p, \<lparr>instance_of = p, background = b\<rparr>)) (rev as))"
  by (induction as arbitrary: ps) (auto simp: add_plugin_def dict_update_map_of map_add_def fun_eq_iff split: option.splits)

lemma start_background_Inl:
  "start_background_plugins ps = (if \<exists>(name, entry)\<in>set ps. background entry
     then Inl (TypeError ''issubclass() arg 1 must be a class'') else Inr ())"
  "stop_background_plugins ps = start_background_plugins ps"
  by (induction ps) auto

text \<open>
  The plugin manager. After any additions it holds one plugin per class name, the last one
  added. A model it fills has every attribute of the model, in order, filled by a plugin of the
  wanted class that was added; it refuses with \<open>RuntimeError\<close> exactly when no plugin it holds is of
  some wanted class. Starting or stopping the background plugins raises \<open>TypeError\<close> as soon as
  there is one.
\<close>

theorem plugin_manager_correct:
  "let ps = fold (\<lambda>(p, b). add_plugin p b) added [] in
     distinct (map fst ps) \<and>
     (\<forall>name. map_of ps name =
        map_of (map (\<lambda>(p, b). (class_name p, \<lparr>instance_of = p, background = b\<rparr>)) (rev added)) name) \<and>
     (case get_plugin_model ps wanted of
        Inr m \<Rightarrow> list_all2 (\<lambda>(attr, ty) (attr', p).
          attr' = attr \<and> ty \<in> set (classes p) \<and> p \<in> fst ` set added) wanted m
      | Inl e \<Rightarrow> e = RuntimeError ''Required plugin is not available'' \<and>
          (\<exists>(attr, ty)\<in>set wanted. \<not> (\<exists>(name, entry)\<in>set ps. ty \<in> set (classes (instance_of entry))))) \<and>
     start_background_plugins ps = (if \<exists>(name, entry)\<in>set ps. background entry
        then Inl (TypeError ''issubclass() arg 1 must be a class'') else Inr ())"
proof -
  let ?ps = "fold (\<lambda>(p, b). add_plugin p b) added []"
  have lookup: "map_of ?ps = map_of (map (\<lambda>(p, b). (class_name p, \<lparr>instance_of = p, background = b\<rparr>)) (rev added))"
    using add_plugins_map_of [of added "[]"] by simp
  have distinct: "distinct (map fst ?ps)"
    by (rule add_plugins_distinct) simp
  have added: "p \<in> fst ` set added" if "p \<in> instance_of ` snd ` set ?ps" for p
  proof -
    from that obtain name entry where "(name, entry) \<in> set ?ps" "instance_of entry = p"
      by auto
    then have "map_of ?ps name = Some entry"
      using distinct by simp
    then have "map_of (map (\<lambda>(p, b). (class_name p, \<lparr>instance_of = p, background = b\<rparr>)) (rev added)) name = Some entry"
      unfolding lookup .
    from map_of_SomeD [OF this] show ?thesis
      using \<open>instance_of entry = p\<close> by force
  qed
  then have "list_all2 (\<lambda>(attr, ty) (attr', p). attr' = attr \<and> ty \<in> set (classes p) \<and> p \<in> fst ` set added) wanted m"
    if "get_plugin_model ?ps wanted = Inr m" for m
    using get_plugin_model_Inr [OF that] by (auto elim!: list_all2_mono)
  have model: "list_all2 (\<lambda>(attr, ty) (attr', p). attr' = attr \<and> ty \<in> set (classes p) \<and> p \<in> fst ` set added) wanted m"
    if "get_plugin_model ?ps wanted = Inr m" for m
    using get_plugin_model_Inr [OF that] by (rule list_all2_mono) (use added in auto)
  have "case get_plugin_model ?ps wanted of
      Inr m \<Rightarrow> list_all2 (\<lambda>(attr, ty) (attr', p).
        attr' = attr \<and> ty \<in> set (classes p) \<and> p \<in> fst ` set added) wanted m
    | Inl e \<Rightarrow> e = RuntimeError ''Required plugin is not available'' \<and>
        (\<exists>(attr, ty)\<in>set wanted. \<not> (\<exists>(name, entry)\<in>set ?ps. ty \<in> set (classes (instance_of entry))))"
  proof (cases "get_plugin_model ?ps wanted")
    case (Inl e)
    from get_plugin_model_Inl [OF Inl] Inl show ?thesis
      by (simp only: sum.case) fastforce
  next
    case (Inr m)
    from model [OF Inr] Inr show ?thesis
      by simp
  qed
  with distinct lookup show ?thesis
    unfolding Let_def start_background_Inl(1) by simp
qed

end
