(* ===== verification/Datagrams.thy ===== *)
theory Datagrams
  imports Communicator
begin

section \<open>The UDP and multicast communicators\<close>

text \<open>
  Models \<open>UdpCommunicator\<close> (\<open>communication/ip/udp/udp.py\<close>) and \<open>MulticastCommunicator\<close>
  (\<open>communication/ip/udp/multicast.py\<close>) over datagram sockets of the standard library.

  \<open>sys_script\<close> says what the next calls that set a socket up, or send, raise, if anything (nothing,
  past its end). \<open>dgram_in\<close> is what comes next: datagrams, errors, and quiet stretches, each of
  which lasts for one wait or one non-blocking read. \<open>net_log\<close> records what went over the sockets.
\<close>

datatype ip = V4 "32 word" | V6 "128 word"

definition version_of :: "ip \<Rightarrow> int" where
  "version_of a = (case a of V4 _ \<Rightarrow> 4 | V6 _ \<Rightarrow> 6)"

text \<open>\<open>is_multicast\<close> of the standard library: \<open>224.0.0.0/4\<close> and \<open>ff00::/8\<close>.\<close>

definition is_multicast :: "ip \<Rightarrow> bool" where
  "is_multicast a = (case a of V4 w \<Rightarrow> unat w div 2 ^ 28 = 14 | V6 w \<Rightarrow> unat w div 2 ^ 120 = 255)"

datatype dgram = Datagram bytes ip | DgQuiet | DgError exn

datatype family = AF_INET | AF_INET6

datatype net_event =
    Bound family ip int
  | Joined ip "ip + int"
  | OutOf "ip + int"
  | DgSent bytes ip int "int option"
  | DgGot bytes

record net_world =
  sys_script :: "exn option list"
  dgram_in :: "dgram list"
  net_log :: "net_event list"

definition sys_call :: "net_event list \<Rightarrow> ('a net_world_scheme, unit) py" where
  "sys_call es = (\<lambda>w. case sys_script w of
       [] \<Rightarrow> (Val (), w\<lparr>net_log := net_log w @ es\<rparr>)
     | None # s \<Rightarrow> (Val (), w\<lparr>sys_script := s, net_log := net_log w @ es\<rparr>)
     | Some e # s \<Rightarrow> (Exn e, w\<lparr>sys_script := s\<rparr>))"

text \<open>
  \<open>sendto\<close>: a datagram is sent whole or not at all. An IPv6 address may come with the index of the
  interface to send from.
\<close>

definition sendto :: "bytes \<Rightarrow> ip \<Rightarrow> int \<Rightarrow> int option \<Rightarrow> ('a net_world_scheme, int) py" where
  "sendto data a port scope = py_seq (sys_call [DgSent data a port scope]) (py_ret (int (length data)))"

text \<open>\<open>recvfrom(size)\<close>: what does not fit in \<open>size\<close> bytes of the datagram is dropped.\<close>

fun take_dgram :: "nat \<Rightarrow> bool \<Rightarrow> dgram list \<Rightarrow> (bytes \<times> ip) res \<times> dgram list" where
  "take_dgram n blocking [] = (if blocking then (Diverge, []) else (Exn BlockingIOError, []))"
| "take_dgram n blocking (DgQuiet # s) =
     (if blocking then take_dgram n blocking s else (Exn BlockingIOError, s))"
| "take_dgram n blocking (DgError e # s) = (Exn e, s)"
| "take_dgram n blocking (Datagram d a # s) = (Val (take n d, a), s)"

definition recvfrom :: "nat \<Rightarrow> bool \<Rightarrow> ('a net_world_scheme, bytes \<times> ip) py" where
  "recvfrom n blocking = (\<lambda>w. case take_dgram n blocking (dgram_in w) of
       (Val (d, a), s) \<Rightarrow> (Val (d, a), w\<lparr>dgram_in := s, net_log := net_log w @ [DgGot d]\<rparr>)
     | (r, s) \<Rightarrow> (r, w\<lparr>dgram_in := s\<rparr>))"

text \<open>\<open>select([sock], [], [], timeout)\<close> on a socket that is there.\<close>

definition select_in :: "('a net_world_scheme, bool) py" where
  "select_in = (\<lambda>w. case dgram_in w of
       [] \<Rightarrow> (Val False, w)
     | DgQuiet # s \<Rightarrow> (Val False, w\<lparr>dgram_in := s\<rparr>)
     | _ \<Rightarrow> (Val True, w))"

definition SOCK_DATA_RECV_AMOUNT_UDP :: nat where
  "SOCK_DATA_RECV_AMOUNT_UDP = 4096"

subsection \<open>UDP\<close>

text \<open>The socket is none, open (blocking or not) or closed. A socket starts out blocking.\<close>

datatype udp_sock = NoUdp | OpenUdp bool | ClosedUdp

record udp_world = net_world +
  udp_source :: ip
  udp_sport :: int
  udp_destination :: ip
  udp_dport :: int
  udp_sock :: udp_sock

definition udp_open :: "('a udp_world_scheme, unit) py" where
  "udp_open =
     py_bind (py_get udp_source) (\<lambda>source_ip.
     py_bind (py_get udp_sport) (\<lambda>sport.
       py_seq
         (if version_of source_ip = 6
          then py_seq (sys_call [])
              (py_seq (py_modify (\<lambda>w. w\<lparr>udp_sock := OpenUdp True\<rparr>))
              (py_seq (sys_call [])
                      (sys_call [Bound AF_INET6 source_ip sport])))
          else py_seq (sys_call [])
              (py_seq (py_modify (\<lambda>w. w\<lparr>udp_sock := OpenUdp True\<rparr>))
              (py_seq (sys_call [])
                      (sys_call [Bound AF_INET source_ip sport]))))
         (py_modify (\<lambda>w. w\<lparr>udp_sock := OpenUdp False\<rparr>))))"

definition udp_close :: "('a udp_world_scheme, unit) py" where
  "udp_close = (\<lambda>w. case udp_sock w of
       NoUdp \<Rightarrow> (Exn (AttributeError ''NoneType''), w)
     | _ \<Rightarrow> (Val (), w\<lparr>udp_sock := ClosedUdp\<rparr>))"

definition udp_sock_sendto :: "bytes \<Rightarrow> ip \<Rightarrow> ('a udp_world_scheme, int) py" where
  "udp_sock_sendto data a = (\<lambda>w. case udp_sock w of
       NoUdp \<Rightarrow> (Exn (AttributeError ''NoneType''), w)
     | ClosedUdp \<Rightarrow> (Exn (OSError ''Bad file descriptor''), w)
     | OpenUdp _ \<Rightarrow> sendto data a (udp_dport w) None w)"

text \<open>Neither call returns the number of bytes sent.\<close>

definition udp_send :: "bytes \<Rightarrow> ('a udp_world_scheme, int option) py" where
  "udp_send data =
     py_bind (py_get udp_destination) (\<lambda>a. py_seq (udp_sock_sendto data a) (py_ret None))"

definition udp_send_to :: "ip \<Rightarrow> bytes \<Rightarrow> ('a udp_world_scheme, int option) py" where
  "udp_send_to target_ip data = py_seq (udp_sock_sendto data target_ip) (py_ret None)"

definition udp_select :: "('a udp_world_scheme, bool) py" where
  "udp_select = (\<lambda>w. case udp_sock w of
       NoUdp \<Rightarrow> (Exn (TypeError ''argument must be an int, or have a fileno() method''), w)
     | ClosedUdp \<Rightarrow> (Exn (ValueError ''file descriptor cannot be a negative integer (-1)''), w)
     | OpenUdp _ \<Rightarrow> select_in w)"

definition udp_recvfrom :: "nat \<Rightarrow> ('a udp_world_scheme, bytes \<times> ip) py" where
  "udp_recvfrom n = (\<lambda>w. case udp_sock w of
       NoUdp \<Rightarrow> (Exn (AttributeError ''NoneType''), w)
     | ClosedUdp \<Rightarrow> (Exn (OSError ''Bad file descriptor''), w)
     | OpenUdp blocking \<Rightarrow> recvfrom n blocking w)"

definition udp_recv_size :: "nat \<Rightarrow> ('a udp_world_scheme, bytes option) py" where
  "udp_recv_size n =
     py_bind udp_select (\<lambda>ready.
       if ready then py_bind (udp_recvfrom n) (\<lambda>(d, a). py_ret (Some d)) else py_ret None)"

definition udp_recv :: "rat \<Rightarrow> ('a udp_world_scheme, bytes option) py" where
  "udp_recv recv_timeout = udp_recv_size SOCK_DATA_RECV_AMOUNT_UDP"

text \<open>With a timeout the call waits on \<open>self.socket\<close>, an attribute the class does not have.\<close>

definition udp_receive_from :: "nat \<Rightarrow> rat \<Rightarrow> ('a udp_world_scheme, (bytes \<times> ip) option) py" where
  "udp_receive_from n recv_timeout =
     py_seq (if recv_timeout > 0 then py_raise (AttributeError ''socket'') else py_ret ())
       (py_catch (py_bind (udp_recvfrom n) (\<lambda>t. py_ret (Some t)))
         (\<lambda>ex. if ex = BlockingIOError then py_ret None else py_raise ex))"

subsection \<open>Multicast\<close>

text \<open>
  \<open>mc_in\<close> and \<open>mc_out\<close>: whether the receiving and the sending socket are there. \<open>if_index\<close> is what
  the system says of interface names.
\<close>

record mc_world = net_world +
  mc_source :: ip
  mc_sport :: int
  mc_destination :: ip
  mc_dport :: int
  mc_interface :: "string option"
  if_index :: "string \<Rightarrow> int"
  mc_in :: bool
  mc_out :: bool
  interface_index :: "int option"
  mc_flag :: bool

definition validate_destination_ip :: "ip \<Rightarrow> ip \<Rightarrow> string option \<Rightarrow> exn + unit" where
  "validate_destination_ip destination_ip source_ip interface_name =
     (if \<not> is_multicast destination_ip then Inl (ValueError ''Invalid multicast address provided'')
      else if version_of destination_ip \<noteq> version_of source_ip
      then Inl (ValueError ''Mismatch in IP version between source and destination'')
      else if version_of destination_ip = 6 \<and> interface_name \<in> {None, Some []}
      then Inl (ValueError ''IPv6 multicast requires interface_name to be specified'')
      else Inr ())"

definition setup_receive_socket :: "bool \<Rightarrow> ('a mc_world_scheme, unit) py" where
  "setup_receive_socket is_ipv6 =
     py_seq (sys_call [])
    (py_seq (py_modify (\<lambda>w. w\<lparr>mc_in := True\<rparr>))
    (py_seq (sys_call [])
    (py_seq (sys_call [])
    (py_bind (py_get id) (\<lambda>w.
       if is_ipv6
       then py_seq (sys_call [Bound AF_INET6 (mc_destination w) (mc_dport w)])
                   (sys_call [Joined (mc_destination w) (Inr (the (interface_index w)))])
       else py_seq (sys_call [Bound AF_INET (mc_destination w) (mc_dport w)])
                   (sys_call [Joined (mc_destination w) (Inl (mc_source w))]))))))"

definition setup_send_socket :: "bool \<Rightarrow> ('a mc_world_scheme, unit) py" where
  "setup_send_socket is_ipv6 =
     py_seq (sys_call [])
    (py_seq (py_modify (\<lambda>w. w\<lparr>mc_out := True\<rparr>))
    (py_seq (sys_call [])
    (py_bind (py_get id) (\<lambda>w.
       if is_ipv6
       then py_seq (sys_call [Bound AF_INET6 (mc_source w) (mc_sport w)])
           (py_seq (sys_call [OutOf (Inr (the (interface_index w)))])
                   (sys_call []))
       else py_seq (sys_call [Bound AF_INET (mc_source w) (mc_sport w)])
           (py_seq (sys_call [OutOf (Inl (mc_source w))])
                   (sys_call []))))))"

text \<open>Errors of closing a socket are swallowed.\<close>

definition cleanup_sockets :: "('a mc_world_scheme, unit) py" where
  "cleanup_sockets =
     py_seq (py_bind (py_get mc_in) (\<lambda>b.
       if b then py_seq (py_catch (sys_call []) (\<lambda>ex. py_ret ())) (py_modify (\<lambda>w. w\<lparr>mc_in := False\<rparr>))
       else py_ret ()))
    (py_seq (py_bind (py_get mc_out) (\<lambda>b.
       if b then py_seq (py_catch (sys_call []) (\<lambda>ex. py_ret ())) (py_modify (\<lambda>w. w\<lparr>mc_out := False\<rparr>))
       else py_ret ()))
       (py_modify (\<lambda>w. w\<lparr>mc_flag := False\<rparr>)))"

definition mc_open :: "('a mc_world_scheme, bool) py" where
  "mc_open =
     py_catch
       (py_bind (py_get (\<lambda>w. version_of (mc_source w) = 6)) (\<lambda>is_ipv6.
          py_seq (if is_ipv6
                  then py_seq (sys_call [])
                         (py_modify (\<lambda>w. w\<lparr>interface_index := Some (if_index w (the (mc_interface w)))\<rparr>))
                  else py_ret ())
         (py_seq (setup_receive_socket is_ipv6)
         (py_seq (setup_send_socket is_ipv6)
         (py_seq (py_modify (\<lambda>w. w\<lparr>mc_flag := True\<rparr>))
                 (py_ret True))))))
       (\<lambda>ex. py_seq cleanup_sockets
               (py_raise (RuntimeError ''Failed to open multicast communicator'')))"

definition mc_close :: "('a mc_world_scheme, bool) py" where
  "mc_close = py_seq cleanup_sockets (py_ret True)"

definition mc_is_open :: "'a mc_world_scheme \<Rightarrow> bool" where
  "mc_is_open w \<longleftrightarrow> mc_flag w \<and> mc_in w \<and> mc_out w"

definition require_open :: "('a mc_world_scheme, 'b) py \<Rightarrow> ('a mc_world_scheme, 'b) py" where
  "require_open m = py_bind (py_get mc_is_open) (\<lambda>b.
     if \<not> b then py_raise (RuntimeError ''Communicator is not open'') else m)"

definition mc_sendto :: "ip \<Rightarrow> bytes \<Rightarrow> ('a mc_world_scheme, int) py" where
  "mc_sendto a data = (\<lambda>w.
     if version_of a = 6
     then (case interface_index w of
             None \<Rightarrow> (Exn (TypeError ''an integer is required (got type NoneType)''), w)
           | Some i \<Rightarrow> sendto data a (mc_dport w) (Some i) w)
     else sendto data a (mc_dport w) None w)"

definition mc_send_to :: "ip \<Rightarrow> bytes \<Rightarrow> ('a mc_world_scheme, int) py" where
  "mc_send_to target_ip data =
     require_open
       (py_catch (mc_sendto target_ip data)
         (\<lambda>ex. py_raise (RuntimeError ''Failed to send data'')))"

definition mc_send :: "bytes \<Rightarrow> ('a mc_world_scheme, int) py" where
  "mc_send data =
     require_open
       (py_catch (py_bind (py_get mc_destination) (\<lambda>a. mc_sendto a data))
         (\<lambda>ex. py_raise (RuntimeError ''Failed to send data'')))"

definition mc_recv_size :: "rat \<Rightarrow> nat \<Rightarrow> ('a mc_world_scheme, bytes option) py" where
  "mc_recv_size recv_timeout n =
     require_open
       (py_catch
         (py_bind (if recv_timeout > 0 then select_in else py_ret True) (\<lambda>ready.
            if \<not> ready then py_ret None
            else py_bind (recvfrom n False) (\<lambda>(d, a). py_ret (Some d))))
         (\<lambda>ex. if ex = BlockingIOError then py_ret None
               else py_raise (RuntimeError ''Failed to receive data'')))"

definition mc_recv :: "rat \<Rightarrow> ('a mc_world_scheme, bytes option) py" where
  "mc_recv recv_timeout = mc_recv_size recv_timeout SOCK_DATA_RECV_AMOUNT_UDP"

text \<open>The \<open>TimeoutError\<close> of the timed wait is raised inside the \<open>try\<close> that turns it into another.\<close>

definition mc_receive_from :: "nat \<Rightarrow> rat \<Rightarrow> ('a mc_world_scheme, bytes \<times> ip) py" where
  "mc_receive_from n recv_timeout =
     require_open
       (py_catch
         (py_bind (if recv_timeout > 0 then select_in else py_ret True) (\<lambda>ready.
            if \<not> ready then py_raise (TimeoutError ''Receive operation timed out'')
            else recvfrom n False))
         (\<lambda>ex. if ex = BlockingIOError then py_raise (TimeoutError ''No data available (non-blocking)'')
               else py_raise (RuntimeError ''Failed to receive data'')))"

subsection \<open>The interface of connectionless links\<close>

text \<open>
  What SOME/IP needs of a socket to its discovery: a received message leaves the queue, is cut to
  the buffer and noted; sending touches neither the queue nor what was received.
\<close>

definition arrival :: "(bytes \<times> ip) option \<Rightarrow> dgram" where
  "arrival x = (case x of None \<Rightarrow> DgQuiet | Some (d, a) \<Rightarrow> Datagram d a)"

definition delivered :: "(bytes \<times> ip) option \<Rightarrow> bytes option" where
  "delivered x = map_option (\<lambda>(d, a). take 4096 d) x"

definition dgrams_got :: "'a net_world_scheme \<Rightarrow> bytes list" where
  "dgrams_got w = concat (map (\<lambda>e. case e of DgGot d \<Rightarrow> [d] | _ \<Rightarrow> []) (net_log w))"

fun recv_many :: "(rat \<Rightarrow> ('w, bytes option) py) \<Rightarrow> rat list \<Rightarrow> ('w, bytes option list) py" where
  "recv_many recv [] = py_ret []"
| "recv_many recv (t # ts) =
     py_bind (recv t) (\<lambda>d. py_bind (recv_many recv ts) (\<lambda>ds. py_ret (d # ds)))"

locale datagram_link =
  fixes send :: "bytes \<Rightarrow> ('w, 'n) py"
    and recv :: "rat \<Rightarrow> ('w, bytes option) py"
    and ready :: "'w \<Rightarrow> bool"
    and queue :: "'w \<Rightarrow> dgram list"
    and received :: "'w \<Rightarrow> bytes list"
  assumes recv_next: "ready w \<Longrightarrow> queue w = arrival x # rest \<Longrightarrow>
            \<exists>w'. recv t w = (Val (delivered x), w') \<and> queue w' = rest \<and> ready w'"
    and recv_received: "recv t w = (r, w') \<Longrightarrow>
            received w' = received w @ (case r of Val (Some d) \<Rightarrow> [d] | _ \<Rightarrow> [])"
    and recv_returns: "returns (recv t) w"
    and send_returns: "returns (send d) w"
    and send_keeps: "send d w = (sent, w') \<Longrightarrow>
            queue w' = queue w \<and> received w' = received w \<and> (ready w \<longrightarrow> ready w')"
begin

lemma recv_in_order:
  assumes "ready w" and "queue w = map arrival xs @ rest" and "length ts = length xs"
  shows "\<exists>w'. recv_many recv ts w = (Val (map delivered xs), w') \<and> queue w' = rest \<and> ready w'"
  using assms
proof (induction xs arbitrary: ts w)
  case (Cons x xs)
  from Cons.prems(3) obtain t ts' where ts: "ts = t # ts'" by (cases ts) auto
  obtain v where v: "recv t w = (Val (delivered x), v)" "queue v = map arrival xs @ rest" "ready v"
    using recv_next [OF Cons.prems(1), of x "map arrival xs @ rest" t] Cons.prems(2) by auto
  from Cons.prems(3) ts have "length ts' = length xs"
    by simp
  from Cons.IH [OF v(3) v(2) this] obtain w' where
    "recv_many recv ts' v = (Val (map delivered xs), w')" "queue w' = rest" "ready w'"
    by blast
  with v(1) show ?case
    by (simp add: ts py_bind_def)
qed auto

lemma recv_many_received:
  "recv_many recv ts w = (Val ds, w') \<Longrightarrow> received w' = received w @ concat (map (\<lambda>d. case d of Some b \<Rightarrow> [b] | None \<Rightarrow> []) ds)"
proof (induction ts arbitrary: w ds)
  case (Cons t ts)
  then obtain d v es where "recv t w = (Val d, v)" "recv_many recv ts v = (Val es, w')" "ds = d # es"
    by (auto simp: py_inv)
  with Cons.IH recv_received show ?case
    by (fastforce split: option.splits)
qed auto

end

lemma select_in_got: "select_in w = (r, w') \<Longrightarrow> net_log w' = net_log w \<and> (\<exists>b. r = Val b)
    \<and> (r = Val True \<longrightarrow> w' = w \<and> dgram_in w \<noteq> [] \<and> hd (dgram_in w) \<noteq> DgQuiet)"
  by (auto simp: select_in_def split: list.splits dgram.splits)

lemma take_dgram_not_Diverge:
  "s \<noteq> [] \<and> hd s \<noteq> DgQuiet \<or> \<not> blocking \<Longrightarrow> fst (take_dgram n blocking s) \<noteq> Diverge"
  by (cases "(n, blocking, s)" rule: take_dgram.cases) auto

lemma returns_select_in [intro, simp]: "returns select_in w"
  using select_in_got [of w] by (cases "select_in w") (auto simp: returns_def)

lemma returns_recvfrom:
  "\<not> b \<or> (\<exists>v. select_in v = (Val True, w)) \<Longrightarrow> returns (recvfrom n b) w"
  using take_dgram_not_Diverge [of "dgram_in w" b n] select_in_got [of _ "Val True" w]
  by (auto simp: returns_def recvfrom_def split: prod.splits res.splits) blast+

lemma recvfrom_got: "recvfrom n b w = (r, w') \<Longrightarrow>
    dgrams_got w' = dgrams_got w @ (case r of Val (d, a) \<Rightarrow> [d] | _ \<Rightarrow> [])"
  by (auto simp: recvfrom_def dgrams_got_def split: prod.splits res.splits)

lemma sys_call_frame: "sys_call es w = (r, w') \<Longrightarrow> dgram_in w' = dgram_in w \<and> r \<noteq> Diverge \<and>
    ((\<forall>e\<in>set es. \<forall>d. e \<noteq> DgGot d) \<longrightarrow> dgrams_got w' = dgrams_got w)"
  by (auto simp: sys_call_def dgrams_got_def split: list.splits option.splits net_event.splits)

lemma sendto_frame: "sendto d a p i w = (r, w') \<Longrightarrow> dgram_in w' = dgram_in w \<and> r \<noteq> Diverge \<and> dgrams_got w' = dgrams_got w"
  using sys_call_frame [of "[DgSent d a p i]" w "fst (sys_call [DgSent d a p i] w)" "snd (sys_call [DgSent d a p i] w)"]
  by (auto simp: sendto_def py_seq_def py_bind_def split: prod.splits res.splits)

lemma udp_recv_next:
  assumes "udp_sock w = OpenUdp b" and "dgram_in w = arrival x # rest"
  shows "\<exists>w'. udp_recv t w = (Val (delivered x), w') \<and> dgram_in w' = rest \<and> udp_sock w' = udp_sock w"
  using assms by (cases x)
    (auto simp: udp_recv_def udp_recv_size_def udp_select_def udp_recvfrom_def select_in_def recvfrom_def
      arrival_def delivered_def py_bind_def SOCK_DATA_RECV_AMOUNT_UDP_def)

lemma udp_recv_got:
  "udp_recv t w = (r, w') \<Longrightarrow> dgrams_got w' = dgrams_got w @ (case r of Val (Some d) \<Rightarrow> [d] | _ \<Rightarrow> [])"
  by (auto simp: udp_recv_def udp_recv_size_def udp_select_def udp_recvfrom_def py_bind_def
      select_in_def recvfrom_def dgrams_got_def
      split: prod.splits res.splits udp_sock.splits list.splits dgram.splits if_splits)

lemma udp_recv_returns: "returns (udp_recv t) w"
proof (cases "udp_sock w")
  case (OpenUdp b)
  have open_after: "udp_sock v = OpenUdp b" if "select_in w = (r, v)" for r v
    using that OpenUdp by (auto simp: select_in_def split: list.splits dgram.splits)
  have "returns (udp_recvfrom n) v" if "udp_select w = (Val True, v)" for n v
    using that OpenUdp open_after [of "Val True" v] returns_recvfrom [of b v n]
    by (auto simp: udp_select_def udp_recvfrom_def returns_def)
  moreover have "returns udp_select w"
    using OpenUdp returns_select_in [of w] by (simp add: udp_select_def returns_def)
  ultimately show ?thesis
    unfolding udp_recv_def udp_recv_size_def by (auto intro!: returns_bind)
qed (simp_all add: returns_def udp_recv_def udp_recv_size_def udp_select_def py_bind_def)

lemma udp_send_frame:
  "udp_send d w = (r, w') \<Longrightarrow> dgram_in w' = dgram_in w \<and> dgrams_got w' = dgrams_got w \<and>
     udp_sock w' = udp_sock w \<and> r \<noteq> Diverge"
  by (auto simp: udp_send_def udp_sock_sendto_def sendto_def sys_call_def dgrams_got_def py_defs
      split: udp_sock.splits list.splits option.splits)

interpretation udp: datagram_link udp_send udp_recv "\<lambda>w. \<exists>b. udp_sock w = OpenUdp b" dgram_in dgrams_got
proof unfold_locales
  fix w w' :: "'a udp_world_scheme" and x rest t d r sent
  show "\<exists>b. udp_sock w = OpenUdp b \<Longrightarrow> dgram_in w = arrival x # rest \<Longrightarrow>
      \<exists>w'. udp_recv t w = (Val (delivered x), w') \<and> dgram_in w' = rest \<and> (\<exists>b. udp_sock w' = OpenUdp b)"
    using udp_recv_next by fastforce
  show "udp_recv t w = (r, w') \<Longrightarrow> dgrams_got w' = dgrams_got w @ (case r of Val (Some d) \<Rightarrow> [d] | _ \<Rightarrow> [])"
    by (rule udp_recv_got)
  show "returns (udp_recv t) w"
    by (rule udp_recv_returns)
  show "returns (udp_send d) w"
    using udp_send_frame [of d w "fst (udp_send d w)" "snd (udp_send d w)"] by (simp add: returns_def)
  show "udp_send d w = (sent, w') \<Longrightarrow> dgram_in w' = dgram_in w \<and> dgrams_got w' = dgrams_got w \<and>
      ((\<exists>b. udp_sock w = OpenUdp b) \<longrightarrow> (\<exists>b. udp_sock w' = OpenUdp b))"
    using udp_send_frame by auto
qed

lemma mc_recv_next:
  assumes "mc_is_open w" and "dgram_in w = arrival x # rest"
  shows "\<exists>w'. mc_recv t w = (Val (delivered x), w') \<and> dgram_in w' = rest \<and> mc_is_open w'"
  using assms by (cases x)
    (auto simp: mc_recv_def mc_recv_size_def require_open_def select_in_def recvfrom_def mc_is_open_def
      arrival_def delivered_def py_bind_def py_catch_def SOCK_DATA_RECV_AMOUNT_UDP_def)

lemma mc_recv_got:
  "mc_recv t w = (r, w') \<Longrightarrow> dgrams_got w' = dgrams_got w @ (case r of Val (Some d) \<Rightarrow> [d] | _ \<Rightarrow> [])"
  by (auto simp: mc_recv_def mc_recv_size_def require_open_def py_bind_def py_catch_def
      select_in_def recvfrom_def dgrams_got_def
      split: prod.splits res.splits list.splits dgram.splits if_splits)

lemma mc_recv_returns: "returns (mc_recv t) w"
  unfolding mc_recv_def mc_recv_size_def require_open_def
  by (intro returns_bind returns_get) (auto intro!: returns_bind returns_catch returns_recvfrom)

lemma mc_send_frame:
  "mc_send d w = (r, w') \<Longrightarrow> dgram_in w' = dgram_in w \<and> dgrams_got w' = dgrams_got w \<and>
     mc_is_open w' = mc_is_open w \<and> r \<noteq> Diverge"
  by (auto simp: mc_send_def require_open_def mc_sendto_def sendto_def sys_call_def dgrams_got_def py_defs
      mc_is_open_def split: list.splits option.splits if_splits)

interpretation multicast: datagram_link mc_send mc_recv mc_is_open dgram_in dgrams_got
proof unfold_locales
  fix w w' :: "'a mc_world_scheme" and x rest t d r sent
  show "mc_is_open w \<Longrightarrow> dgram_in w = arrival x # rest \<Longrightarrow>
      \<exists>w'. mc_recv t w = (Val (delivered x), w') \<and> dgram_in w' = rest \<and> mc_is_open w'"
    by (rule mc_recv_next)
  show "mc_recv t w = (r, w') \<Longrightarrow> dgrams_got w' = dgrams_got w @ (case r of Val (Some d) \<Rightarrow> [d] | _ \<Rightarrow> [])"
    by (rule mc_recv_got)
  show "returns (mc_recv t) w"
    by (rule mc_recv_returns)
  show "returns (mc_send d) w"
    using mc_send_frame [of d w "fst (mc_send d w)" "snd (mc_send d w)"] by (simp add: returns_def)
  show "mc_send d w = (sent, w') \<Longrightarrow> dgram_in w' = dgram_in w \<and> dgrams_got w' = dgrams_got w \<and>
      (mc_is_open w \<longrightarrow> mc_is_open w')"
    using mc_send_frame by auto
qed

subsection \<open>The multicast communicator's calls\<close>

datatype mc_call =
  McOpen | McClose | McSend bytes | McSendTo ip bytes | McRecv rat nat | McReceiveFrom nat rat

fun mc_do :: "mc_call \<Rightarrow> ('a mc_world_scheme, unit) py" where
  "mc_do McOpen = py_seq mc_open (py_ret ())"
| "mc_do McClose = py_seq mc_close (py_ret ())"
| "mc_do (McSend d) = py_seq (mc_send d) (py_ret ())"
| "mc_do (McSendTo a d) = py_seq (mc_send_to a d) (py_ret ())"
| "mc_do (McRecv t n) = py_seq (mc_recv_size t n) (py_ret ())"
| "mc_do (McReceiveFrom n t) = py_seq (mc_receive_from n t) (py_ret ())"

text \<open>A program that goes on after whatever the calls raise.\<close>

fun mc_calls :: "mc_call list \<Rightarrow> 'a mc_world_scheme \<Rightarrow> 'a mc_world_scheme" where
  "mc_calls [] w = w"
| "mc_calls (c # cs) w = mc_calls cs (snd (mc_do c w))"

definition mc_all_closed :: "'a mc_world_scheme \<Rightarrow> bool" where
  "mc_all_closed w \<longleftrightarrow> \<not> mc_flag w \<and> \<not> mc_in w \<and> \<not> mc_out w"

definition mc_consistent :: "'a mc_world_scheme \<Rightarrow> bool" where
  "mc_consistent w \<longleftrightarrow> mc_is_open w \<or> mc_all_closed w"

lemma sys_call_mc: "sys_call es w = (r, w') \<Longrightarrow>
    mc_flag w' = mc_flag w \<and> mc_in w' = mc_in w \<and> mc_out w' = mc_out w \<and> r \<noteq> Diverge"
  by (auto simp: sys_call_def split: list.splits option.splits)

lemma sys_call_swallowed: "\<exists>v. py_catch (sys_call []) (\<lambda>ex. py_ret ()) w = (Val (), v) \<and>
    mc_in v = mc_in w \<and> mc_out v = mc_out w"
  using sys_call_mc [of "[]" w] by (cases "sys_call [] w"; cases "fst (sys_call [] w)") (auto simp: py_catch_def)

lemma cleanup_sockets_run: "\<exists>w'. cleanup_sockets w = (Val (), w') \<and> mc_all_closed w'"
proof -
  define m1 m2 :: "('a mc_world_scheme, unit) py" where
    "m1 = py_bind (py_get mc_in) (\<lambda>b.
       if b then py_seq (py_catch (sys_call []) (\<lambda>ex. py_ret ())) (py_modify (\<lambda>w. w\<lparr>mc_in := False\<rparr>))
       else py_ret ())" and
    "m2 = py_bind (py_get mc_out) (\<lambda>b.
       if b then py_seq (py_catch (sys_call []) (\<lambda>ex. py_ret ())) (py_modify (\<lambda>w. w\<lparr>mc_out := False\<rparr>))
       else py_ret ())"
  obtain v where v: "m1 w = (Val (), v)" "\<not> mc_in v"
    using sys_call_swallowed [of w] by (cases "mc_in w") (auto simp: m1_def py_seq_def py_bind_def)
  obtain u where u: "m2 v = (Val (), u)" "\<not> mc_out u" "mc_in u = mc_in v"
    using sys_call_swallowed [of v] by (cases "mc_out v") (auto simp: m2_def py_seq_def py_bind_def)
  have "cleanup_sockets w = py_seq m1 (py_seq m2 (py_modify (\<lambda>w. w\<lparr>mc_flag := False\<rparr>))) w"
    unfolding cleanup_sockets_def m1_def m2_def ..
  also have "\<dots> = (Val (), u\<lparr>mc_flag := False\<rparr>)"
    by (simp add: py_seq_def py_bind_def v u)
  finally have "cleanup_sockets w = (Val (), u\<lparr>mc_flag := False\<rparr>)" .
  with u v show ?thesis
    by (simp add: mc_all_closed_def)
qed

lemma returns_sys_call [intro!, simp]: "returns (sys_call es) w"
  by (auto simp: returns_def sys_call_def split: list.splits option.splits)

text \<open>Setting a socket up leaves it there, and the other as it was, unless an error is raised.\<close>

lemma setup_receive_mc:
  "setup_receive_socket b w = (Val (), w') \<Longrightarrow> mc_in w' \<and> mc_out w' = mc_out w"
  by (auto simp: setup_receive_socket_def py_inv py_seq_def split: if_splits dest!: sys_call_mc)

lemma setup_send_mc:
  "setup_send_socket b w = (Val (), w') \<Longrightarrow> mc_out w' \<and> mc_in w' = mc_in w"
  by (auto simp: setup_send_socket_def py_inv py_seq_def split: if_splits dest!: sys_call_mc)

lemma mc_open_run:
  assumes "mc_open w = (r, w')"
  shows "r = Val True \<and> mc_is_open w' \<or>
     r = Exn (RuntimeError ''Failed to open multicast communicator'') \<and> mc_all_closed w'"
proof -
  define steps where "steps = py_bind (py_get (\<lambda>w :: 'a mc_world_scheme. version_of (mc_source w) = 6)) (\<lambda>is_ipv6.
          py_seq (if is_ipv6
                  then py_seq (sys_call [])
                         (py_modify (\<lambda>w. w\<lparr>interface_index := Some (if_index w (the (mc_interface w)))\<rparr>))
                  else py_ret ())
         (py_seq (setup_receive_socket is_ipv6)
         (py_seq (setup_send_socket is_ipv6)
         (py_seq (py_modify (\<lambda>w. w\<lparr>mc_flag := True\<rparr>))
                 (py_ret True)))))"
  have returns: "returns steps w"
    by (auto simp: steps_def setup_receive_socket_def setup_send_socket_def intro!: returns_bind returns_seq)
  have mc_open: "mc_open = py_catch steps (\<lambda>ex. py_seq cleanup_sockets
      (py_raise (RuntimeError ''Failed to open multicast communicator'')))"
    unfolding mc_open_def steps_def ..
  obtain q v where run: "steps w = (q, v)" by fastforce
  show ?thesis
  proof (cases q)
    case (Val b)
    then have "b \<and> mc_is_open v"
      using run by (auto simp: steps_def py_inv py_seq_def mc_is_open_def dest!: setup_send_mc setup_receive_mc split: if_splits)
    then show ?thesis
      using assms run Val by (simp add: mc_open py_catch_def)
  next
    case (Exn e)
    obtain u where "cleanup_sockets v = (Val (), u)" "mc_all_closed u"
      using cleanup_sockets_run by blast
    then show ?thesis
      using assms run Exn by (simp add: mc_open py_catch_def run_seq_Val)
  next
    case Diverge
    with returns run show ?thesis
      by (simp add: returns_def)
  qed
qed

text \<open>What the other calls leave of the sockets.\<close>

lemma mc_use_frame:
  "mc_send d w = (r, w') \<Longrightarrow> mc_flag w' = mc_flag w \<and> mc_in w' = mc_in w \<and> mc_out w' = mc_out w"
  "mc_send_to a d w = (r, w') \<Longrightarrow> mc_flag w' = mc_flag w \<and> mc_in w' = mc_in w \<and> mc_out w' = mc_out w"
  "mc_recv_size t n w = (q, w') \<Longrightarrow> mc_flag w' = mc_flag w \<and> mc_in w' = mc_in w \<and> mc_out w' = mc_out w"
  "mc_receive_from n t w = (p, w') \<Longrightarrow> mc_flag w' = mc_flag w \<and> mc_in w' = mc_in w \<and> mc_out w' = mc_out w"
  by (auto simp: mc_send_def mc_send_to_def mc_recv_size_def mc_receive_from_def require_open_def mc_sendto_def
      sendto_def sys_call_def select_in_def recvfrom_def py_defs
      split: list.splits option.splits dgram.splits prod.splits res.splits if_splits)

lemma mc_use_raises:
  "mc_send d w = (Exn e, w') \<Longrightarrow> \<exists>m. e = RuntimeError m"
  "mc_send_to a d w = (Exn e, w') \<Longrightarrow> \<exists>m. e = RuntimeError m"
  "mc_recv_size t n w = (Exn e, w') \<Longrightarrow> \<exists>m. e = RuntimeError m"
  "mc_receive_from n t w = (Exn e, w') \<Longrightarrow> \<exists>m. e = RuntimeError m \<or> e = TimeoutError m"
  by (auto simp: mc_send_def mc_send_to_def mc_recv_size_def mc_receive_from_def require_open_def py_inv
      split: if_splits)

lemma mc_do_consistent: "mc_consistent w \<Longrightarrow> mc_consistent (snd (mc_do c w))"
proof (cases c)
  case McOpen
  then show ?thesis
    using mc_open_run [of w "fst (mc_open w)" "snd (mc_open w)"]
    by (cases "mc_open w") (auto simp: py_seq_def py_bind_def mc_consistent_def)
next
  case McClose
  then show ?thesis
    using cleanup_sockets_run [of w] by (auto simp: mc_close_def py_seq_def py_bind_def mc_consistent_def)
next
  case (McSend d)
  moreover assume "mc_consistent w"
  ultimately show ?thesis
    using mc_use_frame(1) [of d w] by (cases "mc_send d w"; cases "fst (mc_send d w)")
      (auto simp: py_seq_def py_bind_def mc_consistent_def mc_is_open_def mc_all_closed_def)
next
  case (McSendTo a d)
  moreover assume "mc_consistent w"
  ultimately show ?thesis
    using mc_use_frame(2) [of a d w] by (cases "mc_send_to a d w"; cases "fst (mc_send_to a d w)")
      (auto simp: py_seq_def py_bind_def mc_consistent_def mc_is_open_def mc_all_closed_def)
next
  case (McRecv t n)
  moreover assume "mc_consistent w"
  ultimately show ?thesis
    using mc_use_frame(3) [of t n w] by (cases "mc_recv_size t n w"; cases "fst (mc_recv_size t n w)")
      (auto simp: py_seq_def py_bind_def mc_consistent_def mc_is_open_def mc_all_closed_def)
next
  case (McReceiveFrom n t)
  moreover assume "mc_consistent w"
  ultimately show ?thesis
    using mc_use_frame(4) [of n t w] by (cases "mc_receive_from n t w"; cases "fst (mc_receive_from n t w)")
      (auto simp: py_seq_def py_bind_def mc_consistent_def mc_is_open_def mc_all_closed_def)
qed

lemma mc_calls_consistent: "mc_consistent w \<Longrightarrow> mc_consistent (mc_calls cs w)"
  by (induction cs w rule: mc_calls.induct) (auto dest: mc_do_consistent)

lemma mc_do_raises:
  "mc_do c w = (Exn e, w') \<Longrightarrow> \<exists>m. e = RuntimeError m \<or> (\<exists>n t. c = McReceiveFrom n t) \<and> e = TimeoutError m"
proof (cases c)
  case McOpen
  then show "mc_do c w = (Exn e, w') \<Longrightarrow> ?thesis"
    using mc_open_run [of w] by (auto simp: py_seq_def py_inv)
next
  case McClose
  then show "mc_do c w = (Exn e, w') \<Longrightarrow> ?thesis"
    using cleanup_sockets_run [of w] by (auto simp: mc_close_def py_seq_def py_inv)
qed (auto simp: py_seq_def py_inv dest: mc_use_raises)

subsection \<open>Properties\<close>

text \<open>
  C18. Datagrams arrive in order. On an open UDP or multicast socket, as many receives as there are
  arrivals (datagrams, or waits in which nothing comes) return exactly those datagrams, in order,
  each cut to 4096 bytes, and nothing where nothing came; what comes later stays queued. Once
  nothing is left to come, a receive returns nothing.
\<close>

theorem datagrams_in_order:
  assumes "udp_sock w = OpenUdp b" and "dgram_in w = map arrival xs @ rest"
    and "mc_is_open v" and "dgram_in v = map arrival xs @ rest" and "length ts = length xs"
  shows "(\<exists>w'. recv_many udp_recv ts w = (Val (map delivered xs), w') \<and> dgram_in w' = rest \<and>
        (rest = [] \<longrightarrow> udp_recv t w' = (Val None, w'))) \<and>
     (\<exists>v'. recv_many mc_recv ts v = (Val (map delivered xs), v') \<and> dgram_in v' = rest \<and>
        (rest = [] \<longrightarrow> fst (mc_recv t v') = Val None))"
proof (intro conjI)
  obtain w' where w': "recv_many udp_recv ts w = (Val (map delivered xs), w')" "dgram_in w' = rest"
      "\<exists>b. udp_sock w' = OpenUdp b"
    using udp.recv_in_order [of w, OF _ assms(2,5)] assms(1) by blast
  then show "\<exists>w'. recv_many udp_recv ts w = (Val (map delivered xs), w') \<and> dgram_in w' = rest \<and>
      (rest = [] \<longrightarrow> udp_recv t w' = (Val None, w'))"
    by (auto simp: udp_recv_def udp_recv_size_def udp_select_def select_in_def py_bind_def)
  obtain v' where v': "recv_many mc_recv ts v = (Val (map delivered xs), v')" "dgram_in v' = rest" "mc_is_open v'"
    using multicast.recv_in_order [OF assms(3,4,5)] by blast
  then show "\<exists>v'. recv_many mc_recv ts v = (Val (map delivered xs), v') \<and> dgram_in v' = rest \<and>
      (rest = [] \<longrightarrow> fst (mc_recv t v') = Val None)"
    by (auto simp: mc_recv_def mc_recv_size_def require_open_def select_in_def recvfrom_def py_bind_def
        py_catch_def intro!: exI [of _ v'])
qed

definition demo_udp :: udp_world where
  "demo_udp = \<lparr>sys_script = [], dgram_in = [], net_log = [], udp_source = V4 1, udp_sport = 30490,
     udp_destination = V4 2, udp_dport = 30490, udp_sock = OpenUdp False\<rparr>"

definition demo_multicast :: mc_world where
  "demo_multicast = \<lparr>sys_script = [], dgram_in = [], net_log = [], mc_source = V4 1, mc_sport = 30490,
     mc_destination = V4 0xE0000001, mc_dport = 30490, mc_interface = None, if_index = (\<lambda>_. 0),
     mc_in = False, mc_out = False, interface_index = None, mc_flag = False\<rparr>"

theorem datagrams_in_order_witness:
  "\<exists>w'. recv_many udp_recv [0, 1] (demo_udp\<lparr>dgram_in := [Datagram [1, 2] (V4 3), DgQuiet]\<rparr>) =
     (Val [Some [1, 2], None], w')"
  using datagrams_in_order [of "demo_udp\<lparr>dgram_in := [Datagram [1, 2] (V4 3), DgQuiet]\<rparr>" False
      "[Some ([1, 2], V4 3), None]" "[]"
      "demo_multicast\<lparr>mc_flag := True, mc_in := True, mc_out := True, dgram_in := [Datagram [1, 2] (V4 3), DgQuiet]\<rparr>"
      "[0, 1]" 0]
  by (auto simp: demo_udp_def arrival_def delivered_def mc_is_open_def)

text \<open>
  The multicast communicator never ends up half open. From the closed state, after any sequence
  of calls with any errors of the system in between, it is either open with both sockets or closed
  with none, also when opening failed between the two sockets; and whatever the next call is, all it
  can raise is \<open>RuntimeError\<close>, or \<open>TimeoutError\<close> from receiving with the sender's address.
\<close>

theorem multicast_never_half_open:
  assumes "mc_all_closed w"
  shows "let v = mc_calls cs w in (mc_is_open v \<or> mc_all_closed v) \<and>
     fst (mc_open v) \<in> {Val True, Exn (RuntimeError ''Failed to open multicast communicator'')} \<and>
     (mc_is_open (snd (mc_open v)) \<longleftrightarrow> fst (mc_open v) = Val True) \<and>
     mc_all_closed (snd (mc_close v)) \<and>
     (case fst (mc_do c v) of Exn (RuntimeError _) \<Rightarrow> True
        | Exn (TimeoutError _) \<Rightarrow> (\<exists>n t. c = McReceiveFrom n t) | Exn _ \<Rightarrow> False | _ \<Rightarrow> True)"
proof -
  let ?v = "mc_calls cs w"
  have "mc_consistent ?v"
    using assms by (intro mc_calls_consistent) (simp add: mc_consistent_def)
  moreover have "fst (mc_open ?v) = Val True \<and> mc_is_open (snd (mc_open ?v)) \<or>
      fst (mc_open ?v) = Exn (RuntimeError ''Failed to open multicast communicator'') \<and> mc_all_closed (snd (mc_open ?v))"
    by (rule mc_open_run) simp
  moreover have "mc_all_closed (snd (mc_close ?v))"
    using cleanup_sockets_run [of ?v] by (auto simp: mc_close_def py_seq_def py_bind_def)
  moreover have "case fst (mc_do c ?v) of Exn (RuntimeError _) \<Rightarrow> True
        | Exn (TimeoutError _) \<Rightarrow> (\<exists>n t. c = McReceiveFrom n t) | Exn _ \<Rightarrow> False | _ \<Rightarrow> True"
    using mc_do_raises [of c ?v] by (cases "mc_do c ?v"; cases "fst (mc_do c ?v)") auto
  ultimately show ?thesis
    by (auto simp: Let_def mc_consistent_def mc_is_open_def mc_all_closed_def)
qed

theorem multicast_never_half_open_witness:
  "let v = mc_calls [McOpen, McSend [1], McOpen] (demo_multicast\<lparr>sys_script := replicate 12 None @ [Some BlockingIOError]\<rparr>)
   in mc_is_open v \<or> mc_all_closed v"
  using multicast_never_half_open [of "demo_multicast\<lparr>sys_script := replicate 12 None @ [Some BlockingIOError]\<rparr>"
      "[McOpen, McSend [1], McOpen]" McClose]
  by (simp add: mc_all_closed_def demo_multicast_def Let_def)

text \<open>
  Receiving with the sender's address is broken when a timeout is given. For UDP it always raises
  \<open>AttributeError\<close>, whatever is waiting, and takes nothing; without a timeout it gives the waiting
  datagram. For multicast a wait in which nothing comes ends in \<open>RuntimeError\<close>, not in the
  documented \<open>TimeoutError\<close>, which only the call without a timeout raises.
\<close>

theorem timed_receive_from:
  assumes "mc_is_open v" and "dgram_in v = []" and "0 < t"
  shows "udp_receive_from n t w = (Exn (AttributeError ''socket''), w) \<and>
     (udp_sock w = OpenUdp False \<and> dgram_in w = Datagram d a # s \<longrightarrow>
        fst (udp_receive_from n 0 w) = Val (Some (take n d, a))) \<and>
     mc_receive_from n t v = (Exn (RuntimeError ''Failed to receive data''), v) \<and>
     fst (mc_receive_from n 0 v) = Exn (TimeoutError ''No data available (non-blocking)'')"
  using assms by (auto simp: udp_receive_from_def udp_recvfrom_def recvfrom_def mc_receive_from_def require_open_def
      select_in_def py_defs)

theorem timed_receive_from_witness:
  "fst (mc_receive_from 100 2 (demo_multicast\<lparr>mc_flag := True, mc_in := True, mc_out := True\<rparr>)) =
     Exn (RuntimeError ''Failed to receive data'')"
  using timed_receive_from [of "demo_multicast\<lparr>mc_flag := True, mc_in := True, mc_out := True\<rparr>" 2 100 demo_udp "[]" "V4 0" "[]"]
  by (simp add: mc_is_open_def demo_multicast_def)

end
