(* ===== verification/Someip.thy ===== *)
theory Someip
  imports Datagrams Tcp_Communicator Py_Int
begin

section \<open>SOME/IP\<close>

text \<open>
  Models \<open>SomeipUtils\<close> (\<open>protocol/someip/impl/someip_utils.py\<close>) and the models of
  \<open>protocol/someip/models/someip_models.py\<close>. The layers of \<open>py_pcapplusplus\<close> are a parameter: how a
  layer is built and turned into bytes, and what parsing gives. A socket is the record of the
  operations SOME/IP uses, built from the UDP, multicast or TCP communicator; discovery is proved
  against the interface \<open>datagram_link\<close>.
\<close>

unbundle bit_operations_syntax

subsection \<open>Data models\<close>

datatype Layer4ProtocolType = L4_UDP | L4_TCP

datatype SomeIpReturnCode =
    E_OK | E_NOT_OK | E_UNKNOWN_SERVICE | E_UNKNOWN_METHOD | E_NOT_READY | E_NOT_REACHABLE
  | E_TIMEOUT | E_WRONG_PROTOCOL_VERSION | E_WRONG_INTERFACE_VERSION | E_MALFORMED_MESSAGE
  | E_WRONG_MESSAGE_TYPE

fun return_code_value :: "SomeIpReturnCode \<Rightarrow> int" where
  "return_code_value E_OK = 0x00"
| "return_code_value E_NOT_OK = 0x01"
| "return_code_value E_UNKNOWN_SERVICE = 0x02"
| "return_code_value E_UNKNOWN_METHOD = 0x03"
| "return_code_value E_NOT_READY = 0x04"
| "return_code_value E_NOT_REACHABLE = 0x05"
| "return_code_value E_TIMEOUT = 0x06"
| "return_code_value E_WRONG_PROTOCOL_VERSION = 0x07"
| "return_code_value E_WRONG_INTERFACE_VERSION = 0x08"
| "return_code_value E_MALFORMED_MESSAGE = 0x09"
| "return_code_value E_WRONG_MESSAGE_TYPE = 0x0A"

definition return_codes :: "SomeIpReturnCode list" where
  "return_codes = [E_OK, E_NOT_OK, E_UNKNOWN_SERVICE, E_UNKNOWN_METHOD, E_NOT_READY, E_NOT_REACHABLE,
     E_TIMEOUT, E_WRONG_PROTOCOL_VERSION, E_WRONG_INTERFACE_VERSION, E_MALFORMED_MESSAGE, E_WRONG_MESSAGE_TYPE]"

text \<open>The enumeration's constructor, as pydantic calls it on the field of a model.\<close>

definition SomeIpReturnCode_of :: "int \<Rightarrow> exn + SomeIpReturnCode" where
  "SomeIpReturnCode_of v =
     (case find (\<lambda>c. return_code_value c = v) return_codes of
        None \<Rightarrow> Inl (ValueError ''validation error'')
      | Some c \<Rightarrow> Inr c)"

datatype SomeIpSdOptionFlags = Reboot | Unicast | ExplicitInitialData

fun sd_flag :: "SomeIpSdOptionFlags \<Rightarrow> int" where
  "sd_flag Reboot = 0x80"
| "sd_flag Unicast = 0x40"
| "sd_flag ExplicitInitialData = 0x20"

record SOMEIP_EVTGROUP_INFO =
  eventgroup_id :: int
  initial_data :: "bytes option"

record SOMEIP_METHOD_INFO =
  method_id :: int
  method_return_code :: SomeIpReturnCode
  method_payload :: bytes

record SOMEIP_ENDPOINT_OPTION =
  endpoint_addr :: string
  endpoint_port :: int
  port_type :: Layer4ProtocolType

record SOMEIP_SERVICE_INFO =
  service_id :: int
  instance_id :: int
  major_ver :: int
  minor_ver :: int
  ttl :: int
  endpoints :: "SOMEIP_ENDPOINT_OPTION list"

definition endpoint_str :: "SOMEIP_ENDPOINT_OPTION \<Rightarrow> string" where
  "endpoint_str ep = ''Endpoint address: '' @ endpoint_addr ep @ '', Port: '' @ py_str (endpoint_port ep)
     @ '', Transport type: '' @ (case port_type ep of L4_UDP \<Rightarrow> ''UDP'' | L4_TCP \<Rightarrow> ''TCP'')"

text \<open>
  The conditional expression takes the whole sum before it, not only the endpoints: without
  endpoints the text is empty.
\<close>

definition someip_service_str :: "SOMEIP_SERVICE_INFO \<Rightarrow> string" where
  "someip_service_str s =
     (if endpoints s \<noteq> []
      then ''Service ID: '' @ py_hex (service_id s) @ '', '' @
           ''Instance ID: '' @ py_hex (instance_id s) @ '', '' @
           ''Version: '' @ py_str (major_ver s) @ ''.'' @ py_str (minor_ver s) @ '', '' @
           ''TTL: '' @ py_str (ttl s) @ '', '' @
           (''Endpoints:'' @ NL @ join_text NL (map endpoint_str (endpoints s)))
      else [])"

fun return_code_name :: "SomeIpReturnCode \<Rightarrow> string" where
  "return_code_name E_OK = ''E_OK''"
| "return_code_name E_NOT_OK = ''E_NOT_OK''"
| "return_code_name E_UNKNOWN_SERVICE = ''E_UNKNOWN_SERVICE''"
| "return_code_name E_UNKNOWN_METHOD = ''E_UNKNOWN_METHOD''"
| "return_code_name E_NOT_READY = ''E_NOT_READY''"
| "return_code_name E_NOT_REACHABLE = ''E_NOT_REACHABLE''"
| "return_code_name E_TIMEOUT = ''E_TIMEOUT''"
| "return_code_name E_WRONG_PROTOCOL_VERSION = ''E_WRONG_PROTOCOL_VERSION''"
| "return_code_name E_WRONG_INTERFACE_VERSION = ''E_WRONG_INTERFACE_VERSION''"
| "return_code_name E_MALFORMED_MESSAGE = ''E_MALFORMED_MESSAGE''"
| "return_code_name E_WRONG_MESSAGE_TYPE = ''E_WRONG_MESSAGE_TYPE''"

definition return_code_str :: "SomeIpReturnCode \<Rightarrow> string" where
  "return_code_str c = py_hex (return_code_value c) @ '': '' @
     py_title (map (\<lambda>x. if x = CHR ''_'' then CHR '' '' else x) (return_code_name c))"

text \<open>The first twenty bytes of the payload; of an event group's data it is the first twenty digits.\<close>

definition method_info_str :: "SOMEIP_METHOD_INFO \<Rightarrow> string" where
  "method_info_str m =
     ''Method ID: '' @ py_hex (method_id m) @ '', Return code: '' @ return_code_str (method_return_code m) @
     (if method_payload m \<noteq> []
      then '', Payload['' @ py_str (int (length (method_payload m))) @ '']: '' @ bytes_hex (take 20 (method_payload m))
      else [])"

text \<open>
  \<open>__eq__\<close> and \<open>__hash__\<close> of the two models that go into sets and dictionaries; \<open>hash\<close> is Python's, of
  the tuples the models make.
\<close>

definition endpoint_eq :: "SOMEIP_ENDPOINT_OPTION \<Rightarrow> SOMEIP_ENDPOINT_OPTION \<Rightarrow> bool" where
  "endpoint_eq a b \<longleftrightarrow> endpoint_addr a = endpoint_addr b \<and> endpoint_port a = endpoint_port b \<and>
     port_type a = port_type b"

definition endpoint_hash :: "(string \<times> int \<times> Layer4ProtocolType \<Rightarrow> int) \<Rightarrow> SOMEIP_ENDPOINT_OPTION \<Rightarrow> int" where
  "endpoint_hash hash a = hash (endpoint_addr a, endpoint_port a, port_type a)"

definition service_eq :: "SOMEIP_SERVICE_INFO \<Rightarrow> SOMEIP_SERVICE_INFO \<Rightarrow> bool" where
  "service_eq a b \<longleftrightarrow> service_id a = service_id b \<and> instance_id a = instance_id b \<and>
     major_ver a = major_ver b \<and> minor_ver a = minor_ver b \<and> ttl a = ttl b \<and>
     list_all2 endpoint_eq (endpoints a) (endpoints b)"

text \<open>The hash of the tuple of endpoints is one of their hashes.\<close>

definition service_hash ::
  "(string \<times> int \<times> Layer4ProtocolType \<Rightarrow> int) \<Rightarrow> (int list \<times> int list \<Rightarrow> int) \<Rightarrow> SOMEIP_SERVICE_INFO \<Rightarrow> int" where
  "service_hash hash hash_service a =
     hash_service ([service_id a, instance_id a, major_ver a, minor_ver a, ttl a],
       map (endpoint_hash hash) (endpoints a))"

definition evtgroup_info_str :: "SOMEIP_EVTGROUP_INFO \<Rightarrow> string" where
  "evtgroup_info_str g =
     ''Event group ID: '' @ py_hex (eventgroup_id g) @
     (case initial_data g of
        Some (b # bs) \<Rightarrow> '', Data['' @ py_str (int (length (b # bs))) @ '']: '' @ take 20 (bytes_hex (b # bs))
      | _ \<Rightarrow> [])"

subsection \<open>The layers of the packet library\<close>

datatype SomeIpSdEntryType = FindService | OfferService | SubscribeEventgroup | OtherEntry

datatype SomeIpSdOptionType = IPv4Endpoint | IPv6Endpoint | OtherOption

datatype SomeIpSdProtocolType = SD_TCP | SD_UDP | OtherProtocol

datatype SomeIpMsgType = REQUEST | ERRORS | OtherMessage

text \<open>What the code gives the constructor of an entry, \<open>None\<close> where it leaves the default.\<close>

record entry_args =
  arg_type :: SomeIpSdEntryType
  arg_service_id :: int
  arg_instance_id :: int
  arg_major_version :: int
  arg_ttl :: int
  arg_minor_version :: "int option"
  arg_counter :: "int option"
  arg_event_group_id :: "int option"

record option_args =
  arg_option_type :: SomeIpSdOptionType
  arg_addr :: ip
  arg_port :: int
  arg_protocol :: SomeIpSdProtocolType

record request_args =
  req_service_id :: int
  req_method_id :: int
  req_client_id :: int
  req_session_id :: int
  req_interface_version :: int
  req_msg_type :: SomeIpMsgType

record sd_entry =
  entry_type :: SomeIpSdEntryType
  entry_service_id :: int
  entry_instance_id :: int
  entry_major_version :: int
  entry_minor_version :: int
  entry_ttl :: int
  entry_event_group_id :: int
  index_1 :: nat
  n_opt_1 :: nat
  index_2 :: nat
  n_opt_2 :: nat

record sd_option =
  option_type :: SomeIpSdOptionType
  option_addr :: string
  option_port :: int
  option_protocol :: SomeIpSdProtocolType

record sd_message =
  message_type :: SomeIpMsgType
  sd_return_code :: int
  get_entries :: "sd_entry list"
  get_options :: "sd_option list"

record someip_message =
  msg_return_code :: int
  msg_method_id :: int
  msg_payload :: bytes

record 'l someip_lib =
  new_sd_layer :: "int \<Rightarrow> 'l"
  add_entry :: "'l \<Rightarrow> entry_args \<Rightarrow> nat \<times> 'l"
  add_option_to :: "'l \<Rightarrow> nat \<Rightarrow> option_args \<Rightarrow> 'l"
  sd_bytes :: "'l \<Rightarrow> bytes"
  sd_from_bytes :: "bytes \<Rightarrow> sd_message option"
  someip_bytes :: "request_args \<Rightarrow> bytes"
  someip_from_bytes :: "bytes \<Rightarrow> someip_message option"

subsection \<open>Sockets\<close>

record 'w sd_socket =
  is_udp :: bool
  sd_send :: "bytes \<Rightarrow> ('w, unit) py"
  sd_recv :: "rat \<Rightarrow> ('w, bytes option) py"
  sd_port :: int
  sd_ip :: ip

definition udp_socket :: "int \<Rightarrow> ip \<Rightarrow> 'a udp_world_scheme sd_socket" where
  "udp_socket port addr = \<lparr>is_udp = True, sd_send = (\<lambda>d. py_seq (udp_send d) (py_ret ())), sd_recv = udp_recv,
     sd_port = port, sd_ip = addr\<rparr>"

definition multicast_socket :: "int \<Rightarrow> ip \<Rightarrow> 'a mc_world_scheme sd_socket" where
  "multicast_socket port addr = \<lparr>is_udp = False, sd_send = (\<lambda>d. py_seq (mc_send d) (py_ret ())), sd_recv = mc_recv,
     sd_port = port, sd_ip = addr\<rparr>"

text \<open>The TCP communicator returns bytes also when nothing came, and takes a timeout for sending.\<close>

definition tcp_socket :: "int \<Rightarrow> ip \<Rightarrow> 'a tcp_world_scheme sd_socket" where
  "tcp_socket port addr = \<lparr>is_udp = False, sd_send = (\<lambda>d. py_seq (tcp_send d 0) (py_ret ())),
     sd_recv = (\<lambda>t. py_bind (tcp_recv t) (\<lambda>d. py_ret (Some d))), sd_port = port, sd_ip = addr\<rparr>"

subsection \<open>Finding services\<close>

definition sorted_option_indices :: "sd_entry \<Rightarrow> nat list" where
  "sorted_option_indices e =
     sort ([index_1 e..<index_1 e + n_opt_1 e] @ [index_2 e..<index_2 e + n_opt_2 e])"

definition endpoint_of :: "sd_option \<Rightarrow> SOMEIP_ENDPOINT_OPTION" where
  "endpoint_of opt = \<lparr>endpoint_addr = option_addr opt, endpoint_port = option_port opt,
     port_type = (if option_protocol opt = SD_TCP then L4_TCP else L4_UDP)\<rparr>"

text \<open>The test lets an index equal to the number of options through, on which indexing raises.\<close>

fun parse_options :: "nat list \<Rightarrow> sd_option list \<Rightarrow> exn + SOMEIP_ENDPOINT_OPTION list" where
  "parse_options [] sd_options = Inr []"
| "parse_options (opt_idx # idxs) sd_options =
     (if opt_idx > length sd_options then Inr []
      else if opt_idx = length sd_options then Inl IndexError
      else case parse_options idxs sd_options of
          Inl e \<Rightarrow> Inl e
        | Inr eps \<Rightarrow>
            if option_type (sd_options ! opt_idx) \<in> {IPv4Endpoint, IPv6Endpoint}
            then Inr (endpoint_of (sd_options ! opt_idx) # eps) else Inr eps)"

definition parse_options_for_offer_service ::
  "sd_entry \<Rightarrow> sd_option list \<Rightarrow> SOMEIP_SERVICE_INFO \<Rightarrow> exn + SOMEIP_SERVICE_INFO" where
  "parse_options_for_offer_service e sd_options service_info =
     (case parse_options (sorted_option_indices e) sd_options of
        Inl ex \<Rightarrow> Inl ex
      | Inr eps \<Rightarrow> Inr (service_info\<lparr>endpoints := endpoints service_info @ eps\<rparr>))"

definition service_of :: "sd_entry \<Rightarrow> SOMEIP_SERVICE_INFO" where
  "service_of e = \<lparr>service_id = entry_service_id e, instance_id = entry_instance_id e,
     major_ver = entry_major_version e, minor_ver = entry_minor_version e, ttl = entry_ttl e,
     endpoints = []\<rparr>"

fun parse_entries ::
  "sd_entry list \<Rightarrow> sd_option list \<Rightarrow> SOMEIP_SERVICE_INFO list \<Rightarrow> exn + SOMEIP_SERVICE_INFO list" where
  "parse_entries [] options found_services = Inr found_services"
| "parse_entries (e # es) options found_services =
     (if entry_type e \<noteq> OfferService then parse_entries es options found_services
      else case parse_options_for_offer_service e options (service_of e) of
          Inl ex \<Rightarrow> Inl ex
        | Inr service_info \<Rightarrow> parse_entries es options (found_services @ [service_info]))"

definition parse_find_service_response ::
  "'l someip_lib \<Rightarrow> bytes \<Rightarrow> SOMEIP_SERVICE_INFO list \<Rightarrow> exn + SOMEIP_SERVICE_INFO list" where
  "parse_find_service_response lib recv_data found_services =
     (case sd_from_bytes lib recv_data of
        None \<Rightarrow> Inr found_services
      | Some m \<Rightarrow>
          if message_type m \<noteq> ERRORS \<and> sd_return_code m \<noteq> return_code_value E_UNKNOWN_SERVICE
          then (if length (get_entries m) > 0 \<and> length (get_options m) > 0
                then parse_entries (get_entries m) (get_options m) found_services
                else Inr found_services)
          else Inr found_services)"

fun find_service_loop ::
  "'l someip_lib \<Rightarrow> 'w sd_socket \<Rightarrow> nat \<Rightarrow> rat \<Rightarrow> SOMEIP_SERVICE_INFO list \<Rightarrow>
     ('w, SOMEIP_SERVICE_INFO list) py" where
  "find_service_loop lib s 0 recv_timeout found_services = py_ret found_services"
| "find_service_loop lib s (Suc n) recv_timeout found_services =
     py_bind (sd_recv s recv_timeout) (\<lambda>recv_data.
       py_bind (case recv_data of
                  None \<Rightarrow> py_ret found_services
                | Some d \<Rightarrow> py_lift (parse_find_service_response lib d found_services))
         (\<lambda>found'. find_service_loop lib s n recv_timeout found'))"

definition find_service_bytes :: "'l someip_lib \<Rightarrow> int \<Rightarrow> bytes" where
  "find_service_bytes lib sid =
     sd_bytes lib (snd (add_entry lib (new_sd_layer lib (sd_flag Unicast))
       \<lparr>arg_type = FindService, arg_service_id = sid, arg_instance_id = 0xFFFF, arg_major_version = 0xFF,
        arg_ttl = 0xFFFFFF, arg_minor_version = Some 0xFFFFFFFF, arg_counter = None,
        arg_event_group_id = None\<rparr>))"

definition find_service ::
  "'l someip_lib \<Rightarrow> 'w sd_socket \<Rightarrow> int \<Rightarrow> int \<Rightarrow> rat \<Rightarrow> ('w, SOMEIP_SERVICE_INFO list) py" where
  "find_service lib s sid recv_retry recv_timeout =
     py_seq (if is_udp s then sd_send s (find_service_bytes lib sid) else py_ret ())
       (find_service_loop lib s (nat recv_retry) recv_timeout [])"

subsection \<open>Subscribing to an event group\<close>

definition build_evtgrp_layer ::
  "'l someip_lib \<Rightarrow> SOMEIP_SERVICE_INFO \<Rightarrow> int \<Rightarrow> Layer4ProtocolType \<Rightarrow> int \<Rightarrow> ip \<Rightarrow> 'l" where
  "build_evtgrp_layer lib service_info evtgrpid transport_protocol source_port source_ip =
     (let someip_sd_layer = new_sd_layer lib (sd_flag Unicast OR sd_flag Reboot);
          (index, layer1) = add_entry lib someip_sd_layer
            \<lparr>arg_type = SubscribeEventgroup, arg_service_id = service_id service_info,
             arg_instance_id = instance_id service_info, arg_major_version = major_ver service_info,
             arg_ttl = ttl service_info, arg_minor_version = None, arg_counter = Some 0,
             arg_event_group_id = Some evtgrpid\<rparr>;
          protocol_type = (if transport_protocol = L4_UDP then SD_UDP else SD_TCP);
          opt = (if version_of source_ip = 6
                 then \<lparr>arg_option_type = IPv6Endpoint, arg_addr = source_ip, arg_port = source_port,
                       arg_protocol = protocol_type\<rparr>
                 else \<lparr>arg_option_type = IPv4Endpoint, arg_addr = source_ip, arg_port = source_port,
                       arg_protocol = protocol_type\<rparr>)
      in add_option_to lib layer1 index opt)"

definition acknowledged :: "SOMEIP_SERVICE_INFO \<Rightarrow> int \<Rightarrow> sd_message option \<Rightarrow> bool" where
  "acknowledged service_info evtgrpid m =
     (case m of
        None \<Rightarrow> False
      | Some m \<Rightarrow> (case get_entries m of
          [] \<Rightarrow> False
        | e # _ \<Rightarrow> entry_event_group_id e = evtgrpid \<and> entry_service_id e = service_id service_info))"

definition subscribe_evtgrp ::
  "'l someip_lib \<Rightarrow> 'w sd_socket \<Rightarrow> 'w sd_socket \<Rightarrow> SOMEIP_SERVICE_INFO \<Rightarrow> int \<Rightarrow> Layer4ProtocolType \<Rightarrow> rat \<Rightarrow>
     ('w, SOMEIP_EVTGROUP_INFO option) py" where
  "subscribe_evtgrp lib sd ep service_info evtgrpid transport_protocol recv_timeout =
     (let someip_sd_layer = build_evtgrp_layer lib service_info evtgrpid transport_protocol (sd_port ep) (sd_ip ep)
      in py_seq (sd_send sd (sd_bytes lib someip_sd_layer))
           (py_bind (sd_recv sd recv_timeout) (\<lambda>recv_data.
              case recv_data of
                Some (b # bs) \<Rightarrow>
                  if acknowledged service_info evtgrpid (sd_from_bytes lib (b # bs))
                  then py_bind (sd_recv ep recv_timeout) (\<lambda>d.
                         py_ret (Some \<lparr>eventgroup_id = evtgrpid, initial_data = d\<rparr>))
                  else py_ret None
              | _ \<Rightarrow> py_ret None)))"

subsection \<open>Invoking a method\<close>

definition method_request :: "SOMEIP_SERVICE_INFO \<Rightarrow> int \<Rightarrow> request_args" where
  "method_request service_info mid =
     \<lparr>req_service_id = service_id service_info, req_method_id = mid, req_client_id = 0x0000,
      req_session_id = 0x0001, req_interface_version = major_ver service_info, req_msg_type = REQUEST\<rparr>"

definition method_answer :: "someip_message option \<Rightarrow> exn + SOMEIP_METHOD_INFO option" where
  "method_answer ret =
     (case ret of
        None \<Rightarrow> Inr None
      | Some m \<Rightarrow>
          if msg_return_code m \<noteq> return_code_value E_UNKNOWN_METHOD
          then (case SomeIpReturnCode_of (msg_return_code m) of
                  Inl e \<Rightarrow> Inl e
                | Inr c \<Rightarrow> Inr (Some \<lparr>method_id = msg_method_id m, method_return_code = c,
                    method_payload = msg_payload m\<rparr>))
          else Inr None)"

definition method_invoke ::
  "'l someip_lib \<Rightarrow> 'w sd_socket \<Rightarrow> SOMEIP_SERVICE_INFO \<Rightarrow> int \<Rightarrow> rat \<Rightarrow> ('w, SOMEIP_METHOD_INFO option) py" where
  "method_invoke lib s service_info mid recv_timeout =
     py_seq (sd_send s (someip_bytes lib (method_request service_info mid)))
       (py_bind (sd_recv s recv_timeout) (\<lambda>recv_data.
          case recv_data of
            None \<Rightarrow> py_ret None
          | Some d \<Rightarrow> py_lift (method_answer (someip_from_bytes lib d))))"

subsection \<open>What discovery promises\<close>

text \<open>
  The services a message offers, without loops: the offers among the entries, each with the endpoint
  options in its two runs, by index. A message is bad when an offer's run reaches the index just
  past the options.
\<close>

definition is_endpoint :: "sd_option \<Rightarrow> bool" where
  "is_endpoint opt \<longleftrightarrow> option_type opt \<in> {IPv4Endpoint, IPv6Endpoint}"

definition offer_endpoints :: "sd_option list \<Rightarrow> nat list \<Rightarrow> SOMEIP_ENDPOINT_OPTION list" where
  "offer_endpoints opts idxs =
     map endpoint_of (filter is_endpoint (map ((!) opts) (filter (\<lambda>i. i < length opts) idxs)))"

definition offer_info :: "sd_option list \<Rightarrow> sd_entry \<Rightarrow> SOMEIP_SERVICE_INFO" where
  "offer_info opts e = (service_of e)\<lparr>endpoints := offer_endpoints opts (sorted_option_indices e)\<rparr>"

definition answering :: "'l someip_lib \<Rightarrow> bytes \<Rightarrow> sd_message option" where
  "answering lib d =
     (case sd_from_bytes lib d of
        None \<Rightarrow> None
      | Some m \<Rightarrow> if message_type m \<noteq> ERRORS \<and> sd_return_code m \<noteq> 2 \<and> get_entries m \<noteq> [] \<and> get_options m \<noteq> []
                   then Some m else None)"

definition offers_in :: "'l someip_lib \<Rightarrow> bytes \<Rightarrow> SOMEIP_SERVICE_INFO list" where
  "offers_in lib d =
     (case answering lib d of
        None \<Rightarrow> []
      | Some m \<Rightarrow> map (offer_info (get_options m)) (filter (\<lambda>e. entry_type e = OfferService) (get_entries m)))"

definition bad_message :: "'l someip_lib \<Rightarrow> bytes \<Rightarrow> bool" where
  "bad_message lib d =
     (case answering lib d of
        None \<Rightarrow> False
      | Some m \<Rightarrow> \<exists>e\<in>set (get_entries m). entry_type e = OfferService \<and>
          length (get_options m) \<in> set (sorted_option_indices e))"

definition messages_of :: "(bytes \<times> ip) option list \<Rightarrow> bytes list" where
  "messages_of xs = concat (map (\<lambda>x. case delivered x of None \<Rightarrow> [] | Some d \<Rightarrow> [d]) xs)"

definition discovery :: "'l someip_lib \<Rightarrow> bytes list \<Rightarrow> SOMEIP_SERVICE_INFO list res" where
  "discovery lib ds =
     (if \<exists>d\<in>set ds. bad_message lib d then Exn IndexError else Val (concat (map (offers_in lib) ds)))"

lemma parse_options_sorted:
  "sorted idxs \<Longrightarrow> parse_options idxs opts =
     (if length opts \<in> set idxs then Inl IndexError else Inr (offer_endpoints opts idxs))"
proof (induction idxs opts rule: parse_options.induct)
  case (2 i idxs opts)
  consider "i > length opts" | "i = length opts" | "i < length opts" by linarith
  then show ?case
  proof cases
    case 1
    with 2(2) have "\<forall>j\<in>set (i # idxs). j > length opts"
      by auto
    with 1 show ?thesis
      by (fastforce simp: offer_endpoints_def filter_empty_conv)
  next
    case 3
    with 2 show ?thesis
      by (auto simp: offer_endpoints_def is_endpoint_def split: sum.splits)
  qed simp
qed (simp add: offer_endpoints_def)

lemma parse_options_for_offer_service_eq:
  "parse_options_for_offer_service e opts (service_of e) =
     (if length opts \<in> set (sorted_option_indices e) then Inl IndexError else Inr (offer_info opts e))"
  by (simp add: parse_options_for_offer_service_def parse_options_sorted sorted_option_indices_def
      offer_info_def service_of_def)

lemma parse_entries_eq:
  "parse_entries es opts found =
     (if \<exists>e\<in>set es. entry_type e = OfferService \<and> length opts \<in> set (sorted_option_indices e)
      then Inl IndexError
      else Inr (found @ map (offer_info opts) (filter (\<lambda>e. entry_type e = OfferService) es)))"
  by (induction es opts found rule: parse_entries.induct) (auto simp: parse_options_for_offer_service_eq)

lemma parse_find_service_response_eq:
  "parse_find_service_response lib d found =
     (if bad_message lib d then Inl IndexError else Inr (found @ offers_in lib d))"
  by (auto simp: parse_find_service_response_def bad_message_def offers_in_def answering_def
      parse_entries_eq split: option.splits)

context datagram_link
begin

lemma find_service_loop_run:
  assumes "sd_recv s = recv" and "ready w" and "queue w = map arrival xs @ rest"
  shows "fst (find_service_loop lib s (length xs) t found w) =
     (case discovery lib (messages_of xs) of Val infos \<Rightarrow> Val (found @ infos) | Exn e \<Rightarrow> Exn e | Diverge \<Rightarrow> Diverge)"
  using assms(2,3)
proof (induction xs arbitrary: w found)
  case Nil
  then show ?case by (simp add: discovery_def messages_of_def)
next
  case (Cons x xs)
  obtain v where v: "recv t w = (Val (delivered x), v)" "queue v = map arrival xs @ rest" "ready v"
    using recv_next [OF Cons.prems(1), of x "map arrival xs @ rest" t] Cons.prems(2) by auto
  note IH = Cons.IH [OF v(3,2)]
  show ?case
  proof (cases "delivered x")
    case None
    then show ?thesis
      using v(1) IH assms(1) by (simp add: py_bind_def messages_of_def)
  next
    case (Some d)
    then have "messages_of (x # xs) = d # messages_of xs"
      by (simp add: messages_of_def)
    then show ?thesis
      using v(1) Some IH assms(1)
      by (auto simp: py_bind_def parse_find_service_response_eq discovery_def)
  qed
qed

corollary find_service_loop_all:
  assumes "sd_recv s = recv" and "ready w" and "queue w = map arrival xs @ rest"
  shows "fst (find_service_loop lib s (length xs) t [] w) = discovery lib (messages_of xs)"
  using find_service_loop_run [OF assms, of lib t "[]"] by (simp split: res.splits)

end

lemma udp_send_ok: "udp_sock w = OpenUdp b \<Longrightarrow> sys_script w = [] \<Longrightarrow>
    \<exists>w'. udp_send d w = (Val None, w') \<and> udp_sock w' = OpenUdp b \<and> dgram_in w' = dgram_in w \<and>
      net_log w' = net_log w @ [DgSent d (udp_destination w) (udp_dport w) None]"
  by (simp add: udp_send_def udp_sock_sendto_def sendto_def sys_call_def py_defs)

subsection \<open>Properties\<close>

text \<open>
  C16. Service discovery. A search that waits as often as there are arrivals returns exactly the
  services offered in the messages that arrived, in order, with their endpoints by option index; if
  some offer's options run up to the index just past the end it raises \<open>IndexError\<close> instead and
  everything found is lost. Over UDP it first sends the query; on a multicast socket it only listens.
\<close>

theorem someip_discovers:
  assumes "udp_sock w = OpenUdp b" and "sys_script w = []" and "dgram_in w = map arrival xs @ rest"
    and "mc_is_open v" and "dgram_in v = map arrival xs @ rest"
  shows "fst (find_service lib (udp_socket p a) sid (int (length xs)) t w) = discovery lib (messages_of xs) \<and>
     fst (find_service lib (multicast_socket p a) sid (int (length xs)) t v) = discovery lib (messages_of xs)"
proof (intro conjI)
  obtain w' where "udp_send (find_service_bytes lib sid) w = (Val None, w')" "udp_sock w' = OpenUdp b"
      "dgram_in w' = map arrival xs @ rest"
    using udp_send_ok [OF assms(1,2)] assms(3) by metis
  moreover from this have "fst (find_service_loop lib (udp_socket p a) (length xs) t [] w') = discovery lib (messages_of xs)"
    by (intro udp.find_service_loop_all) (auto simp: udp_socket_def)
  ultimately show "fst (find_service lib (udp_socket p a) sid (int (length xs)) t w) = discovery lib (messages_of xs)"
    by (simp add: find_service_def udp_socket_def py_seq_def py_bind_def)
  have "fst (find_service_loop lib (multicast_socket p a) (length xs) t [] v) = discovery lib (messages_of xs)"
    using assms(4,5) by (intro multicast.find_service_loop_all) (auto simp: multicast_socket_def)
  then show "fst (find_service lib (multicast_socket p a) sid (int (length xs)) t v) = discovery lib (messages_of xs)"
    by (simp add: find_service_def multicast_socket_def py_seq_def py_bind_def)
qed

text \<open>A library whose service discovery messages are what the demonstration needs.\<close>

definition demo_offer :: sd_entry where
  "demo_offer = \<lparr>entry_type = OfferService, entry_service_id = 0xB0A7, entry_instance_id = 1,
     entry_major_version = 1, entry_minor_version = 0, entry_ttl = 3, entry_event_group_id = 7,
     index_1 = 0, n_opt_1 = 1, index_2 = 0, n_opt_2 = 0\<rparr>"

definition demo_someip_lib :: "unit someip_lib" where
  "demo_someip_lib = \<lparr>new_sd_layer = (\<lambda>_. ()), add_entry = (\<lambda>_ _. (0, ())), add_option_to = (\<lambda>_ _ _. ()),
     sd_bytes = (\<lambda>_. [0xFF]),
     sd_from_bytes = (\<lambda>d. if d = [] then None else Some \<lparr>message_type = OtherMessage, sd_return_code = 0,
        get_entries = [if hd d = 1 then demo_offer else demo_offer\<lparr>n_opt_1 := 2\<rparr>],
        get_options = [\<lparr>option_type = IPv4Endpoint, option_addr = ''127.0.0.1'', option_port = 1111,
          option_protocol = SD_UDP\<rparr>]\<rparr>),
     someip_bytes = (\<lambda>_. [0xFE]),
     someip_from_bytes = (\<lambda>d. if d = [] then None
        else Some \<lparr>msg_return_code = uint (hd d), msg_method_id = 5, msg_payload = tl d\<rparr>)\<rparr>"

theorem someip_discovers_witness:
  "fst (find_service demo_someip_lib (udp_socket 1 (V4 1)) 0xB0A7 1 2
      (demo_udp\<lparr>dgram_in := [Datagram [1] (V4 9)]\<rparr>)) =
     Val [(service_of demo_offer)\<lparr>endpoints := [\<lparr>endpoint_addr = ''127.0.0.1'', endpoint_port = 1111, port_type = L4_UDP\<rparr>]\<rparr>]"
  using someip_discovers [of "demo_udp\<lparr>dgram_in := [Datagram [1] (V4 9)]\<rparr>" False "[Some ([1], V4 9)]" "[]"
      "demo_multicast\<lparr>mc_flag := True, mc_in := True, mc_out := True, dgram_in := [Datagram [1] (V4 9)]\<rparr>"
      demo_someip_lib 1 "V4 1" "0xB0A7" 2]
  by (simp add: demo_udp_def demo_multicast_def arrival_def mc_is_open_def discovery_def messages_of_def
      delivered_def bad_message_def offers_in_def answering_def demo_someip_lib_def demo_offer_def
      offer_info_def offer_endpoints_def is_endpoint_def sorted_option_indices_def service_of_def endpoint_of_def)

lemma subscribe_evtgrp_run:
  assumes "sd_send sd (sd_bytes lib (build_evtgrp_layer lib si g l4 (sd_port ep) (sd_ip ep))) s = (Val (), s1)"
    and "sd_recv sd t s1 = (Val r, s2)" and "sd_recv ep t s2 = (Val d, s3)"
  shows "subscribe_evtgrp lib sd ep si g l4 t s =
     (if \<exists>m. r = Some m \<and> m \<noteq> [] \<and> acknowledged si g (sd_from_bytes lib m)
      then (Val (Some \<lparr>eventgroup_id = g, initial_data = d\<rparr>), s3) else (Val None, s2))"
  using assms by (cases r; cases "the r") (auto simp: subscribe_evtgrp_def Let_def py_seq_def py_bind_def)

text \<open>Two sockets, each with its own state.\<close>

definition on_first :: "('s, 'a) py \<Rightarrow> ('s \<times> 't, 'a) py" where
  "on_first m = (\<lambda>(s, t). case m s of (r, s') \<Rightarrow> (r, s', t))"

definition on_second :: "('t, 'a) py \<Rightarrow> ('s \<times> 't, 'a) py" where
  "on_second m = (\<lambda>(s, t). case m t of (r, t') \<Rightarrow> (r, s, t'))"

definition first_socket :: "'s sd_socket \<Rightarrow> ('s \<times> 't) sd_socket" where
  "first_socket s = \<lparr>is_udp = is_udp s, sd_send = (\<lambda>d. on_first (sd_send s d)),
     sd_recv = (\<lambda>t. on_first (sd_recv s t)), sd_port = sd_port s, sd_ip = sd_ip s\<rparr>"

definition second_socket :: "'t sd_socket \<Rightarrow> ('s \<times> 't) sd_socket" where
  "second_socket s = \<lparr>is_udp = is_udp s, sd_send = (\<lambda>d. on_second (sd_send s d)),
     sd_recv = (\<lambda>t. on_second (sd_recv s t)), sd_port = sd_port s, sd_ip = sd_ip s\<rparr>"

text \<open>
  Subscribing to an event group over UDP sends exactly the subscription and returns the group
  with the initial data exactly when the answer's first entry is of the same group and service. The
  endpoint socket is read only then: otherwise its state is untouched.
\<close>

theorem someip_subscribes:
  assumes "udp_sock w = OpenUdp b" and "sys_script w = []" and "dgram_in w = arrival x # rest"
    and "udp_sock v = OpenUdp c" and "dgram_in v = arrival y # others"
  shows "\<exists>w' v'. subscribe_evtgrp lib (first_socket (udp_socket p a)) (second_socket (udp_socket q addr)) si g l4 t (w, v) =
       (Val (if \<exists>d. delivered x = Some d \<and> d \<noteq> [] \<and> acknowledged si g (sd_from_bytes lib d)
             then Some \<lparr>eventgroup_id = g, initial_data = delivered y\<rparr> else None), w', v') \<and>
     DgSent (sd_bytes lib (build_evtgrp_layer lib si g l4 q addr)) (udp_destination w) (udp_dport w) None \<in> set (net_log w') \<and>
     (if \<exists>d. delivered x = Some d \<and> d \<noteq> [] \<and> acknowledged si g (sd_from_bytes lib d)
      then dgram_in v' = others else v' = v)"
proof -
  let ?m = "sd_bytes lib (build_evtgrp_layer lib si g l4 q addr)"
  obtain w1 where send: "udp_send ?m w = (Val None, w1)" "udp_sock w1 = OpenUdp b" "dgram_in w1 = arrival x # rest"
      "net_log w1 = net_log w @ [DgSent ?m (udp_destination w) (udp_dport w) None]"
    using udp_send_ok [OF assms(1,2)] assms(3) by metis
  obtain w2 where read: "udp_recv t w1 = (Val (delivered x), w2)"
    using udp_recv_next [OF send(2,3)] by blast
  have logged: "DgSent ?m (udp_destination w) (udp_dport w) None \<in> set (net_log w2)"
    using read send(4) by (auto simp: udp_recv_def udp_recv_size_def udp_select_def udp_recvfrom_def
        select_in_def recvfrom_def py_bind_def
        split: udp_sock.splits list.splits dgram.splits prod.splits res.splits)
  obtain v2 where read2: "udp_recv t v = (Val (delivered y), v2)" "dgram_in v2 = others"
    using udp_recv_next [OF assms(4,5)] by blast
  have send': "on_first (py_seq (udp_send ?m) (py_ret ())) (w, v) = (Val (), w1, v)"
    using send(1) by (simp add: on_first_def py_seq_def py_bind_def)
  have read': "on_first (udp_recv t) (w1, v) = (Val (delivered x), w2, v)"
    using read by (simp add: on_first_def)
  have read2': "on_second (udp_recv t) (w2, v) = (Val (delivered y), w2, v2)"
    using read2 by (simp add: on_second_def)
  have "subscribe_evtgrp lib (first_socket (udp_socket p a)) (second_socket (udp_socket q addr)) si g l4 t (w, v) =
     (if \<exists>m. delivered x = Some m \<and> m \<noteq> [] \<and> acknowledged si g (sd_from_bytes lib m)
      then (Val (Some \<lparr>eventgroup_id = g, initial_data = delivered y\<rparr>), w2, v2) else (Val None, w2, v))"
    using send' read' read2'
    by (intro subscribe_evtgrp_run) (simp_all add: first_socket_def second_socket_def udp_socket_def)
  then show ?thesis
    using logged read2(2) by auto
qed

theorem someip_subscribes_witness:
  "\<exists>w' v'. subscribe_evtgrp demo_someip_lib (first_socket (udp_socket 1 (V4 1))) (second_socket (udp_socket 2 (V4 1)))
      (service_of demo_offer) 7 L4_UDP 2
      (demo_udp\<lparr>dgram_in := [Datagram [1] (V4 9)]\<rparr>, demo_udp\<lparr>dgram_in := [Datagram [4, 5] (V4 9)]\<rparr>) =
     (Val (Some \<lparr>eventgroup_id = 7, initial_data = Some [4, 5]\<rparr>), w', v')"
  using someip_subscribes [of "demo_udp\<lparr>dgram_in := [Datagram [1] (V4 9)]\<rparr>" False "Some ([1], V4 9)" "[]"
      "demo_udp\<lparr>dgram_in := [Datagram [4, 5] (V4 9)]\<rparr>" False "Some ([4, 5], V4 9)" "[]"
      demo_someip_lib 1 "V4 1" 2 "V4 1" "service_of demo_offer" 7 L4_UDP 2]
  by (auto simp: demo_udp_def arrival_def delivered_def acknowledged_def demo_someip_lib_def demo_offer_def service_of_def)

lemma return_code_of_iff:
  "SomeIpReturnCode_of v = (if 0 \<le> v \<and> v \<le> 10 then Inr (return_codes ! nat v) else Inl (ValueError ''validation error''))"
proof -
  have "v < 0 \<or> v > 10 \<or> v \<in> {0, 1, 2, 3, 4, 5, 6, 7, 8, 9, 10}"
    by simp presburger
  then consider "v < 0" | "v > 10" | "v \<in> {0, 1, 2, 3, 4, 5, 6, 7, 8, 9, 10}"
    by blast
  then show ?thesis
    by cases (auto simp: SomeIpReturnCode_of_def return_codes_def)
qed

text \<open>
  Invoking a method over UDP returns nothing when nothing comes, the answer does not parse or
  the method is unknown; otherwise the answer with its return code, except that a code that is not
  one of the eleven of the enumeration raises \<open>ValueError\<close>.
\<close>

theorem someip_invokes:
  assumes "udp_sock w = OpenUdp b" and "sys_script w = []" and "dgram_in w = arrival x # rest"
  shows "fst (method_invoke lib (udp_socket p a) si mid t w) =
     (case Option.bind (delivered x) (someip_from_bytes lib) of
        None \<Rightarrow> Val None
      | Some m \<Rightarrow>
          if msg_return_code m = 3 then Val None
          else if 0 \<le> msg_return_code m \<and> msg_return_code m \<le> 10
          then Val (Some \<lparr>method_id = msg_method_id m, method_return_code = return_codes ! nat (msg_return_code m),
                 method_payload = msg_payload m\<rparr>)
          else Exn (ValueError ''validation error''))"
proof -
  let ?m = "someip_bytes lib (method_request si mid)"
  obtain w1 where send: "udp_send ?m w = (Val None, w1)" "udp_sock w1 = OpenUdp b" "dgram_in w1 = arrival x # rest"
    using udp_send_ok [OF assms(1,2)] assms(3) by metis
  obtain w2 where read: "udp_recv t w1 = (Val (delivered x), w2)"
    using udp_recv_next [OF send(2,3)] by blast
  show ?thesis
    using send(1) read
    by (cases "delivered x"; cases "someip_from_bytes lib (the (delivered x))")
      (auto simp: method_invoke_def udp_socket_def py_seq_def py_bind_def method_answer_def return_code_of_iff)
qed

theorem someip_invokes_witness:
  "fst (method_invoke demo_someip_lib (udp_socket 1 (V4 1)) (service_of demo_offer) 5 2
     (demo_udp\<lparr>dgram_in := [Datagram [0x20] (V4 9)]\<rparr>)) = Exn (ValueError ''validation error'')"
  using someip_invokes [of "demo_udp\<lparr>dgram_in := [Datagram [0x20] (V4 9)]\<rparr>" False "Some ([0x20], V4 9)" "[]"
      demo_someip_lib 1 "V4 1" "service_of demo_offer" 5 2]
  by (simp add: demo_udp_def arrival_def delivered_def demo_someip_lib_def)

lemma someip_service_str_empty: "someip_service_str s = [] \<longleftrightarrow> endpoints s = []"
  by (simp add: someip_service_str_def)

subsection \<open>Equality and hashes of services\<close>

lemma endpoint_eq_iff: "endpoint_eq a b \<longleftrightarrow> a = b"
  by (cases a; cases b) (auto simp: endpoint_eq_def)

lemma endpoints_eq_iff: "list_all2 endpoint_eq es fs \<longleftrightarrow> es = fs"
  by (simp add: endpoint_eq_iff [abs_def] list.rel_eq)

text \<open>
  Services may be put into sets: their equality is the one of all their fields, endpoints in order,
  and equal services have equal hashes, whatever the hash of tuples is. Of two services that differ
  only in their lifetime, both are kept.
\<close>

theorem services_hashable:
  "(service_eq a b \<longleftrightarrow> a = b) \<and> (service_eq a b \<longrightarrow> service_hash h g a = service_hash h g b) \<and>
   (service_eq (a\<lparr>ttl := n\<rparr>) a \<longleftrightarrow> n = ttl a)"
  by (cases a; cases b) (auto simp: service_eq_def endpoints_eq_iff)

theorem services_hashable_witness:
  "\<not> service_eq \<lparr>service_id = 1, instance_id = 2, major_ver = 1, minor_ver = 0, ttl = 3, endpoints = []\<rparr>
       \<lparr>service_id = 1, instance_id = 2, major_ver = 1, minor_ver = 0, ttl = 5, endpoints = []\<rparr> \<and>
   service_hash (\<lambda>_. 0) (\<lambda>(xs, es). sum_list xs) \<lparr>service_id = 1, instance_id = 2, major_ver = 1, minor_ver = 0, ttl = 3, endpoints = []\<rparr> =
     7"
  using services_hashable [of "\<lparr>service_id = 1, instance_id = 2, major_ver = 1, minor_ver = 0, ttl = 5, endpoints = []\<rparr>"
      undefined "\<lambda>_. 0" "\<lambda>(xs, es). sum_list xs" 3]
  by (simp add: service_hash_def)

end
