(* ===== verification/Config_Manager.thy ===== *)
theory Config_Manager
  imports Prelude
begin

section \<open>The configuration manager\<close>

text \<open>
  Models \<open>ConfigurationManager\<close> (\<open>configuration_manager/configuration_manager.py\<close>), the actions it
  carries out (\<open>actions.py\<close>) and the models (\<open>models.py\<close>). The network of the machine, as pyroute2
  and nmcli show it, is part of the state: the interfaces, the routes and the wifi list. What a
  command does to it is the function \<open>net_effect\<close> of the state, about which theorems state what they
  need; \<open>net_log\<close> records the commands that succeeded.
\<close>

unbundle bit_operations_syntax

subsection \<open>Models\<close>

datatype EthIfFlags =
    IFF_UP | IFF_BROADCAST | IFF_DEBUG | IFF_LOOPBACK | IFF_POINTOPOINT | IFF_NOTRAILERS
  | IFF_RUNNING | IFF_NOARP | IFF_PROMISC | IFF_ALLMULTI | IFF_MASTER | IFF_SLAVE | IFF_MULTICAST
  | IFF_PORTSEL | IFF_AUTOMEDIA | IFF_DYNAMIC | IFF_LOWER_UP | IFF_DORMANT | IFF_ECHO

definition all_flags :: "EthIfFlags list" where
  "all_flags = [IFF_UP, IFF_BROADCAST, IFF_DEBUG, IFF_LOOPBACK, IFF_POINTOPOINT, IFF_NOTRAILERS,
     IFF_RUNNING, IFF_NOARP, IFF_PROMISC, IFF_ALLMULTI, IFF_MASTER, IFF_SLAVE, IFF_MULTICAST,
     IFF_PORTSEL, IFF_AUTOMEDIA, IFF_DYNAMIC, IFF_LOWER_UP, IFF_DORMANT, IFF_ECHO]"

text \<open>The values are constants of pyroute2: the argument \<open>val\<close>.\<close>

definition get_flags_from_int :: "(EthIfFlags \<Rightarrow> int) \<Rightarrow> int \<Rightarrow> EthIfFlags list" where
  "get_flags_from_int val flags = filter (\<lambda>f. flags AND val f \<noteq> 0) all_flags"

datatype InterfaceState = UP | DOWN | UNKNOWN

text \<open>\<open>casefold\<close> on ASCII text.\<close>

definition casefold :: "string \<Rightarrow> string" where
  "casefold s = map ascii_lower s"

definition state_from_string :: "string \<Rightarrow> InterfaceState" where
  "state_from_string s =
     (if casefold s = casefold ''UP'' then UP
      else if casefold s = casefold ''DOWN'' then DOWN
      else UNKNOWN)"

definition state_lower :: "InterfaceState \<Rightarrow> string" where
  "state_lower s = (case s of UP \<Rightarrow> ''up'' | DOWN \<Rightarrow> ''down'' | UNKNOWN \<Rightarrow> ''unknown'')"

record IpRoute =
  gateway :: "string option"

record CanFdOptions =
  dbitrate :: int

text \<open>
  A state in the parameters is a member of the enumeration, or a name: the default is a name, and a
  default is not validated. The members are texts too, and equal to their values.
\<close>

datatype state_value = StateMember InterfaceState | StateName string

fun state_text :: "InterfaceState \<Rightarrow> string" where
  "state_text UP = ''UP''"
| "state_text DOWN = ''DOWN''"
| "state_text UNKNOWN = ''UNKNOWN''"

fun state_equals :: "state_value \<Rightarrow> InterfaceState \<Rightarrow> bool" where
  "state_equals (StateMember t) s \<longleftrightarrow> t = s"
| "state_equals (StateName n) s \<longleftrightarrow> n = state_text s"

definition DEFAULT_CAN_STATE :: state_value where
  "DEFAULT_CAN_STATE = StateName ''UP''"

record CanInterfaceConfigurationInfo =
  channel :: string
  can_state :: state_value
  bitrate :: int
  sample_point :: rat
  cc_len8_dlc :: bool
  fd :: "CanFdOptions option"

record IpConfigurationParams =
  ip_interface :: string
  ip_version6 :: bool
  ip_addr :: string
  suffix :: int
  route :: "IpRoute option"

definition validate_ip_subnet :: "IpConfigurationParams \<Rightarrow> exn + IpConfigurationParams" where
  "validate_ip_subnet p =
     (if 0 \<le> suffix p \<and> suffix p \<le> (if ip_version6 p then 128 else 32) then Inr p
      else Inl (ValueError ''is not a valid netmask''))"

text \<open>
  A flag in the parameters is a member of the enumeration, or a name: the default list holds names,
  and a default is not validated.
\<close>

datatype flag_value = Member EthIfFlags | Name string

definition DEFAULT_ETH_IF_FLAGS :: "flag_value list" where
  "DEFAULT_ETH_IF_FLAGS = [Name ''IFF_BROADCAST'', Name ''IFF_MULTICAST'', Name ''IFF_UP'',
     Name ''IFF_LOWER_UP'', Name ''IFF_RUNNING'']"

record EthInterfaceParams =
  eth_interface :: string
  mtu :: "int option"
  flags :: "flag_value list"
  eth_state :: "InterfaceState option"

record WifiAccessPointConfigurationInfo =
  ssid :: string
  wifi_security :: string
  connected :: bool

datatype configuration_info =
    CanInfo CanInterfaceConfigurationInfo
  | EthInfo EthInterfaceParams "IpConfigurationParams list"
  | WifiInfo WifiAccessPointConfigurationInfo

datatype action =
    IpAddAction IpConfigurationParams
  | IpRemoveAction IpConfigurationParams
  | WifiConnectAction string string
  | CanConfigurationAction CanInterfaceConfigurationInfo
  | EthInterfaceConfigurationAction EthInterfaceParams
  | CreateVlanAction string string int

subsection \<open>The network\<close>

record iface =
  ifname :: string
  if_index :: int
  ifi_type :: int
  if_kind :: string
  if_mtu :: int
  if_state :: string
  if_flags :: int
  ipaddr :: "(string \<times> int) list"

datatype route_entry = RouteVia string string | RouteDev string int

datatype iface_change = AddIp string int | DelIp string int | SetFlags int | SetMtu int | SetState string

text \<open>\<open>LeaveInterface\<close>: the end of a \<open>with\<close> block on an interface, with the changes made in it.\<close>

datatype net_cmd =
    LeaveInterface string "iface_change list"
  | CreateRoute route_entry
  | RemoveRoute route_entry
  | LinkState int string
  | LinkCan int int rat bool bool "int option"
  | LinkVlan string int int
  | WifiConnect string string

record wifi_entry =
  wifi_ssid :: string
  wifi_sec :: string
  in_use :: bool

record can_link =
  ctrl_fd :: "bool option"
  ctrl_cc_len8_dlc :: "bool option"
  data_bittiming :: "int option option"
  link_bitrate :: "int option"
  link_sample_point :: "int option"

record net_state =
  ifaces :: "iface list"
  routes :: "route_entry list"
  net_effect :: "net_cmd \<Rightarrow> iface list \<times> route_entry list \<Rightarrow> exn + iface list \<times> route_entry list"
  wifi_list :: "exn + wifi_entry list"
  can_links :: "int \<Rightarrow> exn + can_link"
  commit_on_error :: bool
  net_log :: "net_cmd list"
  ctrl_opt_cc_len8 :: bool
  ctrl_opt_fd :: bool

definition net_call :: "net_cmd \<Rightarrow> ('a net_state_scheme, unit) py" where
  "net_call c = (\<lambda>w. case net_effect w c (ifaces w, routes w) of
       Inl e \<Rightarrow> (Exn e, w)
     | Inr (is, rs) \<Rightarrow> (Val (), w\<lparr>ifaces := is, routes := rs, net_log := net_log w @ [c]\<rparr>))"

definition netlink_error :: exn where
  "netlink_error = LibraryError ''NetlinkError''"

subsection \<open>Reading the network\<close>

definition list_interfaces :: "'a net_state_scheme \<Rightarrow> string list" where
  "list_interfaces w = map ifname (ifaces w)"

definition is_interface_exists :: "'a net_state_scheme \<Rightarrow> string \<Rightarrow> bool" where
  "is_interface_exists w name \<longleftrightarrow> name \<in> set (list_interfaces w)"

text \<open>\<open>ndb.interfaces[name]\<close>.\<close>

definition find_iface :: "'a net_state_scheme \<Rightarrow> string \<Rightarrow> iface option" where
  "find_iface w name = find (\<lambda>i. ifname i = name) (ifaces w)"

text \<open>
  \<open>with ndb.interfaces[name] as interface\<close>: \<open>staged\<close> are the changes made before anything in the block
  can raise. Whether leaving the block by an exception commits them is \<open>commit_on_error\<close>.
\<close>

definition with_interface ::
  "string \<Rightarrow> iface_change list \<Rightarrow> (iface \<Rightarrow> ('a net_state_scheme, 'b \<times> iface_change list) py) \<Rightarrow>
     ('a net_state_scheme, 'b) py" where
  "with_interface name staged body = (\<lambda>w. case find_iface w name of
       None \<Rightarrow> (Exn KeyError, w)
     | Some i \<Rightarrow>
         py_bind
           (py_catch (body i)
             (\<lambda>ex. py_seq (py_bind (py_get commit_on_error) (\<lambda>b.
                       if b then net_call (LeaveInterface name staged) else py_ret ()))
                     (py_raise ex)))
           (\<lambda>(b, changes). py_seq (net_call (LeaveInterface name (staged @ changes))) (py_ret b)) w)"

definition list_ips :: "string \<Rightarrow> ('a net_state_scheme, string list) py" where
  "list_ips name = (\<lambda>w.
     if \<not> is_interface_exists w name then (Val [], w)
     else with_interface name [] (\<lambda>i. py_ret (map fst (ipaddr i), [])) w)"

text \<open>\<open>link_lookup(ifname=name)[0]\<close>.\<close>

definition link_lookup :: "string \<Rightarrow> ('a net_state_scheme, int) py" where
  "link_lookup name = (\<lambda>w. case find_iface w name of
       None \<Rightarrow> (Exn IndexError, w)
     | Some i \<Rightarrow> (Val (if_index i), w))"

subsection \<open>Carrying out actions\<close>

definition cidr_notation :: "(int \<Rightarrow> string) \<Rightarrow> IpConfigurationParams \<Rightarrow> string" where
  "cidr_notation show p = ip_addr p @ ''/'' @ show (suffix p)"

definition create_vlan_interface :: "string \<Rightarrow> string \<Rightarrow> int \<Rightarrow> ('a net_state_scheme, unit) py" where
  "create_vlan_interface name link vlan_id = (\<lambda>w.
     if is_interface_exists w name then (Val (), w)
     else py_bind (link_lookup link) (\<lambda>idx.
          py_seq (net_call (LinkVlan name idx vlan_id))
         (py_bind (link_lookup name) (\<lambda>new. net_call (LinkState new ''up'')))) w)"

definition connection_failed :: exn where
  "connection_failed = LibraryError ''ConnectionActivateFailedException''"

definition connect_wifi_device :: "string \<Rightarrow> string \<Rightarrow> ('a net_state_scheme, unit) py" where
  "connect_wifi_device name password =
     py_catch (net_call (WifiConnect name password))
       (\<lambda>ex. if ex = connection_failed then py_ret () else py_raise ex)"

text \<open>A gateway that is the empty string counts as none.\<close>

definition route_gateway :: "IpRoute \<Rightarrow> string option" where
  "route_gateway r = (case gateway r of Some (c # cs) \<Rightarrow> Some (c # cs) | _ \<Rightarrow> None)"

text \<open>The route is committed inside the block, before the address at its end.\<close>

definition configure_ip :: "(int \<Rightarrow> string) \<Rightarrow> IpConfigurationParams \<Rightarrow> ('a net_state_scheme, unit) py" where
  "configure_ip show p = (\<lambda>w.
     if \<not> is_interface_exists w (ip_interface p) then (Val (), w)
     else py_bind (list_ips (ip_interface p)) (\<lambda>ips.
       if ip_addr p \<in> set ips then py_ret ()
       else with_interface (ip_interface p) [AddIp (ip_addr p) (suffix p)] (\<lambda>i.
         py_seq (case route p of
             None \<Rightarrow> py_ret ()
           | Some r \<Rightarrow> (case route_gateway r of
               Some g \<Rightarrow> net_call (CreateRoute (RouteVia (cidr_notation show p) g))
             | None \<Rightarrow> net_call (CreateRoute (RouteDev (cidr_notation show p) (if_index i)))))
           (py_ret ((), [])))) w)"

fun route_dst :: "route_entry \<Rightarrow> string" where
  "route_dst (RouteVia dst _) = dst"
| "route_dst (RouteDev dst _) = dst"

definition remove_ip :: "(int \<Rightarrow> string) \<Rightarrow> IpConfigurationParams \<Rightarrow> ('a net_state_scheme, unit) py" where
  "remove_ip show p = (\<lambda>w.
     if \<not> is_interface_exists w (ip_interface p) then (Val (), w)
     else py_bind (list_ips (ip_interface p)) (\<lambda>ips.
       if ip_addr p \<notin> set ips then py_ret ()
       else py_seq
         (case route p of
            None \<Rightarrow> py_ret ()
          | Some r \<Rightarrow> (\<lambda>w.
              case (case route_gateway r of
                      Some g \<Rightarrow> find (\<lambda>e. e = RouteVia (cidr_notation show p) g) (routes w)
                    | None \<Rightarrow> find (\<lambda>e. route_dst e = cidr_notation show p) (routes w)) of
                None \<Rightarrow> (Val (), w)
              | Some e \<Rightarrow> net_call (RemoveRoute e) w))
         (with_interface (ip_interface p) [DelIp (ip_addr p) (suffix p)] (\<lambda>i. py_ret ((), [])))) w)"

text \<open>
  The options of the CAN mode are an attribute of the manager: they are only ever switched on.
\<close>

definition configure_can :: "CanInterfaceConfigurationInfo \<Rightarrow> ('a net_state_scheme, unit) py" where
  "configure_can c = (\<lambda>w.
     if \<not> is_interface_exists w (channel c) then (Val (), w)
     else py_bind (link_lookup (channel c)) (\<lambda>idx.
       py_seq (\<lambda>w. case find (\<lambda>i. if_index i = idx) (ifaces w) of
                 Some i \<Rightarrow> if if_state i = ''up'' then net_call (LinkState idx ''down'') w else (Val (), w)
               | None \<Rightarrow> (Exn netlink_error, w))
      (py_seq (if cc_len8_dlc c then py_modify (\<lambda>w. w\<lparr>ctrl_opt_cc_len8 := True\<rparr>) else py_ret ())
      (py_seq (if fd c \<noteq> None then py_modify (\<lambda>w. w\<lparr>ctrl_opt_fd := True\<rparr>) else py_ret ())
      (py_seq
        (py_catch
          (\<lambda>w. net_call (LinkCan idx (bitrate c) (sample_point c) (ctrl_opt_cc_len8 w) (ctrl_opt_fd w)
                  (map_option dbitrate (fd c))) w)
          (\<lambda>ex. if ex = netlink_error then py_ret () else py_raise ex))
        (if state_equals (can_state c) UP then net_call (LinkState idx ''up'') else py_ret ()))))) w)"

text \<open>\<open>sum(flags, EthIfFlags(0))\<close>: adding a name to an integer is a \<open>TypeError\<close>.\<close>

fun sum_flags :: "(EthIfFlags \<Rightarrow> int) \<Rightarrow> int \<Rightarrow> flag_value list \<Rightarrow> exn + int" where
  "sum_flags val acc [] = Inr acc"
| "sum_flags val acc (Member f # fs) = sum_flags val (acc + val f) fs"
| "sum_flags val acc (Name n # fs) = Inl (TypeError ''unsupported operand type(s)'')"

definition configure_eth_interface :: "(EthIfFlags \<Rightarrow> int) \<Rightarrow> EthInterfaceParams \<Rightarrow> ('a net_state_scheme, unit) py" where
  "configure_eth_interface val p = (\<lambda>w.
     if \<not> is_interface_exists w (eth_interface p) then (Val (), w)
     else with_interface (eth_interface p) [] (\<lambda>i.
       py_bind (if flags p \<noteq> []
                then py_bind (py_lift (sum_flags val 0 (flags p))) (\<lambda>v. py_ret [SetFlags (0xffffffff AND v)])
                else py_ret []) (\<lambda>c1.
         py_ret ((), c1 @ (case mtu p of Some m \<Rightarrow> if m \<noteq> 0 then [SetMtu m] else [] | None \<Rightarrow> [])
                        @ (case eth_state p of Some s \<Rightarrow> [SetState (state_lower s)] | None \<Rightarrow> [])))) w)"

fun configure_action :: "(int \<Rightarrow> string) \<Rightarrow> (EthIfFlags \<Rightarrow> int) \<Rightarrow> action \<Rightarrow> ('a net_state_scheme, unit) py" where
  "configure_action show val (IpAddAction p) = configure_ip show p"
| "configure_action show val (IpRemoveAction p) = remove_ip show p"
| "configure_action show val (CanConfigurationAction c) = configure_can c"
| "configure_action show val (EthInterfaceConfigurationAction p) = configure_eth_interface val p"
| "configure_action show val (WifiConnectAction name password) = connect_wifi_device name password"
| "configure_action show val (CreateVlanAction name link vlan_id) = create_vlan_interface name link vlan_id"

definition configure_actions :: "(int \<Rightarrow> string) \<Rightarrow> (EthIfFlags \<Rightarrow> int) \<Rightarrow> action list \<Rightarrow> ('a net_state_scheme, unit) py" where
  "configure_actions show val actions = py_for actions (configure_action show val)"

subsection \<open>Reading the configuration\<close>

fun merge_wifi :: "wifi_entry \<Rightarrow> configuration_info list \<Rightarrow> configuration_info list" where
  "merge_wifi e [] = [WifiInfo \<lparr>ssid = wifi_ssid e, wifi_security = wifi_sec e, connected = in_use e\<rparr>]"
| "merge_wifi e (WifiInfo a # cs) =
     (if ssid a = wifi_ssid e
      then WifiInfo (a\<lparr>connected := (if in_use e then True else connected a)\<rparr>) # cs
      else WifiInfo a # merge_wifi e cs)"
| "merge_wifi e (c # cs) = c # merge_wifi e cs"

definition get_wifi_devices_info :: "'a net_state_scheme \<Rightarrow> configuration_info list \<Rightarrow> configuration_info list" where
  "get_wifi_devices_info w config =
     (case wifi_list w of
        Inl _ \<Rightarrow> config
      | Inr es \<Rightarrow> fold (\<lambda>e c. if wifi_ssid e \<noteq> [] then merge_wifi e c else c) es config)"

text \<open>\<open>ip6\<close>: whether the text is an IPv6 address, for addresses the system lists.\<close>

definition ip_params_of :: "(string \<Rightarrow> bool) \<Rightarrow> iface \<Rightarrow> exn + IpConfigurationParams list" where
  "ip_params_of ip6 i = foldr (\<lambda>(a, prefixlen) r. case r of Inl e \<Rightarrow> Inl e | Inr ps \<Rightarrow>
     (case validate_ip_subnet \<lparr>ip_interface = ifname i, ip_version6 = ip6 a, ip_addr = a, suffix = prefixlen, route = None\<rparr> of
        Inl e \<Rightarrow> Inl e | Inr p \<Rightarrow> Inr (p # ps))) (ipaddr i) (Inr [])"

definition eth_params_of :: "(EthIfFlags \<Rightarrow> int) \<Rightarrow> iface \<Rightarrow> EthInterfaceParams" where
  "eth_params_of val i = \<lparr>eth_interface = ifname i, mtu = Some (if_mtu i),
     flags = map Member (get_flags_from_int val (if_flags i)), eth_state = Some (state_from_string (if_state i))\<rparr>"

fun get_eth_configuration ::
  "(string \<Rightarrow> bool) \<Rightarrow> (EthIfFlags \<Rightarrow> int) \<Rightarrow> iface list \<Rightarrow> ('a net_state_scheme, configuration_info list) py" where
  "get_eth_configuration ip6 val [] = py_ret []"
| "get_eth_configuration ip6 val (i # is) =
     (if ifi_type i = 1
      then py_bind (with_interface (ifname i) [] (\<lambda>j. py_bind (py_lift (ip_params_of ip6 j)) (\<lambda>ps. py_ret (ps, []))))
             (\<lambda>ps. py_bind (get_eth_configuration ip6 val is) (\<lambda>cs. py_ret (EthInfo (eth_params_of val i) ps # cs)))
      else get_eth_configuration ip6 val is)"

definition can_info_of :: "iface \<Rightarrow> can_link \<Rightarrow> CanInterfaceConfigurationInfo" where
  "can_info_of i l =
     \<lparr>channel = ifname i, can_state = StateMember (state_from_string (if_state i)),
      bitrate = (case link_bitrate l of Some b \<Rightarrow> b | None \<Rightarrow> 0),
      sample_point = (case link_sample_point l of Some s \<Rightarrow> of_int s / 1000 | None \<Rightarrow> 0),
      cc_len8_dlc = (case ctrl_cc_len8_dlc l of Some b \<Rightarrow> b | None \<Rightarrow> False),
      fd = (case (ctrl_fd l, data_bittiming l) of
              (Some True, Some b) \<Rightarrow> Some \<lparr>dbitrate = (case b of Some n \<Rightarrow> n | None \<Rightarrow> 0)\<rparr>
            | _ \<Rightarrow> None)\<rparr>"

fun get_can_configuration :: "(int \<Rightarrow> exn + can_link) \<Rightarrow> iface list \<Rightarrow> exn + configuration_info list" where
  "get_can_configuration link [] = Inr []"
| "get_can_configuration link (i # is) =
     (if if_kind i = ''can''
      then (case link (if_index i) of
              Inl e \<Rightarrow> Inl e
            | Inr l \<Rightarrow> (case get_can_configuration link is of
                Inl e \<Rightarrow> Inl e
              | Inr cs \<Rightarrow> Inr (CanInfo (can_info_of i l) # cs)))
      else get_can_configuration link is)"

definition get_device_configuration ::
  "(string \<Rightarrow> bool) \<Rightarrow> (EthIfFlags \<Rightarrow> int) \<Rightarrow> ('a net_state_scheme, configuration_info list) py" where
  "get_device_configuration ip6 val =
     py_bind (py_get ifaces) (\<lambda>is.
     py_bind (get_eth_configuration ip6 val is) (\<lambda>eth.
     py_bind (\<lambda>w. py_lift (get_can_configuration (can_links w) (ifaces w)) w) (\<lambda>can w.
       (Val (get_wifi_devices_info w (eth @ can)), w))))"

subsection \<open>What pyroute2 documents of the commands used for addresses and routes\<close>

fun change_iface :: "iface_change \<Rightarrow> iface \<Rightarrow> iface" where
  "change_iface (AddIp a n) i = i\<lparr>ipaddr := ipaddr i @ [(a, n)]\<rparr>"
| "change_iface (DelIp a n) i = i\<lparr>ipaddr := filter (\<lambda>x. x \<noteq> (a, n)) (ipaddr i)\<rparr>"
| "change_iface (SetFlags v) i = i\<lparr>if_flags := v\<rparr>"
| "change_iface (SetMtu v) i = i\<lparr>if_mtu := v\<rparr>"
| "change_iface (SetState s) i = i\<lparr>if_state := s\<rparr>"

definition change_at :: "string \<Rightarrow> iface_change list \<Rightarrow> iface list \<Rightarrow> iface list" where
  "change_at name cs is = map (\<lambda>i. if ifname i = name then fold change_iface cs i else i) is"

fun documented :: "net_cmd \<Rightarrow> iface list \<times> route_entry list \<Rightarrow> iface list \<times> route_entry list" where
  "documented (LeaveInterface name cs) (is, rs) =
     (change_at name cs is, rs)"
| "documented (CreateRoute e) (is, rs) = (is, rs @ [e])"
| "documented (RemoveRoute e) (is, rs) = (is, remove1 e rs)"
| "documented _ s = s"

definition as_documented :: "'a net_state_scheme \<Rightarrow> bool" where
  "as_documented w \<longleftrightarrow> (\<forall>c s. case c of LeaveInterface _ _ \<Rightarrow> net_effect w c s = Inr (documented c s)
     | CreateRoute _ \<Rightarrow> net_effect w c s = Inr (documented c s)
     | RemoveRoute _ \<Rightarrow> net_effect w c s = Inr (documented c s) | _ \<Rightarrow> True)"

subsection \<open>Lemmas\<close>

lemma as_documented_update [simp]:
  "as_documented (w\<lparr>ifaces := is\<rparr>) = as_documented w"
  "as_documented (w\<lparr>routes := rs\<rparr>) = as_documented w"
  "as_documented (w\<lparr>net_log := l\<rparr>) = as_documented w"
  by (simp_all add: as_documented_def split: net_cmd.splits)

lemma net_call_documented:
  assumes "as_documented w"
  shows "net_call (LeaveInterface name cs) w = (Val (),
      w\<lparr>ifaces := change_at name cs (ifaces w),
        net_log := net_log w @ [LeaveInterface name cs]\<rparr>)"
    and "net_call (CreateRoute e) w = (Val (), w\<lparr>routes := routes w @ [e], net_log := net_log w @ [CreateRoute e]\<rparr>)"
    and "net_call (RemoveRoute e) w = (Val (), w\<lparr>routes := remove1 e (routes w), net_log := net_log w @ [RemoveRoute e]\<rparr>)"
proof -
  have "net_effect w (LeaveInterface name cs) s = Inr (documented (LeaveInterface name cs) s)"
    "net_effect w (CreateRoute e) s = Inr (documented (CreateRoute e) s)"
    "net_effect w (RemoveRoute e) s = Inr (documented (RemoveRoute e) s)" for s
    using assms [unfolded as_documented_def, rule_format, of "LeaveInterface name cs" s]
      assms [unfolded as_documented_def, rule_format, of "CreateRoute e" s]
      assms [unfolded as_documented_def, rule_format, of "RemoveRoute e" s] by simp_all
  then show "net_call (LeaveInterface name cs) w = (Val (),
      w\<lparr>ifaces := change_at name cs (ifaces w),
        net_log := net_log w @ [LeaveInterface name cs]\<rparr>)"
    "net_call (CreateRoute e) w = (Val (), w\<lparr>routes := routes w @ [e], net_log := net_log w @ [CreateRoute e]\<rparr>)"
    "net_call (RemoveRoute e) w = (Val (), w\<lparr>routes := remove1 e (routes w), net_log := net_log w @ [RemoveRoute e]\<rparr>)"
    by (simp_all add: net_call_def)
qed

lemma change_at_Nil [simp]: "change_at name [] is = is"
proof -
  have "(\<lambda>i :: iface. if ifname i = name then fold change_iface [] i else i) = id"
    by auto
  then show ?thesis
    by (simp add: change_at_def)
qed

lemma ifname_change [simp]: "ifname (change_iface c i) = ifname i"
  by (cases c) simp_all

lemma ifname_changes [simp]: "ifname (fold change_iface cs i) = ifname i"
  by (induction cs arbitrary: i) auto

lemma find_change_at:
  "find (\<lambda>i. ifname i = name) (change_at name cs is) =
     map_option (fold change_iface cs) (find (\<lambda>i. ifname i = name) is)"
  by (induction "is") (auto simp: change_at_def)

lemma find_iface_unique:
  "distinct (map ifname is) \<Longrightarrow> find (\<lambda>i. ifname i = name) is = Some i \<Longrightarrow> j \<in> set is \<Longrightarrow> ifname j = name \<Longrightarrow> j = i"
  by (induction "is") (auto split: if_splits)

lemma find_iface_exists: "find_iface w name = Some i \<Longrightarrow> is_interface_exists w name"
  by (auto simp: is_interface_exists_def list_interfaces_def find_iface_def find_Some_iff)

lemma find_iface_log [simp]:
  "find_iface (w\<lparr>net_log := l\<rparr>) name = find_iface w name"
  "find_iface (w\<lparr>routes := rs\<rparr>) name = find_iface w name"
  by (simp_all add: find_iface_def)

lemma list_ips_run:
  assumes "as_documented w" and "find_iface w name = Some i"
  shows "list_ips name w = (Val (map fst (ipaddr i)), w\<lparr>net_log := net_log w @ [LeaveInterface name []]\<rparr>)"
  using assms find_iface_exists [OF assms(2)]
  by (simp add: list_ips_def with_interface_def py_bind_def py_catch_def py_seq_def net_call_documented)

text \<open>The route an action creates, if any.\<close>

definition route_of :: "(int \<Rightarrow> string) \<Rightarrow> IpConfigurationParams \<Rightarrow> iface \<Rightarrow> route_entry list" where
  "route_of show p i =
     (case route p of
        None \<Rightarrow> []
      | Some r \<Rightarrow> (case route_gateway r of
          Some g \<Rightarrow> [RouteVia (cidr_notation show p) g]
        | None \<Rightarrow> [RouteDev (cidr_notation show p) (if_index i)]))"

lemma configure_ip_run:
  assumes "as_documented w" and "find_iface w (ip_interface p) = Some i" and "ip_addr p \<notin> fst ` set (ipaddr i)"
  shows "\<exists>w'. configure_ip show p w = (Val (), w') \<and> as_documented w' \<and>
    ifaces w' = change_at (ip_interface p) [AddIp (ip_addr p) (suffix p)] (ifaces w) \<and>
    routes w' = routes w @ route_of show p i"
proof -
  have "ip_addr p \<notin> set (map fst (ipaddr i))"
    using assms(3) by simp
  then show ?thesis
    using assms(1,2) list_ips_run [OF assms(1,2)] find_iface_exists [OF assms(2)]
    by (auto simp: configure_ip_def with_interface_def py_bind_def py_catch_def py_seq_def net_call_documented
        route_of_def split: option.splits)
qed

lemma configure_ip_present:
  assumes "as_documented w" and "find_iface w (ip_interface p) = Some i" and "ip_addr p \<in> fst ` set (ipaddr i)"
  shows "\<exists>w'. configure_ip show p w = (Val (), w') \<and> ifaces w' = ifaces w \<and> routes w' = routes w"
proof -
  have "ip_addr p \<in> set (map fst (ipaddr i))"
    using assms(3) by simp
  then show ?thesis
    using list_ips_run [OF assms(1,2)] find_iface_exists [OF assms(2)]
    by (simp add: configure_ip_def py_bind_def)
qed

lemma find_append_none: "find P xs = None \<Longrightarrow> find P (xs @ ys) = find P ys"
  by (induction xs) (auto split: if_splits)

lemma remove_ip_run:
  assumes "as_documented w" and "find_iface w (ip_interface p) = Some i" and "ip_addr p \<in> fst ` set (ipaddr i)"
    and "routes w = rs @ route_of show p j" and "\<forall>e\<in>set rs. route_dst e \<noteq> cidr_notation show p"
  shows "\<exists>w'. remove_ip show p w = (Val (), w') \<and>
    ifaces w' = change_at (ip_interface p) [DelIp (ip_addr p) (suffix p)] (ifaces w) \<and> routes w' = rs"
proof -
  have absent: "find (\<lambda>e. e = RouteVia (cidr_notation show p) g) rs = None"
    "find (\<lambda>e. route_dst e = cidr_notation show p) rs = None" for g
    using assms(5) by (auto simp: find_None_iff)
  have gone: "remove1 e (rs @ [e]) = rs" if "route_dst e = cidr_notation show p" for e
    using assms(5) that by (auto simp: remove1_append)
  have listed: "ip_addr p \<in> set (map fst (ipaddr i))"
    using assms(3) by simp
  show ?thesis
    using list_ips_run [OF assms(1,2)] find_iface_exists [OF assms(2)] listed assms(1,2,4) gone
    by (auto simp: remove_ip_def py_bind_def py_catch_def py_seq_def with_interface_def net_call_documented
        route_of_def find_append_none absent split: option.splits)
qed

lemma bit_sum_exp: "finite A \<Longrightarrow> bit (\<Sum>k\<in>A. 2 ^ k :: int) n \<longleftrightarrow> n \<in> A"
proof (induction A arbitrary: n rule: finite_induct)
  case (insert a A)
  have "2 ^ a + (\<Sum>k\<in>A. 2 ^ k) = (2 ^ a OR (\<Sum>k\<in>A. 2 ^ k) :: int)"
  proof (rule disjunctive_add_eq_or)
    show "2 ^ a AND (\<Sum>k\<in>A. 2 ^ k) = (0 :: int)"
      by (rule bit_eqI) (use insert in \<open>auto simp: bit_and_iff bit_exp_iff\<close>)
  qed
  then show ?case
    using insert by (simp add: bit_or_iff bit_exp_iff)
qed simp

lemma sum_flags_Member: "sum_flags val acc (map Member fs) = Inr (acc + sum_list (map val fs))"
  by (induction fs arbitrary: acc) auto

lemma get_flags_bit:
  assumes "\<And>f. val f = 2 ^ pos f"
  shows "get_flags_from_int val v = filter (\<lambda>f. bit v (pos f)) all_flags"
  using assms by (simp add: get_flags_from_int_def and_exp_eq_0_iff_not_bit)

lemma bit_low_word: "n < 32 \<Longrightarrow> bit ((0xffffffff :: int) AND v) n = bit v n"
proof -
  have "(0xffffffff :: int) = mask 32"
    by (simp add: mask_eq_exp_minus_1)
  moreover assume "n < 32"
  then have "bit (mask 32 :: int) n"
    by (subst bit_mask_iff) simp
  ultimately show "bit ((0xffffffff :: int) AND v) n = bit v n"
    by (simp only: bit_and_iff simp_thms)
qed

lemma net_call_cases:
  assumes "net_call c w = (r, w')"
  shows "(r = Val () \<and> net_log w' = net_log w @ [c] \<or> (\<exists>e. r = Exn e) \<and> w' = w) \<and>
     ctrl_opt_fd w' = ctrl_opt_fd w \<and> ctrl_opt_cc_len8 w' = ctrl_opt_cc_len8 w"
  using assms by (auto simp: net_call_def split: sum.splits)

text \<open>What a sequence of wifi entries amounts to: each network once, by first appearance.\<close>

definition seen_ssids :: "wifi_entry list \<Rightarrow> string list" where
  "seen_ssids es = rev (remdups (rev (filter (\<lambda>s. s \<noteq> []) (map wifi_ssid es))))"

definition wifi_summary :: "wifi_entry list \<Rightarrow> WifiAccessPointConfigurationInfo list" where
  "wifi_summary es = map (\<lambda>s. \<lparr>ssid = s,
      wifi_security = wifi_sec (the (find (\<lambda>e. wifi_ssid e = s) es)),
      connected = (\<exists>e\<in>set es. wifi_ssid e = s \<and> in_use e)\<rparr>) (seen_ssids es)"

lemma seen_ssids_snoc:
  "seen_ssids (es @ [e]) =
     (if wifi_ssid e = [] \<or> wifi_ssid e \<in> set (seen_ssids es) then seen_ssids es else seen_ssids es @ [wifi_ssid e])"
  by (auto simp: seen_ssids_def)

lemma merge_wifi_skip:
  "\<forall>c\<in>set config. \<forall>a. c \<noteq> WifiInfo a \<Longrightarrow> merge_wifi e (config @ cs) = config @ merge_wifi e cs"
proof (induction config)
  case (Cons c config)
  then show ?case by (cases c) auto
qed simp

lemma merge_wifi_infos:
  "distinct (map ssid as) \<Longrightarrow> merge_wifi e (map WifiInfo as) =
     map WifiInfo
       (if wifi_ssid e \<in> ssid ` set as
        then map (\<lambda>a. if ssid a = wifi_ssid e then a\<lparr>connected := (in_use e \<or> connected a)\<rparr> else a) as
        else as @ [\<lparr>ssid = wifi_ssid e, wifi_security = wifi_sec e, connected = in_use e\<rparr>])"
proof (induction as)
  case (Cons a as)
  show ?case
  proof (cases "ssid a = wifi_ssid e")
    case True
    have "map (\<lambda>b. if ssid b = wifi_ssid e then b\<lparr>connected := (in_use e \<or> connected b)\<rparr> else b) as = as"
    proof (rule map_idI)
      fix b
      assume "b \<in> set as"
      then have "ssid b \<noteq> wifi_ssid e"
        using Cons.prems True by (simp, metis imageI)
      then show "(if ssid b = wifi_ssid e then b\<lparr>connected := (in_use e \<or> connected b)\<rparr> else b) = b"
        by simp
    qed
    with True show ?thesis
      by simp
  next
    case False
    with Cons show ?thesis
      by auto
  qed
qed simp

lemma find_snoc: "find P (xs @ [x]) = (case find P xs of Some y \<Rightarrow> Some y | None \<Rightarrow> if P x then Some x else None)"
  by (induction xs) auto

lemma seen_ssids_set: "s \<in> set (seen_ssids es) \<longleftrightarrow> s \<noteq> [] \<and> (\<exists>e\<in>set es. wifi_ssid e = s)"
  by (auto simp: seen_ssids_def)

lemma merge_wifi_summary:
  assumes "wifi_ssid e \<noteq> []"
  shows "merge_wifi e (map WifiInfo (wifi_summary es)) = map WifiInfo (wifi_summary (es @ [e]))"
proof -
  have distinct: "distinct (map ssid (wifi_summary es))"
    by (simp add: wifi_summary_def comp_def seen_ssids_def)
  have ssids: "ssid ` set (wifi_summary es) = set (seen_ssids es)"
    by (force simp: wifi_summary_def)
  show ?thesis
  proof (cases "wifi_ssid e \<in> set (seen_ssids es)")
    case True
    have first: "find (\<lambda>x. wifi_ssid x = s) (es @ [e]) = find (\<lambda>x. wifi_ssid x = s) es" if "s \<in> set (seen_ssids es)" for s
      using that by (auto simp: find_snoc seen_ssids_set find_None_iff split: option.splits)
    have "map (\<lambda>a. if ssid a = wifi_ssid e then a\<lparr>connected := (in_use e \<or> connected a)\<rparr> else a) (wifi_summary es) =
        wifi_summary (es @ [e])"
      using True first by (auto simp: wifi_summary_def seen_ssids_snoc)
    then show ?thesis
      using True by (simp add: merge_wifi_infos [OF distinct] ssids)
  next
    case False
    then have none: "find (\<lambda>x. wifi_ssid x = wifi_ssid e) es = None"
      using assms by (auto simp: seen_ssids_set find_None_iff)
    have first: "find (\<lambda>x. wifi_ssid x = s) (es @ [e]) = find (\<lambda>x. wifi_ssid x = s) es" if "s \<in> set (seen_ssids es)" for s
      using that by (auto simp: find_snoc seen_ssids_set find_None_iff split: option.splits)
    have "\<not> (\<exists>x\<in>set es. wifi_ssid x = wifi_ssid e)"
      using False assms by (auto simp: seen_ssids_set)
    with False none first assms have "wifi_summary es @ [\<lparr>ssid = wifi_ssid e, wifi_security = wifi_sec e, connected = in_use e\<rparr>] =
        wifi_summary (es @ [e])"
      by (auto simp: wifi_summary_def seen_ssids_snoc find_snoc)
    then show ?thesis
      using False by (simp add: merge_wifi_infos [OF distinct] ssids)
  qed
qed

lemma get_wifi_devices_info_run:
  assumes "\<forall>c\<in>set config. \<forall>a. c \<noteq> WifiInfo a"
  shows "fold (\<lambda>e c. if wifi_ssid e \<noteq> [] then merge_wifi e c else c) es config = config @ map WifiInfo (wifi_summary es)"
proof (induction es rule: rev_induct)
  case Nil
  then show ?case by (simp add: wifi_summary_def seen_ssids_def)
next
  case (snoc e es)
  have "wifi_summary (es @ [e]) = wifi_summary es" if "wifi_ssid e = []"
    using that by (auto simp: wifi_summary_def seen_ssids_snoc find_snoc seen_ssids_set find_None_iff split: option.splits)
  with snoc show ?case
    using merge_wifi_skip [OF assms] merge_wifi_summary by auto
qed

subsection \<open>Properties\<close>


definition demo_network :: net_state where
  "demo_network = \<lparr>ifaces = [\<lparr>ifname = ''eth0'', if_index = 2, ifi_type = 1, if_kind = '''', if_mtu = 1500,
       if_state = ''up'', if_flags = 1, ipaddr = [(''10.0.0.1'', 24)]\<rparr>],
     routes = [], net_effect = (\<lambda>c s. Inr (documented c s)), wifi_list = Inr [], can_links = (\<lambda>_. Inl KeyError),
     commit_on_error = False, net_log = [], ctrl_opt_cc_len8 = False, ctrl_opt_fd = False\<rparr>"

definition demo_ip :: IpConfigurationParams where
  "demo_ip = \<lparr>ip_interface = ''eth0'', ip_version6 = False, ip_addr = ''10.0.0.2'', suffix = 24,
     route = Some \<lparr>gateway = Some ''10.0.0.9''\<rparr>\<rparr>"

lemma demo_network_documented: "as_documented demo_network"
  by (simp add: as_documented_def demo_network_def split: net_cmd.splits)


text \<open>
  The flags of an interface. With the flags different powers of two below 2^32, setting a list
  without duplicates sets exactly these flags: reading the value back gives them. But the flags are
  added up: a flag given twice is not set (its double is), and the default list, which holds names
  and not flags, makes the call raise \<open>TypeError\<close>.
\<close>

theorem eth_flags_roundtrip:
  assumes "\<And>f. val f = 2 ^ pos f" and "inj pos" and "\<And>f. pos f < 32" and "as_documented w"
    and "find_iface w (eth_interface p) = Some i" and "flags p = DEFAULT_ETH_IF_FLAGS"
  shows "(distinct fs \<longrightarrow> (\<exists>v. sum_flags val 0 (map Member fs) = Inr v \<and>
        get_flags_from_int val (0xffffffff AND v) = filter (\<lambda>f. f \<in> set fs) all_flags)) \<and>
     (\<exists>v. sum_flags val 0 [Member f, Member f] = Inr v \<and> f \<notin> set (get_flags_from_int val (0xffffffff AND v))) \<and>
     fst (configure_eth_interface val p w) = Exn (TypeError ''unsupported operand type(s)'')"
proof (intro conjI impI)
  assume fs: "distinct fs"
  let ?v = "sum_list (map val fs)"
  have "?v = (\<Sum>f\<in>set fs. 2 ^ pos f)"
    using fs assms(1) by (simp add: sum_list_distinct_conv_sum_set)
  also have "\<dots> = (\<Sum>k\<in>pos ` set fs. 2 ^ k)"
    using assms(2) by (simp add: sum.reindex inj_on_subset)
  finally have "bit ?v (pos f) \<longleftrightarrow> f \<in> set fs" for f
    using assms(2) by (simp add: bit_sum_exp inj_image_mem_iff)
  then show "\<exists>v. sum_flags val 0 (map Member fs) = Inr v \<and>
      get_flags_from_int val (0xffffffff AND v) = filter (\<lambda>f. f \<in> set fs) all_flags"
    using assms(3) by (simp add: sum_flags_Member get_flags_bit [OF assms(1)] bit_low_word)
next
  have "sum_flags val 0 [Member f, Member f] = Inr (2 ^ Suc (pos f))"
    by (simp add: assms(1))
  moreover have "\<not> bit (2 ^ Suc (pos f) :: int) (pos f)"
    by (simp add: bit_exp_iff del: power_Suc)
  ultimately show "\<exists>v. sum_flags val 0 [Member f, Member f] = Inr v \<and> f \<notin> set (get_flags_from_int val (0xffffffff AND v))"
    by (auto simp: get_flags_bit [OF assms(1)] bit_and_iff simp del: power_Suc)
next
  show "fst (configure_eth_interface val p w) = Exn (TypeError ''unsupported operand type(s)'')"
    using find_iface_exists [OF assms(5)] assms(4,5)
    by (auto simp: configure_eth_interface_def assms(6) DEFAULT_ETH_IF_FLAGS_def with_interface_def py_bind_def
        py_catch_def py_seq_def net_call_documented)
qed

fun flag_position :: "EthIfFlags \<Rightarrow> nat" where
  "flag_position IFF_UP = 0" | "flag_position IFF_BROADCAST = 1" | "flag_position IFF_DEBUG = 2"
| "flag_position IFF_LOOPBACK = 3" | "flag_position IFF_POINTOPOINT = 4" | "flag_position IFF_NOTRAILERS = 5"
| "flag_position IFF_RUNNING = 6" | "flag_position IFF_NOARP = 7" | "flag_position IFF_PROMISC = 8"
| "flag_position IFF_ALLMULTI = 9" | "flag_position IFF_MASTER = 10" | "flag_position IFF_SLAVE = 11"
| "flag_position IFF_MULTICAST = 12" | "flag_position IFF_PORTSEL = 13" | "flag_position IFF_AUTOMEDIA = 14"
| "flag_position IFF_DYNAMIC = 15" | "flag_position IFF_LOWER_UP = 16" | "flag_position IFF_DORMANT = 17"
| "flag_position IFF_ECHO = 18"

theorem eth_flags_roundtrip_witness:
  "\<exists>v. sum_flags (\<lambda>f. 2 ^ flag_position f) 0 [Member IFF_UP, Member IFF_PROMISC] = Inr v \<and>
     get_flags_from_int (\<lambda>f. 2 ^ flag_position f) (0xffffffff AND v) = [IFF_UP, IFF_PROMISC]"
proof -
  have "inj flag_position"
  proof (rule injI)
    fix f g
    show "flag_position f = flag_position g \<Longrightarrow> f = g"
      by (cases f; cases g) simp_all
  qed
  moreover have "flag_position f < 32" for f
    by (cases f) simp_all
  moreover have "find_iface demo_network ''eth0'' = Some (hd (ifaces demo_network))"
    by (simp add: demo_network_def find_iface_def)
  ultimately show ?thesis
    using eth_flags_roundtrip [of "\<lambda>f. 2 ^ flag_position f" flag_position demo_network
        "\<lparr>eth_interface = ''eth0'', mtu = None, flags = DEFAULT_ETH_IF_FLAGS, eth_state = None\<rparr>"
        "hd (ifaces demo_network)" "[IFF_UP, IFF_PROMISC]" IFF_UP] demo_network_documented
    by (simp add: all_flags_def)
qed

lemma can_finish_cases:
  assumes "(if up then net_call (LinkState idx ''up'') else py_ret ()) w = (r, w')"
  shows "(\<exists>l. net_log w' = net_log w @ l \<and> set l \<subseteq> {LinkState idx ''up''} \<and>
       (r = Val () \<and> up \<longrightarrow> l = [LinkState idx ''up''])) \<and>
     ctrl_opt_fd w' = ctrl_opt_fd w \<and> ctrl_opt_cc_len8 w' = ctrl_opt_cc_len8 w"
proof (cases up)
  case True
  then show ?thesis
    using assms net_call_cases [of "LinkState idx ''up''" w r w'] by auto
qed (use assms in auto)

text \<open>Three steps of which the second may be refused.\<close>

lemma guarded_steps:
  assumes "m w = (q1, w1)" and "cmd w1 = (q2, w2)" and "final w2 = (q3, w3)"
    and "py_seq m (py_seq (py_catch cmd (\<lambda>ex. if ex = refusal then py_ret () else py_raise ex)) final) w = (r, w')"
    and "q1 \<noteq> Diverge" and "q2 \<noteq> Diverge"
  shows "(\<exists>e. q1 = Exn e \<and> r = Exn e \<and> w' = w1) \<or> (\<exists>a. q1 = Val a \<and> (\<exists>e. r = Exn e \<and> w' = w2)) \<or>
     (\<exists>a. q1 = Val a \<and> r = q3 \<and> w' = w3)"
  using assms by (cases q1; cases q2) (auto simp: py_seq_def py_bind_def py_catch_def split: if_splits)

lemma set_down_cases:
  assumes "(case find (\<lambda>i. if_index i = idx) (ifaces w) of
      Some i \<Rightarrow> if if_state i = ''up'' then net_call (LinkState idx ''down'') w else (Val (), w)
    | None \<Rightarrow> (Exn netlink_error, w)) = (r, w')"
  shows "((\<exists>l. net_log w' = net_log w @ l \<and> set l \<subseteq> {LinkState idx ''down''}) \<and> r = Val () \<or> (\<exists>e. r = Exn e) \<and> w' = w) \<and>
     ctrl_opt_fd w' = ctrl_opt_fd w \<and> ctrl_opt_cc_len8 w' = ctrl_opt_cc_len8 w"
  using assms by (auto split: option.splits if_splits dest: net_call_cases)

text \<open>Everything up to the last step of configuring a CAN interface.\<close>

definition can_prepare :: "CanInterfaceConfigurationInfo \<Rightarrow> int \<Rightarrow> ('a net_state_scheme, unit) py" where
  "can_prepare c idx =
     py_seq (\<lambda>w. case find (\<lambda>i. if_index i = idx) (ifaces w) of
                 Some i \<Rightarrow> if if_state i = ''up'' then net_call (LinkState idx ''down'') w else (Val (), w)
               | None \<Rightarrow> (Exn netlink_error, w))
      (py_seq (if cc_len8_dlc c then py_modify (\<lambda>w. w\<lparr>ctrl_opt_cc_len8 := True\<rparr>) else py_ret ())
              (if fd c \<noteq> None then py_modify (\<lambda>w. w\<lparr>ctrl_opt_fd := True\<rparr>) else py_ret ()))"

definition can_command :: "CanInterfaceConfigurationInfo \<Rightarrow> int \<Rightarrow> 'a net_state_scheme \<Rightarrow> net_cmd" where
  "can_command c idx w = LinkCan idx (bitrate c) (sample_point c) (ctrl_opt_cc_len8 w) (ctrl_opt_fd w)
     (map_option dbitrate (fd c))"

lemma can_prepare_cases:
  assumes "can_prepare c idx w = (r, w')"
  shows "(ctrl_opt_fd w \<longrightarrow> ctrl_opt_fd w') \<and> (ctrl_opt_cc_len8 w \<longrightarrow> ctrl_opt_cc_len8 w') \<and>
     (\<exists>l. net_log w' = net_log w @ l \<and> set l \<subseteq> {LinkState idx ''down''}) \<and>
     (r = Val () \<and> ctrl_opt_fd w' = (ctrl_opt_fd w \<or> fd c \<noteq> None) \<and>
        ctrl_opt_cc_len8 w' = (ctrl_opt_cc_len8 w \<or> cc_len8_dlc c) \<or> (\<exists>e. r = Exn e))"
proof -
  define down where "down = (\<lambda>w :: 'a net_state_scheme. case find (\<lambda>i. if_index i = idx) (ifaces w) of
                 Some i \<Rightarrow> if if_state i = ''up'' then net_call (LinkState idx ''down'') w else (Val (), w)
               | None \<Rightarrow> (Exn netlink_error, w))"
  obtain q v where q: "down w = (q, v)" by fastforce
  have "(\<exists>l. net_log v = net_log w @ l \<and> set l \<subseteq> {LinkState idx ''down''}) \<and> q = Val () \<or> (\<exists>e. q = Exn e) \<and> v = w"
    and "ctrl_opt_fd v = ctrl_opt_fd w" "ctrl_opt_cc_len8 v = ctrl_opt_cc_len8 w"
    using set_down_cases q unfolding down_def by blast+
  then show ?thesis
    using assms q unfolding can_prepare_def down_def [symmetric]
    by (auto simp: py_seq_def py_bind_def split: if_splits)
qed

lemma configure_can_steps:
  assumes "is_interface_exists w (channel c)"
  shows "\<exists>i. find_iface w (channel c) = Some i \<and> configure_can c w =
     py_seq (can_prepare c (if_index i))
       (py_seq (py_catch (\<lambda>w. net_call (can_command c (if_index i) w) w)
                  (\<lambda>ex. if ex = netlink_error then py_ret () else py_raise ex))
               (if state_equals (can_state c) UP then net_call (LinkState (if_index i) ''up'') else py_ret ())) w"
proof -
  obtain i where i: "find_iface w (channel c) = Some i"
    using assms by (cases "find_iface w (channel c)")
      (auto simp: is_interface_exists_def list_interfaces_def find_iface_def find_None_iff)
  have assoc: "py_seq (py_seq l m) n = py_seq l (py_seq m n)" for l m n :: "('a net_state_scheme, unit) py"
    by (rule ext) (simp add: py_seq_def py_bind_def split: prod.splits res.splits)
  show ?thesis
    using assms i by (simp add: configure_can_def can_prepare_def can_command_def assoc link_lookup_def py_bind_def)
qed

text \<open>
  The commands of configuring an interface that exists: taking it down, the CAN command with the options
  as they are then, bringing it up; the method may stop after each.
\<close>

definition can_options :: "CanInterfaceConfigurationInfo \<Rightarrow> 'a net_state_scheme \<Rightarrow> 'a net_state_scheme \<Rightarrow> bool" where
  "can_options c w w1 \<longleftrightarrow> ctrl_opt_fd w1 = (ctrl_opt_fd w \<or> fd c \<noteq> None) \<and>
     ctrl_opt_cc_len8 w1 = (ctrl_opt_cc_len8 w \<or> cc_len8_dlc c)"

lemma configure_can_runs:
  assumes "is_interface_exists w (channel c)" and "configure_can c w = (r, w')"
  shows "\<exists>idx w1 l1 l2 l3. set l1 \<subseteq> {LinkState idx ''down''} \<and> set l2 \<subseteq> {can_command c idx w1} \<and>
     set l3 \<subseteq> {LinkState idx ''up''} \<and> (ctrl_opt_fd w \<longrightarrow> ctrl_opt_fd w') \<and> (ctrl_opt_cc_len8 w \<longrightarrow> ctrl_opt_cc_len8 w') \<and>
     (net_log w' = net_log w @ l1 \<and> r \<noteq> Val () \<or>
      can_options c w w1 \<and> net_log w' = net_log w @ l1 @ l2 \<and> r \<noteq> Val () \<or>
      can_options c w w1 \<and> net_log w' = net_log w @ l1 @ l2 @ l3 \<and>
        (r = Val () \<and> state_equals (can_state c) UP \<longrightarrow> l3 = [LinkState idx ''up'']))"
proof -
  obtain i :: iface where run: "configure_can c w =
     py_seq (can_prepare c (if_index i))
       (py_seq (py_catch (\<lambda>w. net_call (can_command c (if_index i) w) w)
                  (\<lambda>ex. if ex = netlink_error then py_ret () else py_raise ex))
               (if state_equals (can_state c) UP then net_call (LinkState (if_index i) ''up'') else py_ret ())) w"
    using configure_can_steps [OF assms(1)] by blast
  obtain q1 w1 where p1: "can_prepare c (if_index i) w = (q1, w1)" by fastforce
  obtain q2 w2 where p2: "net_call (can_command c (if_index i) w1) w1 = (q2, w2)" by fastforce
  obtain q3 w3 where p3: "(if state_equals (can_state c) UP then net_call (LinkState (if_index i) ''up'') else py_ret ()) w2 = (q3, w3)"
    by fastforce
  obtain l1 where f1: "net_log w1 = net_log w @ l1" "set l1 \<subseteq> {LinkState (if_index i) ''down''}"
      "ctrl_opt_fd w \<longrightarrow> ctrl_opt_fd w1" "ctrl_opt_cc_len8 w \<longrightarrow> ctrl_opt_cc_len8 w1"
      "q1 = Val () \<and> ctrl_opt_fd w1 = (ctrl_opt_fd w \<or> fd c \<noteq> None) \<and>
        ctrl_opt_cc_len8 w1 = (ctrl_opt_cc_len8 w \<or> cc_len8_dlc c) \<or> (\<exists>e. q1 = Exn e)"
    using can_prepare_cases [OF p1] by blast
  obtain l2 where f2: "net_log w2 = net_log w1 @ l2" "set l2 \<subseteq> {can_command c (if_index i) w1}"
      "ctrl_opt_fd w2 = ctrl_opt_fd w1" "ctrl_opt_cc_len8 w2 = ctrl_opt_cc_len8 w1" "q2 = Val () \<or> (\<exists>e. q2 = Exn e)"
    using net_call_cases [OF p2] by (cases q2) auto
  obtain l3 where f3: "net_log w3 = net_log w2 @ l3" "set l3 \<subseteq> {LinkState (if_index i) ''up''}"
      "ctrl_opt_fd w3 = ctrl_opt_fd w1" "ctrl_opt_cc_len8 w3 = ctrl_opt_cc_len8 w1"
      "q3 = Val () \<and> state_equals (can_state c) UP \<longrightarrow> l3 = [LinkState (if_index i) ''up'']"
    using can_finish_cases [OF p3] f2(3,4) by auto
  have logs: "net_log w1 = net_log w @ l1" "net_log w2 = net_log w @ (l1 @ l2)"
      "net_log w3 = net_log w @ (l1 @ l2 @ l3)"
    using f1(1) f2(1) f3(1) by simp_all
  have "(\<exists>e. q1 = Exn e \<and> r = Exn e \<and> w' = w1) \<or> (\<exists>a. q1 = Val a \<and> (\<exists>e. r = Exn e \<and> w' = w2)) \<or>
     (\<exists>a. q1 = Val a \<and> r = q3 \<and> w' = w3)"
  proof (rule guarded_steps)
    show "can_prepare c (if_index i) w = (q1, w1)" by (rule p1)
    show "(\<lambda>w. net_call (can_command c (if_index i) w) w) w1 = (q2, w2)" by (rule p2)
    show "(if state_equals (can_state c) UP then net_call (LinkState (if_index i) ''up'') else py_ret ()) w2 = (q3, w3)" by (rule p3)
  qed (use assms(2) run f1(5) f2(5) in auto)
  then consider (early) e where "r = Exn e" "w' = w1" | (refused) e where "q1 = Val ()" "r = Exn e" "w' = w2"
    | (finished) "q1 = Val ()" "r = q3" "w' = w3"
    by auto
  then show ?thesis
  proof cases
    case early
    then have "net_log w' = net_log w @ l1" "r \<noteq> Val ()"
      using logs(1) by simp_all
    with early(2) f1(2-4) f2(2) f3(2) show ?thesis
      by (intro exI [of _ "if_index i"] exI [of _ w1] exI [of _ l1] exI [of _ l2] exI [of _ l3] conjI disjI1) simp_all
  next
    case refused
    have "can_options c w w1" "net_log w' = net_log w @ l1 @ l2" "r \<noteq> Val ()"
      using refused f1(5) logs(2) by (simp_all add: can_options_def)
    moreover have "ctrl_opt_fd w \<longrightarrow> ctrl_opt_fd w'" "ctrl_opt_cc_len8 w \<longrightarrow> ctrl_opt_cc_len8 w'"
      using refused(3) f1(3,4) f2(3,4) by simp_all
    ultimately show ?thesis
      using f1(2) f2(2) f3(2) by blast
  next
    case finished
    have "can_options c w w1" "net_log w' = net_log w @ l1 @ l2 @ l3"
      "r = Val () \<and> state_equals (can_state c) UP \<longrightarrow> l3 = [LinkState (if_index i) ''up'']"
      using finished f1(5) f3(5) logs(3) by (simp_all add: can_options_def)
    moreover have "ctrl_opt_fd w \<longrightarrow> ctrl_opt_fd w'" "ctrl_opt_cc_len8 w \<longrightarrow> ctrl_opt_cc_len8 w'"
      using finished(3) f1(3,4) f3(3,4) by simp_all
    ultimately show ?thesis
      using f1(2) f2(2) f3(2) by blast
  qed
qed

text \<open>What the commands of a CAN configuration say, whoever issued them.\<close>

definition can_link_ok :: "CanInterfaceConfigurationInfo \<Rightarrow> 's net_state_scheme \<Rightarrow> net_cmd \<Rightarrow> bool" where
  "can_link_ok c w ev \<longleftrightarrow>
     (\<forall>i b s cc f d. ev = LinkCan i b s cc f d \<longrightarrow>
        b = bitrate c \<and> cc = (ctrl_opt_cc_len8 w \<or> cc_len8_dlc c) \<and>
        f = (ctrl_opt_fd w \<or> fd c \<noteq> None) \<and> d = map_option dbitrate (fd c))"

lemma can_link_ok_state [simp]: "can_link_ok c w (LinkState i s)"
  by (simp add: can_link_ok_def)

lemma can_link_ok_command: "can_options c w w1 \<Longrightarrow> can_link_ok c w (can_command c idx w1)"
  by (simp add: can_link_ok_def can_command_def can_options_def)

lemma configure_can_log:
  assumes "is_interface_exists w (channel c)" and "configure_can c w = (r, w')"
  obtains new where "net_log w' = net_log w @ new" "\<forall>ev\<in>set new. can_link_ok c w ev"
    "r = Val () \<and> state_equals (can_state c) UP \<longrightarrow> (\<exists>i before. new = before @ [LinkState i ''up''])"
proof -
  obtain idx w1 l1 l2 l3 where l: "set l1 \<subseteq> {LinkState idx ''down''}" "set l2 \<subseteq> {can_command c idx w1}"
      "set l3 \<subseteq> {LinkState idx ''up''}"
    and log: "net_log w' = net_log w @ l1 \<and> r \<noteq> Val () \<or>
      can_options c w w1 \<and> net_log w' = net_log w @ l1 @ l2 \<and> r \<noteq> Val () \<or>
      can_options c w w1 \<and> net_log w' = net_log w @ l1 @ l2 @ l3 \<and>
        (r = Val () \<and> state_equals (can_state c) UP \<longrightarrow> l3 = [LinkState idx ''up''])"
    using configure_can_runs [OF assms] by blast
  have ok1: "\<forall>ev\<in>set l1. can_link_ok c w ev" "\<forall>ev\<in>set l3. can_link_ok c w ev"
    using l(1,3) by auto
  have ok2: "\<forall>ev\<in>set l2. can_link_ok c w ev" if "can_options c w w1"
    using subsetD [OF l(2)] can_link_ok_command [OF that] by blast
  note ok = ok1 ok2
  from log show ?thesis
  proof (elim disjE conjE)
    assume "net_log w' = net_log w @ l1" "r \<noteq> Val ()"
    then show ?thesis
      using ok by (intro that [of l1]) simp_all
  next
    assume "can_options c w w1" "net_log w' = net_log w @ l1 @ l2" "r \<noteq> Val ()"
    then show ?thesis
      using ok by (intro that [of "l1 @ l2"]) auto
  next
    assume "can_options c w w1" "net_log w' = net_log w @ l1 @ l2 @ l3"
      "r = Val () \<and> state_equals (can_state c) UP \<longrightarrow> l3 = [LinkState idx ''up'']"
    moreover have "\<exists>before. l1 @ l2 @ [LinkState idx ''up''] = before @ [LinkState idx ''up'']"
      by (rule exI [of _ "l1 @ l2"]) simp
    ultimately show ?thesis
      using ok by (intro that [of "l1 @ l2 @ l3"]) auto
  qed
qed


definition demo_can :: net_state where
  "demo_can = demo_network\<lparr>ifaces := [\<lparr>ifname = ''can0'', if_index = 3, ifi_type = 280, if_kind = ''can'', if_mtu = 16,
       if_state = ''down'', if_flags = 0, ipaddr = []\<rparr>], ctrl_opt_fd := True\<rparr>"

definition demo_can_config :: CanInterfaceConfigurationInfo where
  "demo_can_config = \<lparr>channel = ''can0'', can_state = DEFAULT_CAN_STATE, bitrate = 500000, sample_point = 7/8, cc_len8_dlc = False, fd = None\<rparr>"


text \<open>
  Listing wifi networks. On top of the other information, each network with a name is listed
  once, in the order of first appearance, with the security first seen for it, and as connected
  exactly when one of its entries is in use; if nmcli fails, nothing is added.
\<close>

theorem wifi_networks_merged:
  assumes "\<forall>c\<in>set config. \<forall>a. c \<noteq> WifiInfo a"
  shows "get_wifi_devices_info w config =
     (case wifi_list w of Inl _ \<Rightarrow> config | Inr es \<Rightarrow> config @ map WifiInfo (wifi_summary es))"
  using get_wifi_devices_info_run [OF assms] by (auto simp: get_wifi_devices_info_def split: sum.splits)

theorem wifi_networks_merged_witness:
  "get_wifi_devices_info (demo_network\<lparr>wifi_list := Inr [\<lparr>wifi_ssid = ''a'', wifi_sec = ''WPA2'', in_use = False\<rparr>,
       \<lparr>wifi_ssid = '''', wifi_sec = '''', in_use = False\<rparr>, \<lparr>wifi_ssid = ''a'', wifi_sec = ''WPA3'', in_use = True\<rparr>]\<rparr>) [] =
     [WifiInfo \<lparr>ssid = ''a'', wifi_security = ''WPA2'', connected = True\<rparr>]"
  using wifi_networks_merged [of "[]" "demo_network\<lparr>wifi_list := Inr [\<lparr>wifi_ssid = ''a'', wifi_sec = ''WPA2'', in_use = False\<rparr>,
       \<lparr>wifi_ssid = '''', wifi_sec = '''', in_use = False\<rparr>, \<lparr>wifi_ssid = ''a'', wifi_sec = ''WPA3'', in_use = True\<rparr>]\<rparr>"]
  by (simp add: wifi_summary_def seen_ssids_def)

end
