(* ===== verification/Config_Session.thy ===== *)
theory Config_Session
  imports Config_Manager
begin

section \<open>The manager as a context\<close>

text \<open>
  Models \<open>setup\<close>, \<open>teardown\<close>, \<open>__enter__\<close> and \<open>__exit__\<close> of \<open>ConfigurationManager\<close>, and the \<open>with\<close>
  statement they serve. The manager opens the database of the network when it is made; \<open>ndb_open\<close> says
  whether it is still open.
\<close>

record managed = net_state +
  ndb_open :: bool

definition config_setup ::
  "(int \<Rightarrow> string) \<Rightarrow> (EthIfFlags \<Rightarrow> int) \<Rightarrow> action list option \<Rightarrow> (managed, unit) py" where
  "config_setup show val actions =
     (case actions of
        None \<Rightarrow> py_ret ()
      | Some as \<Rightarrow> if as = [] then py_ret () else configure_actions show val as)"

definition config_teardown :: "(managed, unit) py" where
  "config_teardown = py_modify (\<lambda>w. w\<lparr>ndb_open := False\<rparr>)"

definition config_enter ::
  "(int \<Rightarrow> string) \<Rightarrow> (EthIfFlags \<Rightarrow> int) \<Rightarrow> action list option \<Rightarrow> (managed, unit) py" where
  "config_enter show val actions = config_setup show val actions"

text \<open>The exception is not swallowed.\<close>

definition config_exit :: "(managed, bool) py" where
  "config_exit = py_seq config_teardown (py_ret False)"

text \<open>
  \<open>with ConfigurationManager(actions) as manager: body\<close>. The exit is called when entering has returned,
  also when the body raises, which is then raised again unless the exit returns true.
\<close>

definition with_manager ::
  "(int \<Rightarrow> string) \<Rightarrow> (EthIfFlags \<Rightarrow> int) \<Rightarrow> action list option \<Rightarrow> (managed, unit) py \<Rightarrow> (managed, unit) py" where
  "with_manager show val actions body =
     py_seq (config_enter show val actions)
       (py_bind
         (py_catch (py_seq body (py_ret None))
           (\<lambda>ex. py_bind config_exit (\<lambda>handled. py_ret (Some (ex, handled)))))
         (\<lambda>raised. case raised of
            None \<Rightarrow> py_bind config_exit (\<lambda>_. py_ret ())
          | Some (ex, handled) \<Rightarrow> if handled then py_ret () else py_raise ex))"

subsection \<open>What no action changes\<close>

text \<open>
  What holds of a manager through every command to the network and every change of the options of the
  CAN mode holds through every list of actions.
\<close>

locale network_invariant =
  fixes I :: "'s net_state_scheme \<Rightarrow> bool"
  assumes kept_call: "keeps I (net_call c)"
    and kept_len8: "I w \<Longrightarrow> I (w\<lparr>ctrl_opt_cc_len8 := True\<rparr>)"
    and kept_fd: "I w \<Longrightarrow> I (w\<lparr>ctrl_opt_fd := True\<rparr>)"
begin

text \<open>The shapes in which the state is looked at before a method runs on it.\<close>

lemma kept_guard: "keeps I m \<Longrightarrow> keeps I (\<lambda>w. if P w then (r, w) else m w)"
  by (simp add: keeps_def)

lemma kept_otherwise: "keeps I m \<Longrightarrow> keeps I (\<lambda>w. if P w then m w else (r, w))"
  by (simp add: keeps_def)

lemma kept_found: "(\<And>x. keeps I (m x)) \<Longrightarrow> keeps I (\<lambda>w. case f w of None \<Rightarrow> (r, w) | Some x \<Rightarrow> m x w)"
  by (simp add: keeps_def split: option.split)

lemma kept_call_at: "keeps I (\<lambda>w. net_call (c w) w)"
  using kept_call by (simp add: keeps_def)

lemma kept_modes:
  "keeps I (py_modify (\<lambda>w. w\<lparr>ctrl_opt_cc_len8 := True\<rparr>))"
  "keeps I (py_modify (\<lambda>w. w\<lparr>ctrl_opt_fd := True\<rparr>))"
  by (auto simp: keeps_def kept_len8 kept_fd)

lemma kept_return: "keeps I (\<lambda>w. (r, w))"
  by (simp add: keeps_def)

lemma kept_link_lookup: "keeps I (link_lookup name)"
  by (simp add: keeps_def link_lookup_def split: option.split)

lemmas kept = keeps_bind keeps_seq keeps_catch keeps_ret keeps_raise keeps_get keeps_lift kept_call
  kept_modes kept_return kept_link_lookup kept_call_at

lemma kept_with_interface:
  assumes "\<And>i. keeps I (body i)"
  shows "keeps I (with_interface name staged body)"
  unfolding with_interface_def
proof (rule kept_found)
  fix i
  have "keeps I (if b then net_call (LeaveInterface name staged) else py_ret ())" for b
    by (simp add: kept)
  moreover have "keeps I (case x of (b, changes) \<Rightarrow>
      py_seq (net_call (LeaveInterface name (staged @ changes))) (py_ret b))" for x
    by (cases x) (simp add: kept)
  ultimately show "keeps I (py_bind
      (py_catch (body i)
        (\<lambda>ex. py_seq
          (py_bind (py_get commit_on_error) (\<lambda>b. if b then net_call (LeaveInterface name staged) else py_ret ()))
          (py_raise ex)))
      (\<lambda>(b, changes). py_seq (net_call (LeaveInterface name (staged @ changes))) (py_ret b)))"
    by (intro kept assms)
qed

lemma kept_list_ips: "keeps I (list_ips name)"
  unfolding list_ips_def by (intro kept_guard kept_with_interface kept)

lemma kept_configure_ip: "keeps I (configure_ip show p)"
proof -
  have "keeps I (case route p of
      None \<Rightarrow> py_ret ()
    | Some r \<Rightarrow> (case route_gateway r of
        Some g \<Rightarrow> net_call (CreateRoute (RouteVia (cidr_notation show p) g))
      | None \<Rightarrow> net_call (CreateRoute (RouteDev (cidr_notation show p) n))))" for n
    by (simp add: kept split: option.split)
  then have "keeps I (if x then py_ret () else with_interface (ip_interface p) [AddIp (ip_addr p) (suffix p)] (\<lambda>i.
      py_seq (case route p of
          None \<Rightarrow> py_ret ()
        | Some r \<Rightarrow> (case route_gateway r of
            Some g \<Rightarrow> net_call (CreateRoute (RouteVia (cidr_notation show p) g))
          | None \<Rightarrow> net_call (CreateRoute (RouteDev (cidr_notation show p) (if_index i)))))
        (py_ret ((), []))))" for x
    by (simp add: kept kept_with_interface)
  then show ?thesis
    unfolding configure_ip_def by (intro kept_guard kept kept_list_ips)
qed

lemma kept_remove_ip: "keeps I (remove_ip show p)"
proof -
  have "keeps I (case route p of
      None \<Rightarrow> py_ret ()
    | Some r \<Rightarrow> (\<lambda>w.
        case (case route_gateway r of
                Some g \<Rightarrow> find (\<lambda>e. e = RouteVia (cidr_notation show p) g) (routes w)
              | None \<Rightarrow> find (\<lambda>e. route_dst e = cidr_notation show p) (routes w)) of
          None \<Rightarrow> (Val (), w)
        | Some e \<Rightarrow> net_call (RemoveRoute e) w))"
    by (simp add: kept kept_found split: option.split)
  then have "keeps I (if x then py_ret () else py_seq
      (case route p of
         None \<Rightarrow> py_ret ()
       | Some r \<Rightarrow> (\<lambda>w.
           case (case route_gateway r of
                   Some g \<Rightarrow> find (\<lambda>e. e = RouteVia (cidr_notation show p) g) (routes w)
                 | None \<Rightarrow> find (\<lambda>e. route_dst e = cidr_notation show p) (routes w)) of
             None \<Rightarrow> (Val (), w)
           | Some e \<Rightarrow> net_call (RemoveRoute e) w))
      (with_interface (ip_interface p) [DelIp (ip_addr p) (suffix p)] (\<lambda>i. py_ret ((), []))))" for x
    by (simp add: kept kept_with_interface)
  then show ?thesis
    unfolding remove_ip_def by (intro kept_guard kept kept_list_ips)
qed

lemma kept_can: "keeps I (configure_can c)"
proof -
  have "keeps I (\<lambda>w. case find (\<lambda>i. if_index i = idx) (ifaces w) of
      Some i \<Rightarrow> if if_state i = ''up'' then net_call (LinkState idx ''down'') w else (Val (), w)
    | None \<Rightarrow> (Exn netlink_error, w))" for idx
    by (intro kept_found [of "\<lambda>i w. if if_state i = ''up'' then net_call (LinkState idx ''down'') w else (Val (), w)"])
      (intro kept_otherwise kept)
  moreover have "keeps I (if ex = netlink_error then py_ret () else py_raise ex)" for ex
    by (simp add: kept)
  moreover have "keeps I (if x then py_modify (\<lambda>w. w\<lparr>ctrl_opt_cc_len8 := True\<rparr>) else py_ret ())"
    "keeps I (if x then py_modify (\<lambda>w. w\<lparr>ctrl_opt_fd := True\<rparr>) else py_ret ())"
    "keeps I (if x then net_call (LinkState idx ''up'') else py_ret ())" for x idx
    by (simp_all add: kept)
  ultimately show ?thesis
    unfolding configure_can_def by (intro kept_guard kept)
qed

lemma kept_eth: "keeps I (configure_eth_interface val p)"
proof -
  have "keeps I (if flags p \<noteq> []
      then py_bind (py_lift (sum_flags val 0 (flags p))) (\<lambda>v. py_ret [SetFlags (0xffffffff AND v)])
      else py_ret [])"
    by (simp add: kept)
  then show ?thesis
    unfolding configure_eth_interface_def by (intro kept_guard kept_with_interface kept)
qed

lemma kept_wifi: "keeps I (connect_wifi_device name password)"
proof -
  have "keeps I (if ex = connection_failed then py_ret () else py_raise ex)" for ex
    by (simp add: kept)
  then show ?thesis
    unfolding connect_wifi_device_def by (intro kept)
qed

lemma kept_vlan: "keeps I (create_vlan_interface name link vlan_id)"
  unfolding create_vlan_interface_def by (intro kept_guard kept)

lemma kept_action: "keeps I (configure_action show val a)"
  by (cases a)
    (simp_all add: kept_configure_ip kept_remove_ip kept_can kept_eth kept_wifi kept_vlan)

lemma kept_actions: "keeps I (configure_actions show val actions)"
  unfolding configure_actions_def by (intro keeps_for kept_action)

end

interpretation database: network_invariant "\<lambda>w. ndb_open w = b" for b
  by unfold_locales (auto simp: keeps_def net_call_def split: sum.split)

text \<open>
  C37. A manager used as a context. If its actions succeed, the body runs once, on what they left, and with
  the database open; when it is over, by an exception too, the database is closed and nothing else is
  changed, and an exception goes on. If an action raises, neither the body nor the exit is run: the
  exception leaves the database open.
\<close>

theorem manager_context:
  assumes "ndb_open w"
  shows "case config_setup show val actions w of
      (Val u, w1) \<Rightarrow> ndb_open w1 \<and>
        (case body w1 of
           (Diverge, w2) \<Rightarrow> with_manager show val actions body w = (Diverge, w2)
         | (r, w2) \<Rightarrow> with_manager show val actions body w = (r, w2\<lparr>ndb_open := False\<rparr>))
    | (r, w1) \<Rightarrow> ndb_open w1 \<and> with_manager show val actions body w = (r, w1)"
proof -
  have "keeps ndb_open (configure_actions show val as :: (managed, unit) py)" for as
    using database.kept_actions [of True "show" val as] by simp
  then have "keeps ndb_open (config_setup show val actions)"
    by (simp add: config_setup_def keeps_ret split: option.split)
  moreover obtain r w1 where entered: "config_setup show val actions w = (r, w1)"
    by fastforce
  ultimately have "ndb_open w1"
    using assms keepsD by (metis (mono_tags, lifting))
  moreover obtain q w2 where "body w1 = (q, w2)"
    by fastforce
  ultimately show ?thesis
    using entered
    by (cases r; cases q)
      (simp_all add: with_manager_def config_enter_def config_exit_def config_teardown_def py_seq_def
        py_bind_def py_catch_def)
qed

text \<open>
  A command that the network refuses: the action raises, and the
  database stays open.
\<close>

definition demo_managed :: managed where
  "demo_managed = net_state.extend
     (demo_network\<lparr>wifi_list := Inr [], net_effect := \<lambda>c s. Inl netlink_error,
        ifaces := [\<lparr>ifname = ''can0'', if_index = 3, ifi_type = 280, if_kind = ''can'', if_mtu = 16,
          if_state = ''down'', if_flags = 0, ipaddr = []\<rparr>]\<rparr>) \<lparr>ndb_open = True\<rparr>"

theorem manager_context_witness:
  "\<exists>w'. with_manager (\<lambda>_. []) (\<lambda>_. 0) (Some [CreateVlanAction ''can0.5'' ''can0'' 5]) (py_ret ()) demo_managed =
     (Exn netlink_error, w') \<and> ndb_open w'"
proof -
  have "ndb_open demo_managed"
    by (simp add: demo_managed_def net_state.defs)
  moreover have "config_setup (\<lambda>_. []) (\<lambda>_. 0) (Some [CreateVlanAction ''can0.5'' ''can0'' 5]) demo_managed =
      (Exn netlink_error, demo_managed)"
    by (simp add: config_setup_def configure_actions_def create_vlan_interface_def is_interface_exists_def
        list_interfaces_def link_lookup_def find_iface_def net_call_def demo_managed_def net_state.defs
        py_seq_def py_bind_def)
  ultimately show ?thesis
    using manager_context [of demo_managed "\<lambda>_. []" "\<lambda>_. 0" "Some [CreateVlanAction ''can0.5'' ''can0'' 5]" "py_ret ()"]
    by simp
qed


subsection \<open>The mode of a CAN interface over many actions\<close>

interpretation fd_mode: network_invariant ctrl_opt_fd
  by unfold_locales (auto simp: keeps_def net_call_def split: sum.split)

interpretation len8_mode: network_invariant ctrl_opt_cc_len8
  by unfold_locales (auto simp: keeps_def net_call_def split: sum.split)

text \<open>An option of the CAN mode that is on stays on through every list of actions, whatever their outcome.\<close>

theorem can_modes_last:
  assumes "configure_actions show val actions w = (r, w')"
  shows "(ctrl_opt_fd w \<longrightarrow> ctrl_opt_fd w') \<and> (ctrl_opt_cc_len8 w \<longrightarrow> ctrl_opt_cc_len8 w')"
  using keepsD [OF fd_mode.kept_actions _ assms] keepsD [OF len8_mode.kept_actions _ assms] by blast

end
