(* ===== verification/Config_Reports.thy ===== *)
theory Config_Reports
  imports Config_Manager Py_Int
begin

section \<open>What a configuration prints\<close>

text \<open>
  Models the \<open>__str__\<close> methods of \<open>configuration_manager/models.py\<close> and the address model of
  \<open>communication/ip/models/ip_models.py\<close>. \<open>show\<close> prints a float. A state or a flag that is only a name
  has neither \<open>value\<close> nor \<open>name\<close>: printing it raises.
\<close>

subsection \<open>Parts\<close>

definition py_bool :: "bool \<Rightarrow> string" where
  "py_bool b = (if b then ''True'' else ''False'')"

definition py_optional :: "('a \<Rightarrow> string) \<Rightarrow> 'a option \<Rightarrow> string" where
  "py_optional f x = (case x of None \<Rightarrow> ''None'' | Some a \<Rightarrow> f a)"

fun flag_name :: "EthIfFlags \<Rightarrow> string" where
  "flag_name IFF_UP = ''IFF_UP''"
| "flag_name IFF_BROADCAST = ''IFF_BROADCAST''"
| "flag_name IFF_DEBUG = ''IFF_DEBUG''"
| "flag_name IFF_LOOPBACK = ''IFF_LOOPBACK''"
| "flag_name IFF_POINTOPOINT = ''IFF_POINTOPOINT''"
| "flag_name IFF_NOTRAILERS = ''IFF_NOTRAILERS''"
| "flag_name IFF_RUNNING = ''IFF_RUNNING''"
| "flag_name IFF_NOARP = ''IFF_NOARP''"
| "flag_name IFF_PROMISC = ''IFF_PROMISC''"
| "flag_name IFF_ALLMULTI = ''IFF_ALLMULTI''"
| "flag_name IFF_MASTER = ''IFF_MASTER''"
| "flag_name IFF_SLAVE = ''IFF_SLAVE''"
| "flag_name IFF_MULTICAST = ''IFF_MULTICAST''"
| "flag_name IFF_PORTSEL = ''IFF_PORTSEL''"
| "flag_name IFF_AUTOMEDIA = ''IFF_AUTOMEDIA''"
| "flag_name IFF_DYNAMIC = ''IFF_DYNAMIC''"
| "flag_name IFF_LOWER_UP = ''IFF_LOWER_UP''"
| "flag_name IFF_DORMANT = ''IFF_DORMANT''"
| "flag_name IFF_ECHO = ''IFF_ECHO''"

definition no_attribute :: "string \<Rightarrow> exn" where
  "no_attribute a = AttributeError a"

fun state_value_str :: "state_value \<Rightarrow> exn + string" where
  "state_value_str (StateMember s) = Inr (state_text s)"
| "state_value_str (StateName n) = Inl (no_attribute ''value'')"

fun flag_names :: "flag_value list \<Rightarrow> exn + string list" where
  "flag_names [] = Inr []"
| "flag_names (Member f # fs) = map_sum id ((#) (flag_name f)) (flag_names fs)"
| "flag_names (Name n # fs) = Inl (no_attribute ''name'')"

subsection \<open>The models\<close>

definition can_fd_str :: "CanFdOptions \<Rightarrow> string" where
  "can_fd_str fo = ''dbitrate: '' @ py_str (dbitrate fo)"

definition can_info_str :: "(rat \<Rightarrow> string) \<Rightarrow> CanInterfaceConfigurationInfo \<Rightarrow> exn + string" where
  "can_info_str show c =
     (case state_value_str (can_state c) of
        Inl e \<Rightarrow> Inl e
      | Inr st \<Rightarrow>
          Inr (''CAN channel: '' @ channel c @ '', state '' @ st @ '', '' @
            ''bitrate: '' @ py_str (bitrate c) @ '', sample point: '' @ show (sample_point c) @ '', '' @
            ''len8-dlc: '' @ py_bool (cc_len8_dlc c) @ '', '' @
            ''FD: '' @ (case fd c of Some fo \<Rightarrow> can_fd_str fo | None \<Rightarrow> ''Not configured'')))"

definition ip_params_str :: "IpConfigurationParams \<Rightarrow> string" where
  "ip_params_str p = ip_interface p @ '' - '' @ cidr_notation py_str p"

text \<open>A state that is not given is \<open>None\<close>, which has no value either.\<close>

definition eth_info_str :: "EthInterfaceParams \<Rightarrow> IpConfigurationParams list \<Rightarrow> exn + string" where
  "eth_info_str p ips =
     (case eth_state p of
        None \<Rightarrow> Inl (no_attribute ''value'')
      | Some st \<Rightarrow>
          (case flag_names (flags p) of
             Inl e \<Rightarrow> Inl e
           | Inr names \<Rightarrow>
               Inr (''Ethernet interface: '' @ eth_interface p @ NL @
                 [CHR 0x09] @ ''MTU: '' @ py_optional py_str (mtu p) @ '', state: '' @ state_text st @ NL @
                 [CHR 0x09] @ ''Flags: '' @ join_text '', '' names @ NL @
                 [CHR 0x09] @ ''IPs: '' @ join_text '', '' (map (cidr_notation py_str) ips))))"

definition wifi_info_str :: "WifiAccessPointConfigurationInfo \<Rightarrow> string" where
  "wifi_info_str a =
     ''Wifi Access Point: SSID: '' @ ssid a @ '', security: '' @ wifi_security a @ '', connected: '' @
     py_bool (connected a)"

fun info_str :: "(rat \<Rightarrow> string) \<Rightarrow> configuration_info \<Rightarrow> exn + string" where
  "info_str show (CanInfo c) = can_info_str show c"
| "info_str show (EthInfo p ips) = eth_info_str p ips"
| "info_str show (WifiInfo a) = Inr (wifi_info_str a)"

text \<open>The texts of the generator, up to the first that raises.\<close>

fun info_texts :: "(rat \<Rightarrow> string) \<Rightarrow> configuration_info list \<Rightarrow> exn + string list" where
  "info_texts show [] = Inr []"
| "info_texts show (c # cs) =
     (case info_str show c of Inl e \<Rightarrow> Inl e | Inr s \<Rightarrow> map_sum id ((#) s) (info_texts show cs))"

definition device_configuration_str :: "(rat \<Rightarrow> string) \<Rightarrow> configuration_info list \<Rightarrow> exn + string" where
  "device_configuration_str show cs = map_sum id (join_text NL) (info_texts show cs)"

text \<open>A VLAN of zero counts as none, and leaves its space.\<close>

record ip_address_params =
  params_ip :: string
  params_vlan :: "int option"

definition ip_address_params_str :: "ip_address_params \<Rightarrow> string" where
  "ip_address_params_str p =
     ''IP: '' @ params_ip p @ '' '' @
     (case params_vlan p of Some v \<Rightarrow> if v = 0 then [] else ''Vlan ID: '' @ py_str v | None \<Rightarrow> [])"

subsection \<open>What can be printed\<close>

fun printable :: "configuration_info \<Rightarrow> bool" where
  "printable (CanInfo c) \<longleftrightarrow> (\<exists>s. can_state c = StateMember s)"
| "printable (EthInfo p ips) \<longleftrightarrow> eth_state p \<noteq> None \<and> (\<forall>f\<in>set (flags p). \<exists>m. f = Member m)"
| "printable (WifiInfo a) \<longleftrightarrow> True"

lemma flag_names_Inr: "(\<exists>ns. flag_names fs = Inr ns) \<longleftrightarrow> (\<forall>f\<in>set fs. \<exists>m. f = Member m)"
  by (induction fs rule: flag_names.induct) (auto simp: map_sum_def split: sum.splits)

lemma info_str_Inr: "(\<exists>s. info_str show c = Inr s) \<longleftrightarrow> printable c"
proof (cases c)
  case (CanInfo i)
  then show ?thesis
    by (cases "can_state i") (simp_all add: can_info_str_def)
next
  case (EthInfo p ips)
  then show ?thesis
    using flag_names_Inr [of "flags p"] by (auto simp: eth_info_str_def split: option.splits sum.splits)
qed simp

lemma info_texts_Inr: "(\<exists>ts. info_texts show cs = Inr ts) \<longleftrightarrow> (\<forall>c\<in>set cs. printable c)"
proof (induction cs)
  case (Cons c cs)
  then show ?case
    using info_str_Inr [of "show" c] by (auto simp: map_sum_def split: sum.splits)
qed simp

lemma device_configuration_Inr:
  "(\<exists>s. device_configuration_str show cs = Inr s) \<longleftrightarrow> (\<forall>c\<in>set cs. printable c)"
  using info_texts_Inr [of "show" cs] by (auto simp: device_configuration_str_def map_sum_def split: sum.splits)

lemma eth_configuration_printable:
  "get_eth_configuration ip6 val is w = (Val cs, w') \<Longrightarrow> \<forall>c\<in>set cs. printable c"
proof (induction "is" arbitrary: w cs w')
  case (Cons i "is")
  show ?case
  proof (cases "ifi_type i = 1")
    case True
    then obtain ps v cs' where "get_eth_configuration ip6 val is v = (Val cs', w')"
      and "cs = EthInfo (eth_params_of val i) ps # cs'"
      using Cons.prems by (auto simp: py_inv)
    then show ?thesis
      using Cons.IH by (auto simp: eth_params_of_def)
  next
    case False
    then show ?thesis
      using Cons.IH [of w cs w'] Cons.prems by simp
  qed
qed simp

lemma can_configuration_printable:
  "get_can_configuration link is = Inr cs \<Longrightarrow> \<forall>c\<in>set cs. printable c"
  by (induction "is" arbitrary: cs) (auto simp: can_info_of_def split: if_splits sum.splits)

lemma merge_wifi_printable: "\<forall>c\<in>set cs. printable c \<Longrightarrow> \<forall>c\<in>set (merge_wifi e cs). printable c"
  by (induction e cs rule: merge_wifi.induct) auto

lemma wifi_devices_printable:
  assumes "\<forall>c\<in>set cs. printable c"
  shows "\<forall>c\<in>set (get_wifi_devices_info w cs). printable c"
proof -
  have "\<forall>c\<in>set (fold (\<lambda>e c. if wifi_ssid e \<noteq> [] then merge_wifi e c else c) es cs). printable c" for es
    using assms
  proof (induction es arbitrary: cs)
    case (Cons e es)
    then show ?case
      using merge_wifi_printable [of cs e] by simp
  qed simp
  then show ?thesis
    using assms by (simp add: get_wifi_devices_info_def split: sum.split)
qed

text \<open>
  C38. A configuration read from the device can always be printed, whatever its interfaces are. One that is
  made by hand prints exactly when every state and flag in it is a member: the model of a CAN interface
  with the default state, and that of an Ethernet interface with the default flags or without a state,
  raise \<open>AttributeError\<close>, and with one of them the whole configuration does.
\<close>

theorem device_configuration_prints:
  "(\<forall>w w' cs. get_device_configuration ip6 val w = (Val cs, w') \<longrightarrow>
      (\<exists>s. device_configuration_str show cs = Inr s)) \<and>
   ((\<exists>s. device_configuration_str show config = Inr s) \<longleftrightarrow> (\<forall>c\<in>set config. printable c)) \<and>
   (can_state c = DEFAULT_CAN_STATE \<longrightarrow> info_str show (CanInfo c) = Inl (AttributeError ''value'')) \<and>
   (eth_state p = None \<longrightarrow> info_str show (EthInfo p ips) = Inl (AttributeError ''value'')) \<and>
   (flags p = DEFAULT_ETH_IF_FLAGS \<and> eth_state p \<noteq> None \<longrightarrow>
      info_str show (EthInfo p ips) = Inl (AttributeError ''name''))"
proof (intro conjI allI impI)
  fix w w' :: "'a net_state_scheme" and cs
  assume "get_device_configuration ip6 val w = (Val cs, w')"
  then obtain eth v can where eth: "get_eth_configuration ip6 val (ifaces w) w = (Val eth, v)"
    and can: "get_can_configuration (can_links v) (ifaces v) = Inr can"
    and cs: "cs = get_wifi_devices_info v (eth @ can)"
    by (auto simp: get_device_configuration_def py_inv)
  have "\<forall>c\<in>set (eth @ can). printable c"
    using eth_configuration_printable [OF eth] can_configuration_printable [OF can] by auto
  then have "\<forall>c\<in>set cs. printable c"
    unfolding cs by (rule wifi_devices_printable)
  then show "\<exists>s. device_configuration_str show cs = Inr s"
    by (simp add: device_configuration_Inr)
qed (simp_all add: device_configuration_Inr can_info_str_def eth_info_str_def DEFAULT_CAN_STATE_def
    DEFAULT_ETH_IF_FLAGS_def no_attribute_def split: option.splits)

theorem device_configuration_prints_witness:
  "info_str (\<lambda>_. ''0.875'') (CanInfo demo_can_config) = Inl (AttributeError ''value'') \<and>
   device_configuration_str (\<lambda>_. ''0.875'') [CanInfo (demo_can_config\<lparr>can_state := StateMember DOWN\<rparr>)] =
     Inr (''CAN channel: can0, state DOWN, bitrate: 500000, sample point: 0.875, len8-dlc: False, '' @
       ''FD: Not configured'')"
proof
  have "can_state demo_can_config = DEFAULT_CAN_STATE"
    by (simp add: demo_can_config_def)
  then show "info_str (\<lambda>_. ''0.875'') (CanInfo demo_can_config) = Inl (AttributeError ''value'')"
    using device_configuration_prints [of undefined undefined "\<lambda>_. ''0.875''" "[]" demo_can_config]
    by blast
  have "show_base 10 500000 = ''500000''"
    by (simp add: show_base.simps [of 10] hex_digit_def)
  then show "device_configuration_str (\<lambda>_. ''0.875'') [CanInfo (demo_can_config\<lparr>can_state := StateMember DOWN\<rparr>)] =
     Inr (''CAN channel: can0, state DOWN, bitrate: 500000, sample point: 0.875, len8-dlc: False, '' @
       ''FD: Not configured'')"
    by (simp add: device_configuration_str_def can_info_str_def demo_can_config_def py_str_def py_bool_def)
qed

end
