(* ===== verification/Range_Set.thy ===== *)
theory Range_Set
  imports Py_Int
begin

section \<open>Sets of number ranges\<close>

text \<open>
  Models \<open>BaseNumberRangeSet\<close> and its subclasses (\<open>utils/custom_types/range_set.py\<close>). A Python
  \<open>range(a, b)\<close> is the pair of its bounds. The base class leaves the number parser to its
  subclasses: that is the locale \<open>number_parser\<close>, with the law the printed form relies on, and the
  five subclasses are its interpretations.
\<close>

type_synonym range = "int \<times> int"

definition range_members :: "range \<Rightarrow> int list" where
  "range_members r = [fst r..snd r - 1]"

definition range_length :: "range \<Rightarrow> int" where
  "range_length r = max 0 (snd r - fst r)"

text \<open>\<open>s.split(c)\<close> for a one-character separator.\<close>

fun py_split :: "char \<Rightarrow> string \<Rightarrow> string list" where
  "py_split c [] = [[]]"
| "py_split c (x # xs) =
     (if x = c then [] # py_split c xs
      else case py_split c xs of
        [] \<Rightarrow> [[x]]
      | t # ts \<Rightarrow> (x # t) # ts)"

text \<open>One token: two numbers around a dash, or one number. Unpacking three parts is an error.\<close>

definition parse_token :: "(string \<Rightarrow> exn + int) \<Rightarrow> string \<Rightarrow> exn + range" where
  "parse_token parse_number t =
     (if CHR ''-'' \<in> set t
      then (case py_split (CHR ''-'') t of
              [a, b] \<Rightarrow>
                (case parse_number a of
                   Inl e \<Rightarrow> Inl e
                 | Inr start \<Rightarrow> (case parse_number b of
                     Inl e \<Rightarrow> Inl e
                   | Inr stop \<Rightarrow> Inr (start, stop + 1)))
            | _ \<Rightarrow> Inl (ValueError ''too many values to unpack''))
      else (case parse_number t of
              Inl e \<Rightarrow> Inl e
            | Inr n \<Rightarrow> Inr (n, n + 1)))"

fun parse_tokens :: "(string \<Rightarrow> exn + int) \<Rightarrow> string list \<Rightarrow> exn + range list" where
  "parse_tokens parse_number [] = Inr []"
| "parse_tokens parse_number (t # ts) =
     (case parse_token parse_number t of
        Inl e \<Rightarrow> Inl e
      | Inr r \<Rightarrow> (case parse_tokens parse_number ts of
          Inl e \<Rightarrow> Inl e
        | Inr rs \<Rightarrow> Inr (r # rs)))"

definition parse_nmap_ranges :: "(string \<Rightarrow> exn + int) \<Rightarrow> string \<Rightarrow> exn + range list" where
  "parse_nmap_ranges parse_number nmap_ranges =
     (if nmap_ranges = [] then Inr []
      else case parse_tokens parse_number (py_split (CHR '','') nmap_ranges) of
        Inl e \<Rightarrow> Inl e
      | Inr rs \<Rightarrow> Inr (sort_key snd rs))"

definition range_set_iter :: "range list \<Rightarrow> int list" where
  "range_set_iter ranges = concat (map range_members ranges)"

definition range_set_len :: "range list \<Rightarrow> int" where
  "range_set_len ranges = sum_list (map range_length ranges)"

text \<open>Python compares ranges as sequences.\<close>

definition range_set_eq :: "range list \<Rightarrow> range list \<Rightarrow> bool" where
  "range_set_eq a b \<longleftrightarrow> map range_members a = map range_members b"

subsection \<open>The subclasses' parsers\<close>

definition hex_parse_number :: "string \<Rightarrow> exn + int" where
  "hex_parse_number s = py_int 16 s"

definition oct_parse_number :: "string \<Rightarrow> exn + int" where
  "oct_parse_number s = py_int 8 s"

definition bin_parse_number :: "string \<Rightarrow> exn + int" where
  "bin_parse_number s = py_int 2 s"

definition dec_parse_number :: "string \<Rightarrow> exn + int" where
  "dec_parse_number s = py_int 10 s"

definition auto_parse_number :: "string \<Rightarrow> exn + int" where
  "auto_parse_number s = py_int 0 s"

subsection \<open>Printing\<close>

definition print_range :: "(nat \<Rightarrow> string) \<Rightarrow> nat \<times> nat \<Rightarrow> string" where
  "print_range show r = show (fst r) @ ''-'' @ show (snd r)"

fun print_ranges :: "(nat \<Rightarrow> string) \<Rightarrow> (nat \<times> nat) list \<Rightarrow> string" where
  "print_ranges show [] = []"
| "print_ranges show [r] = print_range show r"
| "print_ranges show (r # rs) = print_range show r @ '','' @ print_ranges show rs"

definition as_range :: "nat \<times> nat \<Rightarrow> range" where
  "as_range r = (int (fst r), int (snd r) + 1)"

lemma py_split_none: "c \<notin> set s \<Longrightarrow> py_split c s = [s]"
  by (induction s) auto

lemma py_split_append: "c \<notin> set s \<Longrightarrow> py_split c (s @ c # t) = s # py_split c t"
  by (induction s) auto

locale number_parser =
  fixes parse_number :: "string \<Rightarrow> exn + int"
    and show_number :: "nat \<Rightarrow> string"
  assumes parse_show: "parse_number (show_number n) = Inr (int n)"
    and show_clean: "CHR '','' \<notin> set (show_number n)" "CHR ''-'' \<notin> set (show_number n)"
begin

lemma parse_token_print:
  "parse_token parse_number (print_range show_number r) = Inr (as_range r)"
  using show_clean by (simp add: parse_token_def print_range_def py_split_append py_split_none
      parse_show as_range_def)

lemma print_range_clean: "CHR '','' \<notin> set (print_range show_number r)"
  using show_clean by (simp add: print_range_def)

lemma parse_tokens_print:
  "rs \<noteq> [] \<Longrightarrow>
     parse_tokens parse_number (py_split (CHR '','') (print_ranges show_number rs)) = Inr (map as_range rs)"
proof (induction rs rule: list_nonempty_induct)
  case (single r)
  then show ?case
    using print_range_clean by (simp add: py_split_none parse_token_print)
next
  case (cons r rs)
  then have "print_ranges show_number (r # rs) = print_range show_number r @ '','' @ print_ranges show_number rs"
    by (cases rs) simp_all
  with cons show ?case
    using print_range_clean by (simp add: py_split_append parse_token_print)
qed

lemma parse_print:
  "parse_nmap_ranges parse_number (print_ranges show_number rs) = Inr (sort_key snd (map as_range rs))"
proof (cases rs)
  case (Cons r rs')
  then have "print_ranges show_number rs \<noteq> []"
    by (cases rs') (simp_all add: print_range_def)
  then show ?thesis
    using parse_tokens_print [of rs] Cons by (simp add: parse_nmap_ranges_def)
qed (simp add: parse_nmap_ranges_def)

end

lemma show_base_clean:
  assumes "base \<in> {2, 8, 10, 16}"
  shows "CHR '','' \<notin> set (show_base base n)" "CHR ''-'' \<notin> set (show_base base n)"
proof -
  have dig: "\<exists>d<16. c = hex_digit d" if "c \<in> set (show_base base n)" for c
    using show_base_digits [of base c n] that assms by auto
  show "CHR '','' \<notin> set (show_base base n)" "CHR ''-'' \<notin> set (show_base base n)"
    using dig hex_digit_plain(2,4) by metis+
qed

interpretation hex_parser: number_parser hex_parse_number "show_base 16"
  by unfold_locales (simp_all add: hex_parse_number_def py_int_show show_base_clean)

interpretation oct_parser: number_parser oct_parse_number "show_base 8"
  by unfold_locales (simp_all add: oct_parse_number_def py_int_show show_base_clean)

interpretation bin_parser: number_parser bin_parse_number "show_base 2"
  by unfold_locales (simp_all add: bin_parse_number_def py_int_show show_base_clean)

interpretation dec_parser: number_parser dec_parse_number "show_base 10"
  by unfold_locales (simp_all add: dec_parse_number_def py_int_show show_base_clean)

interpretation auto_parser: number_parser auto_parse_number "show_base 10"
  by unfold_locales
    (simp_all add: auto_parse_number_def py_int_show(2) [of 10] show_base_clean)

lemma range_set_len_iter: "range_set_len ranges = int (length (range_set_iter ranges))"
  by (induction ranges)
    (auto simp: range_set_len_def range_set_iter_def range_length_def range_members_def)

lemma range_set_iter_mem:
  "n \<in> set (range_set_iter (sort_key snd (map as_range rs))) \<longleftrightarrow> (\<exists>(a, b)\<in>set rs. int a \<le> n \<and> n \<le> int b)"
proof -
  have "n \<in> set (range_set_iter ranges) \<longleftrightarrow> (\<exists>r\<in>set ranges. fst r \<le> n \<and> n \<le> snd r - 1)" for ranges
    by (simp add: range_set_iter_def range_members_def)
  then show ?thesis
    by (simp add: as_range_def case_prod_unfold)
qed

subsection \<open>Properties\<close>



end
