(* ===== verification/Mac_Parsing.thy ===== *)
theory Mac_Parsing
  imports Range_Set
begin

section \<open>The codecs of 802.11 frames\<close>

text \<open>
  Models the parts of \<open>communication/wlan/mac_parsing.py\<close> that are code of the SDK: the adapters that
  convert values, and the enumerations the WLAN communicator decides by. The structure declarations
  around them are interpreted by the package construct.
\<close>

unbundle bit_operations_syntax

subsection \<open>Reversing bits\<close>

text \<open>\<open>SwapBitsAdapter._flip_bits\<close>: print in binary with leading zeros, reverse the text, read it.\<close>

definition format_bin :: "nat \<Rightarrow> nat \<Rightarrow> string" where
  "format_bin num_bits v =
     (let s = show_base 2 v in replicate (num_bits - length s) (CHR ''0'') @ s)"

definition flip_bits :: "nat \<Rightarrow> nat \<Rightarrow> exn + int" where
  "flip_bits value num_bits = py_int 2 (rev (format_bin num_bits value))"

subsection \<open>MAC addresses\<close>

fun join_with :: "char \<Rightarrow> string list \<Rightarrow> string" where
  "join_with c [] = []"
| "join_with c [s] = s"
| "join_with c (s # ss) = s @ c # join_with c ss"

definition mac_decode :: "bytes \<Rightarrow> string" where
  "mac_decode obj = join_with (CHR '':'') (map hex_byte obj)"

text \<open>\<open>bytes\<close> of a sequence of integers refuses those that are not in 0..255.\<close>

fun bytes_of_ints :: "int list \<Rightarrow> exn + bytes" where
  "bytes_of_ints [] = Inr []"
| "bytes_of_ints (n # ns) =
     (if 0 \<le> n \<and> n < 256
      then (case bytes_of_ints ns of Inl e \<Rightarrow> Inl e | Inr bs \<Rightarrow> Inr (word_of_int n # bs))
      else Inl (ValueError ''bytes must be in range(0, 256)''))"

fun parse_hex_parts :: "string list \<Rightarrow> exn + int list" where
  "parse_hex_parts [] = Inr []"
| "parse_hex_parts (s # ss) =
     (case py_int 16 s of
        Inl e \<Rightarrow> Inl e
      | Inr n \<Rightarrow> (case parse_hex_parts ss of Inl e \<Rightarrow> Inl e | Inr ns \<Rightarrow> Inr (n # ns)))"

definition mac_encode :: "string \<Rightarrow> exn + bytes" where
  "mac_encode obj =
     (case parse_hex_parts (py_split (CHR '':'') obj) of
        Inl e \<Rightarrow> Inl e
      | Inr ns \<Rightarrow> bytes_of_ints ns)"

subsection \<open>Rates\<close>

definition rate_decode :: "int \<Rightarrow> rat \<times> bool" where
  "rate_decode obj = (of_int (obj AND 0x7F) / 2, obj AND 0x80 \<noteq> 0)"

text \<open>\<open>int\<close> cuts a fraction off; the rates are not negative.\<close>

definition rate_encode :: "rat \<times> bool \<Rightarrow> int" where
  "rate_encode obj = (let rate_raw = \<lfloor>fst obj * 2\<rfloor> in if snd obj then rate_raw OR 0x80 else rate_raw)"

subsection \<open>Enumerations\<close>

datatype FrameType = MANAGEMENT | CONTROL | DATA | EXTENSION

fun FrameType_value :: "FrameType \<Rightarrow> nat" where
  "FrameType_value MANAGEMENT = 0"
| "FrameType_value CONTROL = 1"
| "FrameType_value DATA = 2"
| "FrameType_value EXTENSION = 3"

datatype AKM =
    IEEE_RESERVED | IEEE_8021X | IEEE_PSK | IEEE_FT_8021X | IEEE_FT_PSK | IEEE_8021X_SHA256
  | IEEE_PSK_SHA256 | IEEE_TDLS | IEEE_SAE | IEEE_FT_SAE | IEEE_AP_PEER_KEY | IEEE_8021X_SUITE_B
  | IEEE_8021X_SUITE_B_192 | IEEE_FILS_SHA256 | IEEE_FILS_SHA384 | IEEE_FT_FILS_SHA256
  | IEEE_FT_FILS_SHA384 | IEEE_OWE | OtherAKM "32 word"

definition AKMSuites :: "(AKM \<times> 32 word) list" where
  "AKMSuites = [(IEEE_RESERVED, 0x000FAC00), (IEEE_8021X, 0x000FAC01), (IEEE_PSK, 0x000FAC02),
     (IEEE_FT_8021X, 0x000FAC03), (IEEE_FT_PSK, 0x000FAC04), (IEEE_8021X_SHA256, 0x000FAC05),
     (IEEE_PSK_SHA256, 0x000FAC06), (IEEE_TDLS, 0x000FAC07), (IEEE_SAE, 0x000FAC08),
     (IEEE_FT_SAE, 0x000FAC09), (IEEE_AP_PEER_KEY, 0x000FAC0A), (IEEE_8021X_SUITE_B, 0x000FAC0B),
     (IEEE_8021X_SUITE_B_192, 0x000FAC0C), (IEEE_FILS_SHA256, 0x000FAC0D), (IEEE_FILS_SHA384, 0x000FAC0E),
     (IEEE_FT_FILS_SHA256, 0x000FAC0F), (IEEE_FT_FILS_SHA384, 0x000FAC10), (IEEE_OWE, 0x000FAC11)]"

text \<open>The default branch keeps the number itself.\<close>

definition akm_of :: "32 word \<Rightarrow> AKM" where
  "akm_of v = (case find (\<lambda>(a, n). n = v) AKMSuites of Some (a, _) \<Rightarrow> a | None \<Rightarrow> OtherAKM v)"

datatype Cipher =
    IEEE_WEP40 | IEEE_TKIP | IEEE_CCMP | IEEE_WEP104 | IEEE_BIP_CMAC_128 | IEEE_GCMP_128
  | IEEE_GCMP_256 | IEEE_CCMP_256 | IEEE_BIP_GMAC_128 | IEEE_BIP_GMAC_256 | IEEE_BIP_CMAC_256
  | UNKNOWN_CIPHER "32 word"

definition RSNCipherSuites :: "(Cipher \<times> 32 word) list" where
  "RSNCipherSuites = [(IEEE_WEP40, 0x000FAC01), (IEEE_TKIP, 0x000FAC02), (IEEE_CCMP, 0x000FAC04),
     (IEEE_WEP104, 0x000FAC05), (IEEE_BIP_CMAC_128, 0x000FAC06), (IEEE_GCMP_128, 0x000FAC08),
     (IEEE_GCMP_256, 0x000FAC09), (IEEE_CCMP_256, 0x000FAC0A), (IEEE_BIP_GMAC_128, 0x000FAC0B),
     (IEEE_BIP_GMAC_256, 0x000FAC0C), (IEEE_BIP_CMAC_256, 0x000FAC0D)]"

definition cipher_of :: "32 word \<Rightarrow> Cipher" where
  "cipher_of v = (case find (\<lambda>(a, n). n = v) RSNCipherSuites of Some (a, _) \<Rightarrow> a | None \<Rightarrow> UNKNOWN_CIPHER v)"

datatype IEType =
    SSID | SUPPORTED_RATES | FH_PARAMETER_SET | DS_PARAMETER_SET | CF_PARAMETER_SET | TIM
  | IBSS_PARAMETER_SET | COUNTRY | IE_REQUEST | BSS_LOAD | EDCA_PARAMETER_SET | TSPEC | TCLAS
  | SCHEDULE | CHALLENGE_TEXT | POWER_CONSTRAINT | POWER_CAPABILITY | TPC_REQUEST | TPC_REPORT
  | SUPPORTED_CHANNELS | CHANNEL_SWITCH_ANNOUNCEMENT | MEASUREMENT_REQUEST | MEASUREMENT_REPORT
  | QUIET | IBSS_DFS | ERP_INFO | TS_DELAY | TCLAS_PROCESSING | HT_CAPABILITIES | QOS_CAPABILITY
  | RESURVED_47 | RSN | EXTENDED_SUPPORTED_RATES | RSNI | SSID_LIST | INTERNETWORKING
  | EXTENDED_CAPABILITIES | VENDOR_SPECIFIC | RSN_EXTENSION | EXTENDED_ID | OtherIE byte

definition IETypes :: "(IEType \<times> byte) list" where
  "IETypes = [(SSID, 0), (SUPPORTED_RATES, 1), (FH_PARAMETER_SET, 2), (DS_PARAMETER_SET, 3),
     (CF_PARAMETER_SET, 4), (TIM, 5), (IBSS_PARAMETER_SET, 6), (COUNTRY, 7), (IE_REQUEST, 10), (BSS_LOAD, 11),
     (EDCA_PARAMETER_SET, 12), (TSPEC, 13), (TCLAS, 14), (SCHEDULE, 15), (CHALLENGE_TEXT, 16),
     (POWER_CONSTRAINT, 32), (POWER_CAPABILITY, 33), (TPC_REQUEST, 34), (TPC_REPORT, 35),
     (SUPPORTED_CHANNELS, 36), (CHANNEL_SWITCH_ANNOUNCEMENT, 37), (MEASUREMENT_REQUEST, 38),
     (MEASUREMENT_REPORT, 39), (QUIET, 40), (IBSS_DFS, 41), (ERP_INFO, 42), (TS_DELAY, 43),
     (TCLAS_PROCESSING, 44), (HT_CAPABILITIES, 45), (QOS_CAPABILITY, 46), (RESURVED_47, 47), (RSN, 48),
     (EXTENDED_SUPPORTED_RATES, 50), (RSNI, 65), (SSID_LIST, 84), (INTERNETWORKING, 107),
     (EXTENDED_CAPABILITIES, 127), (VENDOR_SPECIFIC, 221), (RSN_EXTENSION, 244), (EXTENDED_ID, 255)]"

definition ie_type_of :: "byte \<Rightarrow> IEType" where
  "ie_type_of v = (case find (\<lambda>(a, n). n = v) IETypes of Some (a, _) \<Rightarrow> a | None \<Rightarrow> OtherIE v)"

definition repeating_element_types :: "IEType list" where
  "repeating_element_types = [VENDOR_SPECIFIC, EXTENDED_ID, INTERNETWORKING, EXTENDED_CAPABILITIES]"

datatype VendorOui = IEEE | MICROSOFT_CORP | OtherOui int

definition oui_of :: "int \<Rightarrow> VendorOui" where
  "oui_of v = (if v = 0x000FAC then IEEE else if v = 0x0050f2 then MICROSOFT_CORP else OtherOui v)"

subsection \<open>Lemmas\<close>

definition bin_char :: "bool \<Rightarrow> char" where
  "bin_char b = (if b then CHR ''1'' else CHR ''0'')"

definition bin_text :: "nat \<Rightarrow> nat \<Rightarrow> string" where
  "bin_text n v = map (\<lambda>i. bin_char (bit v i)) (rev [0..<n])"

fun bin_value :: "bool list \<Rightarrow> nat" where
  "bin_value [] = 0"
| "bin_value (b # bs) = of_bool b + 2 * bin_value bs"

lemma hex_digit_bin: "hex_digit (v mod 2) = bin_char (odd v)"
  by (auto simp: hex_digit_def bin_char_def mod2_eq_if)

lemma bin_text_Suc: "bin_text (Suc n) v = bin_text n (v div 2) @ [bin_char (odd v)]"
proof -
  have "rev [0..<Suc n] = map Suc (rev [0..<n]) @ [0]"
    by (simp add: map_Suc_upt rev_map [symmetric] upt_rec [of 0 "Suc n"] del: upt_Suc)
  then show ?thesis
    by (simp add: bin_text_def bit_Suc bit_0 del: upt_Suc)
qed

lemma format_bin_text: "v < 2 ^ n \<Longrightarrow> 0 < n \<Longrightarrow> format_bin n v = bin_text n v"
proof (induction n arbitrary: v)
  case (Suc n)
  show ?case
  proof (cases "n = 0")
    case True
    with Suc.prems have "v < 2" by simp
    then show ?thesis
      using hex_digit_bin [of v] by (simp add: True bin_text_def format_bin_def show_base.simps [of _ v] bit_0)
  next
    case False
    have half: "format_bin n (v div 2) = bin_text n (v div 2)"
      using Suc False by auto
    have "format_bin (Suc n) v = format_bin n (v div 2) @ [bin_char (odd v)]"
    proof (cases "v < 2")
      case True
      then have "format_bin n (v div 2) = replicate n (CHR ''0'')"
        using False by (cases n) (simp_all add: format_bin_def show_base.simps [of _ 0] hex_digit_def
            replicate_append_same)
      then show ?thesis
        using True hex_digit_bin [of v] by (simp add: format_bin_def show_base.simps [of _ v])
    next
      case big: False
      then have "show_base 2 v = show_base 2 (v div 2) @ [bin_char (odd v)]"
        using hex_digit_bin [of v] by (subst show_base.simps) simp
      then show ?thesis
        by (simp add: format_bin_def Let_def)
    qed
    then show ?thesis
      by (simp add: half bin_text_Suc)
  qed
qed simp

lemma digit_val_bin [simp]: "digit_val (bin_char b) = Some (of_bool b)"
  by (simp add: bin_char_def digit_val_def)

lemma bin_char_plain [simp]:
  "bin_char b \<noteq> CHR ''_''" "bin_char b \<noteq> CHR ''-''" "bin_char b \<noteq> CHR ''+''" "\<not> is_py_space (bin_char b)"
  "base_prefix 2 (bin_char b) = None"
  by (auto simp: bin_char_def is_py_space_def base_prefix_def)

lemma digits_value_bin:
  "bs \<noteq> [] \<or> \<not> need \<Longrightarrow>
     digits_value 2 acc need (map bin_char bs) = Some (foldl (\<lambda>a b. a * 2 + of_bool b) acc bs)"
  by (induction bs arbitrary: acc need) auto

lemma foldl_horner: "foldl (\<lambda>a b. a * 2 + of_bool b) 0 bs = (horner_sum of_bool 2 (rev bs) :: int)"
  by (induction bs rule: rev_induct) simp_all

lemma py_int_bin: "bs \<noteq> [] \<Longrightarrow> py_int 2 (map bin_char bs) = Inr (horner_sum of_bool 2 (rev bs))"
proof -
  assume bs: "bs \<noteq> []"
  have "py_strip (map bin_char bs) = map bin_char bs"
    using bs by (intro py_strip_digits) auto
  moreover have "digits_value 2 0 True (map bin_char bs) = Some (horner_sum of_bool 2 (rev bs))"
    using digits_value_bin [of bs True 0] bs by (simp add: foldl_horner)
  moreover from this have "unsigned_value 2 (map bin_char bs) = Some (horner_sum of_bool 2 (rev bs))"
    by (auto simp: unsigned_value_def plain_value_def split: list.splits)
  ultimately show ?thesis
    using bs by (cases bs) (auto simp: py_int_def Let_def)
qed

text \<open>Reversing the lowest bits of a number.\<close>

definition reversed :: "nat \<Rightarrow> nat \<Rightarrow> nat" where
  "reversed v n = horner_sum of_bool 2 (map (\<lambda>i. bit v i) (rev [0..<n]))"

lemma bit_reversed: "bit (reversed v n) i \<longleftrightarrow> i < n \<and> bit v (n - 1 - i)"
  by (auto simp: reversed_def bit_horner_sum_bit_iff rev_nth)

lemma reversed_less: "reversed v n < 2 ^ n"
proof -
  have "take_bit n (reversed v n) = reversed v n"
    by (rule bit_eqI) (auto simp: bit_take_bit_iff bit_reversed)
  then show ?thesis
    by (metis take_bit_nat_less_exp)
qed

lemma reversed_twice: "v < 2 ^ n \<Longrightarrow> reversed (reversed v n) n = v"
proof (rule bit_eqI)
  fix i
  assume "v < 2 ^ n"
  then have "take_bit n v = v"
    by (rule take_bit_nat_eq_self)
  then have "bit v i \<Longrightarrow> i < n"
    by (metis bit_take_bit_iff)
  then show "bit (reversed (reversed v n) n) i \<longleftrightarrow> bit v i"
    by (auto simp: bit_reversed)
qed

lemma int_horner_sum: "int (horner_sum of_bool 2 bs) = horner_sum of_bool 2 bs"
  by (induction bs) simp_all

lemma flip_bits_reversed:
  assumes "v < 2 ^ n" and "0 < n"
  shows "flip_bits v n = Inr (int (reversed v n))"
proof -
  have "rev (format_bin n v) = map bin_char (map (\<lambda>i. bit v i) [0..<n])"
    using format_bin_text [OF assms] by (simp add: bin_text_def rev_map)
  moreover have "(horner_sum of_bool 2 (rev (map (\<lambda>i. bit v i) [0..<n])) :: int) = int (reversed v n)"
    by (simp add: reversed_def rev_map int_horner_sum)
  ultimately show ?thesis
    using py_int_bin [of "map (\<lambda>i. bit v i) [0..<n]"] assms(2) by (simp add: flip_bits_def)
qed

lemma unsigned_value_two_digits:
  assumes "x < 16" and "y < 16"
  shows "unsigned_value 16 [hex_digit x, hex_digit y] = Some (int x * 16 + int y)"
proof -
  have "base_prefix 16 (hex_digit y) = None"
    using less_16_cases [OF assms(2)] by (auto simp: base_prefix_def hex_digit_def)
  with assms show ?thesis
    by (simp add: unsigned_value_def plain_value_def)
qed

lemma py_int_hex_byte: "py_int 16 (hex_byte b) = Inr (uint b)"
proof -
  have "16 * (unat b div 16) + unat b mod 16 = unat b"
    by simp
  then have "int (unat b div 16) * 16 + int (unat b mod 16) = uint b"
    unfolding uint_nat by linarith
  then have "unsigned_value 16 (hex_byte b) = Some (uint b)"
    by (simp add: hex_byte_def unsigned_value_two_digits)
  moreover have "py_strip (hex_byte b) = hex_byte b"
    by (intro py_strip_digits) (auto simp: hex_byte_def)
  ultimately show ?thesis
    by (simp add: py_int_def Let_def hex_byte_def)
qed

lemma hex_digit_not_colon: "n < 16 \<Longrightarrow> CHR '':'' \<noteq> hex_digit n"
  using less_16_cases [of n] by (auto simp: hex_digit_def)

lemma hex_byte_clean: "CHR '':'' \<notin> set (hex_byte b)"
  using hex_digit_not_colon [of "unat b div 16"] hex_digit_not_colon [of "unat b mod 16"] by (simp add: hex_byte_def)

lemma py_split_join:
  "ss \<noteq> [] \<Longrightarrow> \<forall>s\<in>set ss. c \<notin> set s \<Longrightarrow> py_split c (join_with c ss) = ss"
  by (induction c ss rule: join_with.induct) (auto simp: py_split_none py_split_append)

lemma parse_hex_parts_bytes: "parse_hex_parts (map hex_byte bs) = Inr (map uint bs)"
  by (induction bs) (auto simp: py_int_hex_byte)

lemma bytes_of_ints_uint: "bytes_of_ints (map uint bs) = Inr (bs :: bytes)"
  by (induction bs) (auto simp del: uint_byte_bounds simp: uint_byte_bounds)

lemma mac_roundtrip: "bs \<noteq> [] \<Longrightarrow> mac_encode (mac_decode bs) = Inr bs"
  using py_split_join [of "map hex_byte bs" "CHR '':''"] hex_byte_clean
  by (simp add: mac_encode_def mac_decode_def parse_hex_parts_bytes bytes_of_ints_uint)

lemma and_exp_int: "(r :: int) AND 2 ^ k = of_bool (bit r k) * 2 ^ k"
  by (rule bit_eqI) (auto simp: bit_simps)

lemma rate_roundtrip:
  assumes "0 \<le> r" and "r < 256"
  shows "rate_encode (rate_decode r) = r"
proof -
  have "r AND 0xFF = r"
  proof -
    have "r AND mask 8 = take_bit 8 r"
      by (simp add: take_bit_eq_mask)
    also have "\<dots> = r"
      using assms by (simp add: take_bit_int_eq_self)
    finally show ?thesis
      by (simp add: mask_eq_exp_minus_1)
  qed
  moreover have "(r AND 0x7F) OR (r AND 0x80) = r AND (0x7F OR 0x80)"
    by (simp only: bit.conj_disj_distrib)
  ultimately have parts: "(r AND 0x7F) OR (r AND 0x80) = r"
    by simp
  have "r AND 0x80 = 0 \<or> r AND 0x80 = 0x80"
    using and_exp_int [of r 7] by auto
  moreover have "\<lfloor>(of_int x / 2 * 2 :: rat)\<rfloor> = x" for x
    by simp
  ultimately show ?thesis
    using parts by (auto simp: rate_encode_def rate_decode_def)
qed

subsection \<open>Properties\<close>

text \<open>
  C23. The value adapters of 802.11 frames lose nothing. Reversing the bits of a field moves bit i of
  its n bits to n-1-i and is its own inverse; a MAC address printed as text parses back to its
  bytes; and every rate byte is rebuilt from the rate and the basic-rate flag read out of it.
\<close>

theorem wlan_codecs_roundtrip:
  assumes "v < 2 ^ n" and "0 < n" and "bs \<noteq> []" and "0 \<le> r" and "r < 256"
  shows "(\<exists>u<2 ^ n. flip_bits v n = Inr (int u) \<and> flip_bits u n = Inr (int v) \<and>
        (\<forall>i. bit u i \<longleftrightarrow> i < n \<and> bit v (n - 1 - i))) \<and>
     mac_encode (mac_decode bs) = Inr bs \<and> rate_encode (rate_decode r) = r"
  using assms flip_bits_reversed [OF reversed_less assms(2)]
  by (auto simp: flip_bits_reversed reversed_less reversed_twice bit_reversed mac_roundtrip rate_roundtrip
      intro!: exI [of _ "reversed v n"])

theorem wlan_codecs_roundtrip_witness:
  "flip_bits 1 4 = Inr 8 \<and> mac_encode (mac_decode [0xAA, 0x0B]) = Inr [0xAA, 0x0B] \<and> rate_encode (rate_decode 0x82) = 0x82"
proof -
  have "\<exists>u<2 ^ 4. flip_bits 1 4 = Inr (int u) \<and> (\<forall>i. bit u i \<longleftrightarrow> i < 4 \<and> bit (1::nat) (4 - 1 - i))"
    and rest: "mac_encode (mac_decode [0xAA, 0x0B]) = Inr [0xAA, 0x0B]" "rate_encode (rate_decode 0x82) = 0x82"
    using wlan_codecs_roundtrip [of 1 4 "[0xAA, 0x0B]" "0x82"] by auto
  then obtain u where u: "flip_bits 1 4 = Inr (int u)" "\<And>i. bit u i \<longleftrightarrow> i < 4 \<and> bit (1::nat) (4 - 1 - i)"
    by blast
  have "u = 8"
  proof (rule bit_eqI)
    fix i
    show "bit u i \<longleftrightarrow> bit (8::nat) i"
      using u(2) [of i] bit_exp_iff [where ?'a = nat, of 3 i] by (auto simp: bit_Suc_0_iff)
  qed
  with u(1) rest show ?thesis
    by simp
qed

end
