(* ===== verification/Wlan.thy ===== *)
theory Wlan
  imports Mac_Parsing Communicator
begin

section \<open>WLAN\<close>

text \<open>
  Models \<open>communication/wlan\<close>: the radiotap channel (\<open>radiotap_prasing.py\<close>), CCMP decryption
  (\<open>crypto_utils.py\<close>), and packets and sockets (\<open>wlan_communicator.py\<close>). What the package construct
  and the radiotap parser make of bytes, and AES, are parameters.
\<close>

unbundle bit_operations_syntax

subsection \<open>Channels\<close>

definition out_of_range :: exn where
  "out_of_range = ValueError ''out of range for channels 1-14 in the 2.4 GHz band''"

definition convert_channel_to_freq :: "int \<Rightarrow> exn + int" where
  "convert_channel_to_freq channel =
     (if 1 \<le> channel \<and> channel \<le> 14 then Inr (2407 + channel * 5) else Inl out_of_range)"

definition convert_freq_to_channel :: "int \<Rightarrow> exn + int" where
  "convert_freq_to_channel center_freq_mhz =
     (if 2407 \<le> center_freq_mhz \<and> center_freq_mhz \<le> 2484 then Inr ((center_freq_mhz - 2407) div 5)
      else Inl out_of_range)"

record radiotap_header =
  chan_freq :: "int option"
  chan_flags :: "int option"
  rt_channel :: "int option"

text \<open>\<open>radiotap_parse\<close> gives the header's length and its fields.\<close>

definition parse_radiotap ::
  "(bytes \<Rightarrow> exn + nat \<times> radiotap_header) \<Rightarrow> bytes \<Rightarrow> exn + radiotap_header \<times> bytes" where
  "parse_radiotap radiotap_parse raw_packet =
     (case radiotap_parse raw_packet of
        Inl e \<Rightarrow> Inl e
      | Inr (header_length, h) \<Rightarrow>
          (case (chan_flags h, chan_freq h) of
             (Some _, Some f) \<Rightarrow>
               (case convert_freq_to_channel f of
                  Inl e \<Rightarrow> Inl e
                | Inr c \<Rightarrow> Inr (h\<lparr>rt_channel := Some c\<rparr>, drop header_length raw_packet))
           | _ \<Rightarrow> Inr (h, drop header_length raw_packet)))"

subsection \<open>CCMP\<close>

record ccmp_payload =
  PN0 :: byte
  PN1 :: byte
  PN2 :: byte
  PN3 :: byte
  PN4 :: byte
  PN5 :: byte
  key_id :: nat
  ccmp_data :: bytes

text \<open>The fields of the MAC header that CCMP uses; \<open>header_raw\<close> is the header built back.\<close>

record mac_header =
  address1 :: string
  address2 :: string
  address3 :: string
  fragment_number :: nat
  qos_tid :: "nat option"
  header_raw :: bytes

definition get_pn :: "ccmp_payload \<Rightarrow> int" where
  "get_pn p =
     (let pn = uint (PN5 p);
          pn = push_bit 8 pn OR uint (PN4 p);
          pn = push_bit 8 pn OR uint (PN3 p);
          pn = push_bit 8 pn OR uint (PN2 p);
          pn = push_bit 8 pn OR uint (PN1 p);
          pn = push_bit 8 pn OR uint (PN0 p)
      in pn)"

text \<open>\<open>binascii.a2b_hex\<close>: like \<open>fromhex\<close>, without white space.\<close>

fun a2b_hex :: "string \<Rightarrow> exn + bytes" where
  "a2b_hex [] = Inr []"
| "a2b_hex [c] = Inl (ValueError ''Odd-length string'')"
| "a2b_hex (c # d # cs) =
     (case (hex_val c, hex_val d) of
        (Some x, Some y) \<Rightarrow>
          (case a2b_hex cs of Inl e \<Rightarrow> Inl e | Inr bs \<Rightarrow> Inr (word_of_nat (16 * x + y) # bs))
      | _ \<Rightarrow> Inl (ValueError ''Non-hexadecimal digit found''))"

definition addr2bin :: "string \<Rightarrow> exn + bytes" where
  "addr2bin addr = a2b_hex (filter (\<lambda>c. c \<noteq> CHR '':'') addr)"

text \<open>\<open>struct.pack(">Q", pn)[2:]\<close>.\<close>

definition pn2bin :: "int \<Rightarrow> exn + bytes" where
  "pn2bin pn = (case to_bytes_be 8 pn of Inl _ \<Rightarrow> Inl StructError | Inr bs \<Rightarrow> Inr (drop 2 bs))"

definition no_qos :: exn where
  "no_qos = AttributeError ''tid''"

definition create_nonce :: "mac_header \<Rightarrow> int \<Rightarrow> exn + bytes" where
  "create_nonce mac_header pn =
     (case qos_tid mac_header of
        None \<Rightarrow> Inl no_qos
      | Some priority \<Rightarrow>
          if priority \<ge> 256 then Inl StructError
          else case addr2bin (address2 mac_header) of
              Inl e \<Rightarrow> Inl e
            | Inr a2 \<Rightarrow> (case pn2bin pn of Inl e \<Rightarrow> Inl e | Inr p \<Rightarrow> Inr (word_of_nat priority # a2 @ p)))"

definition pack_le16 :: "nat \<Rightarrow> bytes" where
  "pack_le16 n = [word_of_nat (n mod 256), word_of_nat (n div 256)]"

definition create_aad :: "mac_header \<Rightarrow> exn + bytes" where
  "create_aad mac_header =
     (case header_raw mac_header of
        f0 # f1 # _ \<Rightarrow>
          (let fc = [f0 AND 0x8f, f1 AND 0xc7];
               sc = pack_le16 (fragment_number mac_header AND 0xf)
           in case addr2bin (address1 mac_header) of
                Inl e \<Rightarrow> Inl e
              | Inr addr1 \<Rightarrow> (case addr2bin (address2 mac_header) of
                Inl e \<Rightarrow> Inl e
              | Inr addr2 \<Rightarrow> (case addr2bin (address3 mac_header) of
                Inl e \<Rightarrow> Inl e
              | Inr addr3 \<Rightarrow> (case qos_tid mac_header of
                None \<Rightarrow> Inl no_qos
              | Some tid \<Rightarrow>
                  if tid \<ge> 65536 then Inl StructError
                  else Inr (fc @ addr1 @ addr2 @ addr3 @ sc @ pack_le16 tid)))))
      | _ \<Rightarrow> Inl IndexError)"

text \<open>
  AES in CCM mode: what making the cipher from a key and a nonce raises, decrypting with a key, a
  nonce and additional data, and checking the tag.
\<close>

record aes_ccm =
  ccm_new :: "bytes \<Rightarrow> bytes \<Rightarrow> exn option"
  ccm_decrypt :: "bytes \<Rightarrow> bytes \<Rightarrow> bytes \<Rightarrow> bytes \<Rightarrow> bytes"
  ccm_verify :: "bytes \<Rightarrow> bytes \<Rightarrow> bytes \<Rightarrow> bytes \<Rightarrow> bytes \<Rightarrow> bool"

definition ccmp_decrypt ::
  "aes_ccm \<Rightarrow> mac_header \<Rightarrow> ccmp_payload \<Rightarrow> bytes \<Rightarrow> bool \<Rightarrow> exn + bytes option" where
  "ccmp_decrypt aes mac_header p tk verify =
     (case create_nonce mac_header (get_pn p) of
        Inl e \<Rightarrow> Inl e
      | Inr nonce \<Rightarrow> (case create_aad mac_header of
          Inl e \<Rightarrow> Inl e
        | Inr aad \<Rightarrow> (case ccm_new aes tk nonce of
            Some e \<Rightarrow> Inl e
          | None \<Rightarrow>
            (let payload = ccmp_data p;
                 n = length payload - 8;
                 plaintext = ccm_decrypt aes tk nonce aad (take n payload)
             in if verify \<and> \<not> ccm_verify aes tk nonce aad (take n payload) (drop n payload)
                then Inr None else Inr (Some plaintext)))))"

definition llc_header :: bytes where
  "llc_header = [0xAA, 0xAA, 0x03, 0x00, 0x00, 0x00]"

definition wifi_decrypt ::
  "aes_ccm \<Rightarrow> mac_header \<Rightarrow> (bytes \<Rightarrow> exn + ccmp_payload) \<Rightarrow> bytes \<Rightarrow> bytes \<Rightarrow> bool \<Rightarrow> bool \<Rightarrow> exn + bytes option" where
  "wifi_decrypt aes mac_header ccmp_parse data key validate_llc verify =
     (case ccmp_parse data of
        Inl e \<Rightarrow> Inl e
      | Inr p \<Rightarrow>
          (case ccmp_decrypt aes mac_header p key verify of
             Inl e \<Rightarrow> Inl e
           | Inr None \<Rightarrow> Inr None
           | Inr (Some d) \<Rightarrow>
               if validate_llc \<and> take 6 d \<noteq> llc_header then Inr None else Inr (Some d)))"

subsection \<open>Packets\<close>

datatype WiFiSecurity = SEC_UNKNOWN | SEC_OPEN | SEC_WEP | SEC_WPA | SEC_WPA2 | SEC_WPA3 | SEC_WPA3_TRAN

record rsn_info =
  GroupCipherSuite :: Cipher
  PairwiseCipherSuites :: "Cipher list"
  rsn_AKMSuites :: "AKM list"
  RSNCapabilities :: "(bool \<times> bool) option"
  GroupManagmentCipherSuite :: "Cipher option"

text \<open>
  The body of an element: none when its length is zero. \<open>RSNCapabilities\<close> are the flags
  ManagementFrameProtectionRequired and ...Capable. A vendor's body has a type only for Microsoft.
\<close>

datatype element_info =
    NoInfo
  | SsidInfo string
  | RsnInfo rsn_info
  | VendorInfo VendorOui byte
  | OtherInfo bytes

record element =
  element_id :: IEType
  info :: element_info

text \<open>
  A parsed frame: its body is none, raw bytes, or a structure with the fields it has.
\<close>

datatype frame_body =
    NoBody
  | RawBody bytes
  | Body "element list option" "bool option"

record frame =
  frame_type :: FrameType
  protected_frame :: bool
  body :: frame_body

type_synonym elements = "(IEType \<times> element list) list"

definition add_repeating :: "element \<Rightarrow> elements \<Rightarrow> elements" where
  "add_repeating e es =
     (case map_of es (element_id e) of
        None \<Rightarrow> es @ [(element_id e, [e])]
      | Some _ \<Rightarrow> map (\<lambda>(k, xs). if k = element_id e then (k, xs @ [e]) else (k, xs)) es)"

text \<open>Of the elements that do not repeat, the first of each kind is kept.\<close>

definition add_element :: "element \<Rightarrow> elements \<Rightarrow> elements" where
  "add_element e es =
     (if element_id e \<in> set repeating_element_types then add_repeating e es
      else case map_of es (element_id e) of
          None \<Rightarrow> es @ [(element_id e, [e])]
        | Some _ \<Rightarrow> es)"

definition parse_ie_elements :: "frame \<Rightarrow> elements" where
  "parse_ie_elements f =
     (case body f of
        Body (Some es) _ \<Rightarrow> fold add_element es []
      | _ \<Rightarrow> [])"

text \<open>
  The constructor of a packet. An error of construct is logged; a packet that cannot be parsed then
  has no \<open>parsed_data\<close>, and reading the elements raises. \<open>StreamError\<close> is the subclass the
  sockets catch. The frame is also built back, only to log a difference.
\<close>

definition construct_error :: exn where
  "construct_error = LibraryError ''ConstructError''"

definition stream_error :: exn where
  "stream_error = LibraryError ''StreamError''"

definition is_construct_error :: "exn \<Rightarrow> bool" where
  "is_construct_error e \<longleftrightarrow> e = construct_error \<or> e = stream_error"

definition no_parsed_data :: exn where
  "no_parsed_data = AttributeError ''parsed_data''"

record parsers =
  radiotap_parse :: "bytes \<Rightarrow> exn + nat \<times> radiotap_header"
  header_parse :: "bytes \<Rightarrow> exn + frame"
  header_build :: "frame \<Rightarrow> exn + bytes"

definition wifi_packet :: "parsers \<Rightarrow> bytes \<Rightarrow> exn + frame \<times> elements" where
  "wifi_packet P data =
     (case parse_radiotap (radiotap_parse P) data of
        Inl e \<Rightarrow> Inl e
      | Inr (_, packet_data) \<Rightarrow>
          (case header_parse P packet_data of
             Inl e \<Rightarrow> if is_construct_error e then Inl no_parsed_data else Inl e
           | Inr f \<Rightarrow>
               (case header_build P f of
                  Inl e \<Rightarrow> if is_construct_error e then Inr (f, parse_ie_elements f) else Inl e
                | Inr _ \<Rightarrow> Inr (f, parse_ie_elements f))))"

definition is_encrypted :: "frame \<Rightarrow> bool" where
  "is_encrypted f = protected_frame f"

definition packet_ssid :: "elements \<Rightarrow> string option" where
  "packet_ssid es =
     (case map_of es SSID of
        Some (e # _) \<Rightarrow> Some (case info e of SsidInfo s \<Rightarrow> s | _ \<Rightarrow> [])
      | _ \<Rightarrow> None)"

text \<open>\<open>any\<close> over the vendor elements, left at the first that raises or holds.\<close>

fun any_wpa :: "element list \<Rightarrow> exn + bool" where
  "any_wpa [] = Inr False"
| "any_wpa (e # es) =
     (case info e of
        VendorInfo oui ty \<Rightarrow> if oui = MICROSOFT_CORP \<and> ty = 1 then Inr True else any_wpa es
      | _ \<Rightarrow> Inl (AttributeError ''oui''))"

definition wpa3_bad_ciphers :: "Cipher list" where
  "wpa3_bad_ciphers = [IEEE_WEP40, IEEE_TKIP, IEEE_WEP104]"

definition rsn_security :: "rsn_info \<Rightarrow> WiFiSecurity" where
  "rsn_security rsn =
     (let ciphers = GroupCipherSuite rsn # PairwiseCipherSuites rsn @
            (case GroupManagmentCipherSuite rsn of Some c \<Rightarrow> [c] | None \<Rightarrow> [])
      in case RSNCapabilities rsn of
           Some (required, capable) \<Rightarrow>
             if required \<and> capable \<and> (\<exists>akm\<in>set (rsn_AKMSuites rsn). akm \<in> {IEEE_SAE})
                \<and> (\<forall>akm\<in>set (rsn_AKMSuites rsn). akm \<notin> {IEEE_PSK, IEEE_PSK_SHA256})
                \<and> (\<forall>cipher\<in>set ciphers. cipher \<notin> set wpa3_bad_ciphers)
             then SEC_WPA3
             else if \<not> required \<and> capable \<and> (\<exists>akm\<in>set (rsn_AKMSuites rsn). akm \<in> {IEEE_PSK, IEEE_SAE})
             then SEC_WPA3_TRAN
             else SEC_WPA2
         | None \<Rightarrow> SEC_WPA2)"

definition rsn_part :: "elements \<Rightarrow> exn + WiFiSecurity list" where
  "rsn_part es =
     (case map_of es RSN of
        Some (e # _) \<Rightarrow> (case info e of
            RsnInfo rsn \<Rightarrow> Inr [rsn_security rsn]
          | _ \<Rightarrow> Inl (AttributeError ''GroupCipherSuite''))
      | _ \<Rightarrow> Inr [])"

text \<open>Without any element to go by, the privacy flag decides, where the body has one.\<close>

definition privacy_part :: "frame_body \<Rightarrow> exn + WiFiSecurity list" where
  "privacy_part b =
     (case b of
        NoBody \<Rightarrow> Inr [SEC_OPEN]
      | RawBody d \<Rightarrow> if d = [] then Inr [SEC_OPEN] else Inl (AttributeError ''capability_info'')
      | Body _ None \<Rightarrow> Inl (AttributeError ''capability_info'')
      | Body _ (Some privacy) \<Rightarrow> Inr [if privacy then SEC_WEP else SEC_OPEN])"

definition packet_security :: "frame \<Rightarrow> elements \<Rightarrow> exn + WiFiSecurity list" where
  "packet_security f es =
     (case (case map_of es VENDOR_SPECIFIC of Some vs \<Rightarrow> any_wpa vs | None \<Rightarrow> Inr False) of
        Inl e \<Rightarrow> Inl e
      | Inr wpa \<Rightarrow>
          (case rsn_part es of
             Inl e \<Rightarrow> Inl e
           | Inr rsn \<Rightarrow>
               (let security = (if wpa then [SEC_WPA] else []) @ rsn
                in if security = [] then privacy_part (body f) else Inr security)))"

text \<open>The parsed frame has no field \<open>type\<close> of its own: the call always raises.\<close>

definition get_payload :: "frame \<Rightarrow> exn + bytes option" where
  "get_payload f = Inl (AttributeError ''type'')"

subsection \<open>Channels and frequencies\<close>

text \<open>2484 MHz, the frequency of channel 14 in the standard, is read as channel 15.\<close>

lemma channels_roundtrip:
  "1 \<le> c \<Longrightarrow> c \<le> 14 \<Longrightarrow> \<exists>f. convert_channel_to_freq c = Inr f \<and> convert_freq_to_channel f = Inr c"
  "convert_freq_to_channel 2484 = Inr 15"
  by (auto simp: convert_channel_to_freq_def convert_freq_to_channel_def)

text \<open>
  What \<open>parse_radiotap\<close> asks of the header's parser: the header it measures lies within the capture, and
  the dictionary has no channel of its own. Then every result is a cut of the capture, and a channel
  it names comes from the frequency.
\<close>

locale header_parser =
  fixes header_of :: "bytes \<Rightarrow> exn + nat \<times> radiotap_header"
  assumes header_within: "header_of data = Inr (n, h) \<Longrightarrow> n \<le> length data"
    and header_unnumbered: "header_of data = Inr (n, h) \<Longrightarrow> rt_channel h = None"
begin

lemma capture_cut:
  assumes "parse_radiotap header_of data = Inr (h, frame)"
  obtains n where "n \<le> length data" and "frame = drop n data"
proof -
  obtain n h' where header: "header_of data = Inr (n, h')"
    using assms by (auto simp: parse_radiotap_def split: sum.splits)
  moreover from this have "frame = drop n data"
    using assms by (auto simp: parse_radiotap_def split: sum.splits option.splits)
  ultimately show thesis
    using header_within that by blast
qed

lemma channel_measured:
  assumes "parse_radiotap header_of data = Inr (h, frame)"
  shows "rt_channel h =
    (if chan_flags h = None then None
     else map_option (\<lambda>freq. (freq - 2407) div 5) (chan_freq h))"
  using assms header_unnumbered
  by (auto simp: parse_radiotap_def convert_freq_to_channel_def split: sum.splits option.splits if_splits)

lemma channel_range:
  assumes "parse_radiotap header_of data = Inr (h, frame)" and "rt_channel h = Some c"
  shows "0 \<le> c \<and> c \<le> 15"
  using assms header_unnumbered
  by (auto simp: parse_radiotap_def convert_freq_to_channel_def split: sum.splits option.splits if_splits)

end

subsection \<open>CCMP takes its inputs from the frame\<close>

lemma hex_byte_no_colon: "filter (\<lambda>c. c \<noteq> CHR '':'') (hex_byte b) = hex_byte b"
  using hex_byte_clean [of b] by (intro filter_True) auto

lemma filter_join_hex:
  "filter (\<lambda>c. c \<noteq> CHR '':'') (join_with (CHR '':'') (map hex_byte bs)) = concat (map hex_byte bs)"
  by (induction bs rule: induct_list012) (auto simp: hex_byte_no_colon)

lemma a2b_hex_hex: "a2b_hex (concat (map hex_byte bs)) = Inr bs"
  by (induction bs) (auto simp: hex_byte_def)

lemma addr2bin_mac [simp]: "addr2bin (mac_decode bs) = Inr bs"
  by (simp add: addr2bin_def mac_decode_def filter_join_hex a2b_hex_hex)

lemma push_or_byte: "push_bit 8 v OR uint (b :: byte) = v * 256 + uint b"
proof -
  have "push_bit 8 v AND uint b = 0"
    by (rule bit_eqI) (auto simp: bit_simps dest: bit_imp_le_length)
  then have "push_bit 8 v OR uint b = push_bit 8 v + uint b"
    using plus_and_or [of "push_bit 8 v" "uint b"] by simp
  then show ?thesis
    by (simp add: push_bit_eq_mult)
qed

lemma get_pn_bytes: "get_pn p = from_bytes_be [PN5 p, PN4 p, PN3 p, PN2 p, PN1 p, PN0 p]"
  by (simp add: get_pn_def push_or_byte from_bytes_be_def)

lemma pn2bin_get_pn [simp]: "pn2bin (get_pn p) = Inr [PN5 p, PN4 p, PN3 p, PN2 p, PN1 p, PN0 p]"
proof -
  have "to_bytes_be 8 (from_bytes_be [0, 0, PN5 p, PN4 p, PN3 p, PN2 p, PN1 p, PN0 p]) =
      Inr [0, 0, PN5 p, PN4 p, PN3 p, PN2 p, PN1 p, PN0 p]"
    by (simp only: to_bytes_be_Inr_iff) simp
  moreover have "from_bytes_be [0, 0, PN5 p, PN4 p, PN3 p, PN2 p, PN1 p, PN0 p] = get_pn p"
    by (simp add: get_pn_bytes from_bytes_be_def)
  ultimately show ?thesis
    by (simp add: pn2bin_def)
qed

lemma get_pn_inject: "get_pn p = get_pn q \<longleftrightarrow>
   [PN5 p, PN4 p, PN3 p, PN2 p, PN1 p, PN0 p] = [PN5 q, PN4 q, PN3 q, PN2 q, PN1 q, PN0 q]"
  (is "_ \<longleftrightarrow> ?P = ?Q")
proof
  assume "get_pn p = get_pn q"
  then have "pn2bin (get_pn p) = pn2bin (get_pn q)"
    by (rule arg_cong)
  then show "?P = ?Q"
    by (simp only: pn2bin_get_pn sum.inject)
qed (simp only: get_pn_bytes)

lemma pack_le16_byte: "n < 256 \<Longrightarrow> pack_le16 n = [word_of_nat n, 0]"
  by (simp add: pack_le16_def)

lemma create_nonce_bytes:
  assumes "qos_tid h = Some t" and "t < 256" and "address2 h = mac_decode a2"
  shows "create_nonce h (get_pn p) = Inr (word_of_nat t # a2 @ [PN5 p, PN4 p, PN3 p, PN2 p, PN1 p, PN0 p])"
  using assms by (simp add: create_nonce_def)

lemma create_aad_bytes:
  assumes "qos_tid h = Some t" and "t < 256" and "header_raw h = f0 # f1 # rest"
    and "address1 h = mac_decode a1" and "address2 h = mac_decode a2" and "address3 h = mac_decode a3"
  shows "create_aad h = Inr ([f0 AND 0x8F, f1 AND 0xC7] @ a1 @ a2 @ a3 @
           [word_of_nat (fragment_number h AND 15), 0, word_of_nat t, 0])"
proof -
  have "fragment_number h AND 15 < 256"
    using take_bit_nat_less_exp [of 4 "fragment_number h"] by (simp add: take_bit_eq_mask mask_eq_exp_minus_1)
  then show ?thesis
    using assms by (simp add: create_aad_def pack_le16_byte)
qed

lemma ccmp_decrypt_eq:
  assumes "create_nonce h (get_pn p) = Inr nonce" and "create_aad h = Inr aad"
    and "ccm_new aes tk nonce = None" and "ccmp_data p = data @ mic" and "length mic = 8"
  shows "ccmp_decrypt aes h p tk verify =
     Inr (if verify \<and> \<not> ccm_verify aes tk nonce aad data mic then None
          else Some (ccm_decrypt aes tk nonce aad data))"
  using assms by (simp add: ccmp_decrypt_def)



subsection \<open>The security of a network\<close>

lemma map_of_update_key:
  "map_of (map (\<lambda>(k, xs). if k = j then (k, g xs) else (k, xs)) es) k =
     (if k = j then map_option g (map_of es k) else map_of es k)"
  by (induction es) auto

lemma map_of_add_element:
  "map_of (add_element e es) k =
     (if k = element_id e then Some (case map_of es k of
          None \<Rightarrow> [e]
        | Some xs \<Rightarrow> if k \<in> set repeating_element_types then xs @ [e] else xs)
      else map_of es k)"
  by (auto simp: add_element_def add_repeating_def map_of_update_key map_add_def split: option.splits)

text \<open>What the dictionary of elements holds: all of a kind that repeats, else the first of the kind.\<close>

definition elements_of :: "IEType \<Rightarrow> element list \<Rightarrow> element list option" where
  "elements_of k es =
     (let xs = filter (\<lambda>e. element_id e = k) es
      in if xs = [] then None else Some (if k \<in> set repeating_element_types then xs else [hd xs]))"

lemma elements_of_snoc:
  "elements_of k (es @ [e]) =
     (if k = element_id e then Some (case elements_of k es of
          None \<Rightarrow> [e]
        | Some xs \<Rightarrow> if k \<in> set repeating_element_types then xs @ [e] else xs)
      else elements_of k es)"
  by (auto simp: elements_of_def Let_def)

lemma map_of_elements: "map_of (fold add_element es []) k = elements_of k es"
proof (induction es rule: rev_induct)
  case (snoc x xs)
  then show ?case
    by (cases "k = element_id x") (auto simp: map_of_add_element elements_of_snoc)
qed (simp add: elements_of_def)

lemma any_wpa_run:
  "\<forall>e\<in>set es. \<exists>oui ty. info e = VendorInfo oui ty \<Longrightarrow>
     any_wpa es = Inr (\<exists>e\<in>set es. info e = VendorInfo MICROSOFT_CORP 1)"
  by (induction es) auto

lemma elements_of_vendor:
  "elements_of VENDOR_SPECIFIC es =
     (let xs = filter (\<lambda>e. element_id e = VENDOR_SPECIFIC) es in if xs = [] then None else Some xs)"
  by (simp add: elements_of_def repeating_element_types_def Let_def)

lemma elements_of_rsn:
  "elements_of RSN es = map_option (\<lambda>e. [e]) (find (\<lambda>e. element_id e = RSN) es)"
  by (induction es) (auto simp: elements_of_def repeating_element_types_def Let_def)

lemma rsn_security_Some:
  "RSNCapabilities rsn = Some (required, capable) \<Longrightarrow> rsn_security rsn =
     (if required \<and> capable \<and> IEEE_SAE \<in> set (rsn_AKMSuites rsn)
         \<and> set (rsn_AKMSuites rsn) \<inter> {IEEE_PSK, IEEE_PSK_SHA256} = {}
         \<and> insert (GroupCipherSuite rsn) (set (PairwiseCipherSuites rsn) \<union> set_option (GroupManagmentCipherSuite rsn))
             \<inter> set wpa3_bad_ciphers = {}
      then SEC_WPA3
      else if \<not> required \<and> capable \<and> set (rsn_AKMSuites rsn) \<inter> {IEEE_PSK, IEEE_SAE} \<noteq> {} then SEC_WPA3_TRAN
      else SEC_WPA2)"
proof -
  have ciphers: "(\<forall>c\<in>set (GroupCipherSuite rsn # PairwiseCipherSuites rsn @
      (case GroupManagmentCipherSuite rsn of Some c \<Rightarrow> [c] | None \<Rightarrow> [])). c \<notin> set wpa3_bad_ciphers) \<longleftrightarrow>
    insert (GroupCipherSuite rsn) (set (PairwiseCipherSuites rsn) \<union> set_option (GroupManagmentCipherSuite rsn))
       \<inter> set wpa3_bad_ciphers = {}"
    by (cases "GroupManagmentCipherSuite rsn") auto
  have any: "(\<exists>a\<in>A. a \<in> B) \<longleftrightarrow> A \<inter> B \<noteq> {}" and all: "(\<forall>a\<in>A. a \<notin> B) \<longleftrightarrow> A \<inter> B = {}" for A B :: "AKM set"
    by blast+
  show "RSNCapabilities rsn = Some (required, capable) \<Longrightarrow> ?thesis"
    unfolding rsn_security_def Let_def ciphers any all by simp
qed

lemma pick_security:
  "((if a then SEC_WPA3 else if b then SEC_WPA3_TRAN else SEC_WPA2) = SEC_WPA3) = a"
  "((if a then SEC_WPA3 else if b then SEC_WPA3_TRAN else SEC_WPA2) = SEC_WPA3_TRAN) = (\<not> a \<and> b)"
  by auto

lemma rsn_security_range: "rsn_security r \<in> {SEC_WPA2, SEC_WPA3, SEC_WPA3_TRAN}"
  by (simp add: rsn_security_def split: option.split)

lemma rsn_security_WPA3:
  "rsn_security r = SEC_WPA3 \<longleftrightarrow> RSNCapabilities r = Some (True, True) \<and>
        IEEE_SAE \<in> set (rsn_AKMSuites r) \<and> set (rsn_AKMSuites r) \<inter> {IEEE_PSK, IEEE_PSK_SHA256} = {} \<and>
        insert (GroupCipherSuite r) (set (PairwiseCipherSuites r) \<union> set_option (GroupManagmentCipherSuite r))
          \<inter> {IEEE_WEP40, IEEE_TKIP, IEEE_WEP104} = {}"
proof (cases "RSNCapabilities r")
  case (Some c)
  obtain req cap where c: "c = (req, cap)" by fastforce
  have bad: "set wpa3_bad_ciphers = {IEEE_WEP40, IEEE_TKIP, IEEE_WEP104}"
    by (simp add: wpa3_bad_ciphers_def)
  show ?thesis
    unfolding rsn_security_Some [OF Some [unfolded c]] pick_security bad Some c option.inject prod.inject
    by satx
qed (simp add: rsn_security_def)

lemma rsn_security_WPA3_TRAN:
  "rsn_security r = SEC_WPA3_TRAN \<longleftrightarrow> RSNCapabilities r = Some (False, True) \<and>
     set (rsn_AKMSuites r) \<inter> {IEEE_PSK, IEEE_SAE} \<noteq> {}"
proof (cases "RSNCapabilities r")
  case (Some c)
  obtain req cap where c: "c = (req, cap)" by fastforce
  show ?thesis
    unfolding rsn_security_Some [OF Some [unfolded c]] pick_security Some c option.inject prod.inject
    by satx
qed (simp add: rsn_security_def)

text \<open>An element whose body is what its kind says.\<close>

definition plain_element :: "element \<Rightarrow> bool" where
  "plain_element e \<longleftrightarrow>
     (case element_id e of
        VENDOR_SPECIFIC \<Rightarrow> (case info e of VendorInfo _ _ \<Rightarrow> True | _ \<Rightarrow> False)
      | RSN \<Rightarrow> (case info e of RsnInfo _ \<Rightarrow> True | _ \<Rightarrow> False)
      | _ \<Rightarrow> True)"

definition has_wpa :: "element list \<Rightarrow> bool" where
  "has_wpa es \<longleftrightarrow> (\<exists>e\<in>set es. element_id e = VENDOR_SPECIFIC \<and> info e = VendorInfo MICROSOFT_CORP 1)"

definition first_rsn :: "element list \<Rightarrow> rsn_info option" where
  "first_rsn es = (case find (\<lambda>e. element_id e = RSN) es of
       Some e \<Rightarrow> (case info e of RsnInfo r \<Rightarrow> Some r | _ \<Rightarrow> None)
     | None \<Rightarrow> None)"

lemma plain_vendor: "plain_element e \<Longrightarrow> element_id e = VENDOR_SPECIFIC \<Longrightarrow> \<exists>oui ty. info e = VendorInfo oui ty"
  by (auto simp: plain_element_def split: element_info.splits)

lemma plain_rsn: "plain_element e \<Longrightarrow> element_id e = RSN \<Longrightarrow> \<exists>r. info e = RsnInfo r"
  by (auto simp: plain_element_def split: element_info.splits)

lemma wpa_found:
  assumes "\<forall>e\<in>set es. plain_element e"
  shows "(case elements_of VENDOR_SPECIFIC es of Some vs \<Rightarrow> any_wpa vs | None \<Rightarrow> Inr False) = Inr (has_wpa es)"
proof -
  have "any_wpa (filter (\<lambda>e. element_id e = VENDOR_SPECIFIC) es) = Inr (has_wpa es)"
    using assms plain_vendor by (subst any_wpa_run) (auto simp: has_wpa_def)
  then show ?thesis
    by (cases "filter (\<lambda>e. element_id e = VENDOR_SPECIFIC) es = []") (auto simp: elements_of_vendor)
qed

lemma rsn_found:
  assumes "\<forall>e\<in>set es. plain_element e"
  shows "rsn_part (fold add_element es []) = Inr (map rsn_security (case first_rsn es of Some r \<Rightarrow> [r] | None \<Rightarrow> []))"
proof (cases "find (\<lambda>e. element_id e = RSN) es")
  case None
  then show ?thesis
    by (simp add: rsn_part_def map_of_elements elements_of_rsn first_rsn_def)
next
  case (Some e)
  then have "e \<in> set es" and "element_id e = RSN"
    by (auto simp: find_Some_iff)
  then obtain r where "info e = RsnInfo r"
    using assms plain_rsn by blast
  with Some show ?thesis
    by (simp add: rsn_part_def map_of_elements elements_of_rsn first_rsn_def)
qed

text \<open>
  C25. How a network is classified from the information elements of its beacon: a Microsoft WPA element
  anywhere gives WPA, the first RSN element gives one of WPA2, WPA3 and WPA3 transition, and only when
  there is neither does the privacy flag decide between WEP and open. WPA3 is exactly what the comment
  in the code lists; WPA3 transition, which the comment lists as needing both PSK and SAE, is given to
  any network with optional management frame protection and one of the two, also when it has no SAE.
\<close>

theorem wifi_security_classified:
  assumes "body f = Body (Some es) cap" and "\<forall>e\<in>set es. plain_element e"
  shows "(packet_security f (parse_ie_elements f) =
        (if \<not> has_wpa es \<and> first_rsn es = None then privacy_part (body f)
         else Inr ((if has_wpa es then [SEC_WPA] else []) @
                   map rsn_security (case first_rsn es of Some r \<Rightarrow> [r] | None \<Rightarrow> [])))) \<and>
     (\<forall>r. rsn_security r \<in> {SEC_WPA2, SEC_WPA3, SEC_WPA3_TRAN}) \<and>
     (\<forall>r. rsn_security r = SEC_WPA3 \<longleftrightarrow> RSNCapabilities r = Some (True, True) \<and>
        IEEE_SAE \<in> set (rsn_AKMSuites r) \<and> set (rsn_AKMSuites r) \<inter> {IEEE_PSK, IEEE_PSK_SHA256} = {} \<and>
        insert (GroupCipherSuite r) (set (PairwiseCipherSuites r) \<union> set_option (GroupManagmentCipherSuite r))
          \<inter> {IEEE_WEP40, IEEE_TKIP, IEEE_WEP104} = {}) \<and>
     (\<forall>r. rsn_security r = SEC_WPA3_TRAN \<longleftrightarrow> RSNCapabilities r = Some (False, True) \<and>
        set (rsn_AKMSuites r) \<inter> {IEEE_PSK, IEEE_SAE} \<noteq> {})"
proof -
  have parsed: "parse_ie_elements f = fold add_element es []"
    using assms(1) by (simp add: parse_ie_elements_def)
  have "packet_security f (parse_ie_elements f) =
        (if \<not> has_wpa es \<and> first_rsn es = None then privacy_part (body f)
         else Inr ((if has_wpa es then [SEC_WPA] else []) @
                   map rsn_security (case first_rsn es of Some r \<Rightarrow> [r] | None \<Rightarrow> [])))"
    unfolding packet_security_def parsed
    by (simp add: map_of_elements wpa_found [OF assms(2)] rsn_found [OF assms(2)] Let_def split: option.split)
  then show ?thesis
    by (simp only: rsn_security_range rsn_security_WPA3 rsn_security_WPA3_TRAN simp_thms)
qed

theorem wifi_security_classified_witness:
  "\<exists>f r. body f = Body (Some [\<lparr>element_id = RSN, info = RsnInfo r\<rparr>]) None \<and> IEEE_SAE \<notin> set (rsn_AKMSuites r) \<and>
     packet_security f (parse_ie_elements f) = Inr [SEC_WPA3_TRAN]"
proof -
  define r where "r = \<lparr>GroupCipherSuite = IEEE_TKIP, PairwiseCipherSuites = [], rsn_AKMSuites = [IEEE_PSK],
      RSNCapabilities = Some (False, True), GroupManagmentCipherSuite = None\<rparr>"
  define f where "f = \<lparr>frame_type = MANAGEMENT, protected_frame = False,
      body = Body (Some [\<lparr>element_id = RSN, info = RsnInfo r\<rparr>]) None\<rparr>"
  have "rsn_security r = SEC_WPA3_TRAN" and "packet_security f (parse_ie_elements f) = Inr [rsn_security r]"
    using wifi_security_classified [of f "[\<lparr>element_id = RSN, info = RsnInfo r\<rparr>]" None]
    by (simp_all add: f_def r_def plain_element_def has_wpa_def first_rsn_def)
  then show ?thesis
    by (intro exI [of _ f] exI [of _ r]) (simp add: f_def r_def)
qed

end
