(* ===== verification/Wlan_Sockets.thy ===== *)
theory Wlan_Sockets
  imports Wlan "HOL-Library.Sublist"
begin

section \<open>WLAN sockets\<close>

text \<open>
  Models the sockets of \<open>communication/wlan/wlan_communicator.py\<close>. The calls of the operating system
  that configure the interface, in order, are the journal \<open>calls\<close>; \<open>replies\<close> is the script of their
  results, \<open>None\<close> for one that fails (with 0 for all that follow its end). What arrives at the socket
  is the script \<open>arrivals\<close>: frames with the interface they came by, and \<open>None\<close> where nothing arrives
  for ten milliseconds; past its end nothing arrives any more.
\<close>

type_synonym flags = "16 word"

definition IFF_UP :: flags where "IFF_UP = 0x1"
definition IFF_BROADCAST :: flags where "IFF_BROADCAST = 0x2"
definition IFF_PROMISC :: flags where "IFF_PROMISC = 0x100"
definition IFF_ALLMULTI :: flags where "IFF_ALLMULTI = 0x200"
definition IW_MODE_MONITOR :: flags where "IW_MODE_MONITOR = 6"

datatype syscall =
    GetFlags
  | SetFlags flags
  | GetMode
  | SetMode flags
  | DevState bool
  | SetChannel int
  | Bind string
  | CloseSocket

record wlan_world =
  if_name :: string
  has_socket :: bool
  original_flags :: "flags option"
  original_mode :: "flags option"
  socket_error :: "exn option"
  bind_error :: "exn option"
  replies :: "flags option list"
  arrivals :: "(bytes \<times> string) option list"
  calls :: "syscall list"

definition syscall :: "syscall \<Rightarrow> (wlan_world, flags option) py" where
  "syscall c = (\<lambda>w. case replies w of
       [] \<Rightarrow> (Val (Some 0), w\<lparr>calls := calls w @ [c]\<rparr>)
     | r # rs \<Rightarrow> (Val r, w\<lparr>replies := rs, calls := calls w @ [c]\<rparr>))"

subsection \<open>The interface\<close>

text \<open>\<open>fcntl.ioctl\<close> of \<open>None\<close> is a \<open>TypeError\<close>, and \<open>None\<close> has no \<open>fileno\<close>.\<close>

definition get_if_flags :: "(wlan_world, flags option) py" where
  "get_if_flags = py_bind (py_get has_socket) (\<lambda>s.
     if s then syscall GetFlags else py_raise (TypeError ''argument must be an int, or have a fileno() method''))"

definition set_if_flags :: "flags \<Rightarrow> (wlan_world, bool) py" where
  "set_if_flags f = py_bind (py_get has_socket) (\<lambda>s.
     if s then py_bind (syscall (SetFlags f)) (\<lambda>r. py_ret (r \<noteq> None))
     else py_raise (TypeError ''argument must be an int, or have a fileno() method''))"

definition update_if_flags :: "flags \<Rightarrow> flags \<Rightarrow> flags \<Rightarrow> (wlan_world, bool) py" where
  "update_if_flags original set_flags clear_flags =
     (let new_flags = original OR set_flags;
          new_flags = original AND NOT clear_flags
      in set_if_flags new_flags)"

definition set_mode :: "flags \<Rightarrow> (wlan_world, bool) py" where
  "set_mode m = py_bind (py_get has_socket) (\<lambda>s.
     if s then py_bind (syscall (SetMode m)) (\<lambda>r. py_ret (r \<noteq> None))
     else py_raise (AttributeError ''fileno''))"

definition get_mode :: "(wlan_world, flags option) py" where
  "get_mode = py_bind (py_get has_socket) (\<lambda>s.
     if s then syscall GetMode else py_raise (AttributeError ''fileno''))"

definition set_dev_state :: "bool \<Rightarrow> (wlan_world, bool) py" where
  "set_dev_state up = py_bind (syscall (DevState up)) (\<lambda>r. py_ret (r \<noteq> None))"

definition verify_interface :: "flags \<Rightarrow> (wlan_world, bool) py" where
  "verify_interface verify_flags =
     py_bind get_if_flags (\<lambda>f.
       case f of
         None \<Rightarrow> py_raise (TypeError ''unsupported operand'')
       | Some fl \<Rightarrow>
           if fl AND verify_flags = 0 then py_ret False
           else py_bind get_mode (\<lambda>m. py_ret (m = Some IW_MODE_MONITOR)))"

definition switch_channel :: "int \<Rightarrow> (wlan_world, bool) py" where
  "switch_channel channel = py_bind (syscall (SetChannel channel)) (\<lambda>r. py_ret (r \<noteq> None))"

subsection \<open>Opening and closing\<close>

definition create_socket :: "(wlan_world, unit) py" where
  "create_socket = (\<lambda>w. case socket_error w of
       Some e \<Rightarrow> (Exn e, w)
     | None \<Rightarrow> (Val (), w\<lparr>has_socket := True\<rparr>))"

definition bind_socket :: "(wlan_world, unit) py" where
  "bind_socket = (\<lambda>w. case bind_error w of
       Some e \<Rightarrow> (Exn e, w)
     | None \<Rightarrow> (Val (), w\<lparr>calls := calls w @ [Bind (if_name w)]\<rparr>))"

text \<open>The buffered frames are dropped up to the first time nothing is there.\<close>

fun drop_buffered :: "(bytes \<times> string) option list \<Rightarrow> (bytes \<times> string) option list" where
  "drop_buffered [] = []"
| "drop_buffered (None # as) = as"
| "drop_buffered (Some _ # as) = drop_buffered as"

definition flush_recv_bufffer :: "(wlan_world, unit) py" where
  "flush_recv_bufffer = py_modify (\<lambda>w. w\<lparr>arrivals := drop_buffered (arrivals w)\<rparr>)"

text \<open>\<open>WiFiRawSocket.open\<close> has no return statement.\<close>

definition wlan_open :: "(wlan_world, bool option) py" where
  "wlan_open =
     py_seq create_socket (py_seq bind_socket (py_seq flush_recv_bufffer (py_ret None)))"

definition close_socket :: "(wlan_world, unit) py" where
  "close_socket = (\<lambda>w.
     if has_socket w then (Val (), w\<lparr>has_socket := False, calls := calls w @ [CloseSocket]\<rparr>)
     else (Exn (AttributeError ''close''), w))"

definition wlan_close :: "(wlan_world, bool) py" where
  "wlan_close = py_seq close_socket (py_ret True)"

definition wlan_is_open :: "(wlan_world, bool) py" where
  "wlan_is_open = py_get has_socket"

text \<open>\<open>if not m: return False\<close>, as the monitor socket checks each step.\<close>

definition py_require :: "(wlan_world, bool) py \<Rightarrow> (wlan_world, bool) py \<Rightarrow> (wlan_world, bool) py" where
  "py_require m rest = py_bind m (\<lambda>ok. if ok then rest else py_ret False)"

definition monitor_open :: "(wlan_world, bool) py" where
  "monitor_open =
     py_seq create_socket
     (py_bind get_if_flags (\<lambda>f.
        case f of
          None \<Rightarrow> py_ret False
        | Some fl \<Rightarrow>
            py_seq (py_modify (\<lambda>w. w\<lparr>original_flags := Some fl\<rparr>))
            (py_require (set_dev_state False)
            (py_bind get_mode (\<lambda>m.
               py_seq (py_modify (\<lambda>w. w\<lparr>original_mode := m\<rparr>))
               (if m = None then py_ret False
                else
                  py_require (set_mode IW_MODE_MONITOR)
                  (py_require (update_if_flags fl (IFF_BROADCAST OR IFF_PROMISC OR IFF_ALLMULTI) 0)
                  (py_require (set_dev_state True)
                  (py_require (verify_interface (IFF_UP OR IFF_BROADCAST OR IFF_PROMISC OR IFF_ALLMULTI))
                  (py_seq bind_socket
                  (py_seq flush_recv_bufffer (py_ret True))))))))))))"

definition py_ignore :: "(wlan_world, bool) py \<Rightarrow> (wlan_world, unit) py" where
  "py_ignore m = py_bind m (\<lambda>_. py_ret ())"

definition restore_interface :: "flags option \<Rightarrow> flags option \<Rightarrow> (wlan_world, unit) py" where
  "restore_interface orig_mode orig_flags =
     py_seq (py_ignore (set_dev_state False))
     (py_seq (case orig_mode of Some m \<Rightarrow> py_ignore (set_mode m) | None \<Rightarrow> py_ret ())
     (case orig_flags of
        Some f \<Rightarrow>
          py_seq (py_ignore (set_if_flags f))
                 (if f AND IFF_UP \<noteq> 0 then py_ignore (set_dev_state True) else py_ret ())
      | None \<Rightarrow> py_ret ()))"

definition monitor_close :: "(wlan_world, bool) py" where
  "monitor_close = (\<lambda>w.
     if has_socket w
     then py_seq (if original_flags w \<noteq> None \<or> original_mode w \<noteq> None
                  then restore_interface (original_mode w) (original_flags w) else py_ret ())
            (py_seq close_socket (py_ret True)) w
     else (Val True, w))"

subsection \<open>Sending and receiving\<close>

datatype wlan_arg = WNone | WOne bytes | WMany "bytes list"

text \<open>\<open>send_packet\<close> sends the attribute \<open>data\<close> of the class \<open>WiFiPacket\<close>, which has none.\<close>

definition wlan_send_packet :: "bytes \<Rightarrow> (wlan_world, bool) py" where
  "wlan_send_packet p = py_bind (py_get has_socket) (\<lambda>s.
     if s then py_raise (AttributeError ''data'') else py_ret False)"

fun wlan_send_packets :: "bytes list \<Rightarrow> (wlan_world, bool) py" where
  "wlan_send_packets [] = py_ret True"
| "wlan_send_packets (p # ps) =
     py_bind (wlan_send_packet p) (\<lambda>ok. if ok then wlan_send_packets ps else py_ret False)"

definition wlan_send :: "wlan_arg \<Rightarrow> (wlan_world, bool) py" where
  "wlan_send a = py_bind wlan_is_open (\<lambda>s.
     if s
     then (case a of
             WMany ps \<Rightarrow> wlan_send_packets ps
           | WOne p \<Rightarrow> wlan_send_packet p
           | WNone \<Rightarrow> wlan_send_packet [])
     else py_ret False)"

definition has_wlan_packets :: "wlan_arg \<Rightarrow> bool" where
  "has_wlan_packets a = (case a of WNone \<Rightarrow> False | WOne _ \<Rightarrow> True | WMany ps \<Rightarrow> ps \<noteq> [])"

text \<open>
  The coroutine \<open>find_packet\<close>: \<open>recvfrom\<close> takes no keyword arguments, so its first round raises.
  The coroutine runs after the packets are sent.
\<close>

definition wlan_find_packet :: "rat \<Rightarrow> (wlan_world, bytes list) py" where
  "wlan_find_packet timeout =
     (if 0 < timeout then py_raise (TypeError ''recvfrom() takes no keyword arguments'') else py_ret [])"

definition closed_wlan :: exn where
  "closed_wlan = LibraryError ''Attempt transmitting over a closed wlan interface.''"

definition wlan_send_receive :: "wlan_arg \<Rightarrow> rat \<Rightarrow> nat \<Rightarrow> (wlan_world, bytes list) py" where
  "wlan_send_receive a timeout max_answers = py_bind (py_get has_socket) (\<lambda>s.
     if s
     then py_seq (if has_wlan_packets a then py_ignore (wlan_send a) else py_ret ())
                 (wlan_find_packet timeout)
     else py_raise closed_wlan)"

definition wlan_send_receive_packet :: "wlan_arg \<Rightarrow> rat \<Rightarrow> (wlan_world, bytes option) py" where
  "wlan_send_receive_packet a timeout =
     py_bind (wlan_send_receive a timeout 1) (\<lambda>found.
       py_ret (case found of [] \<Rightarrow> None | p # _ \<Rightarrow> Some p))"

definition wlan_send_receive_packets :: "wlan_arg \<Rightarrow> rat \<Rightarrow> (wlan_world, bytes list) py" where
  "wlan_send_receive_packets a timeout = wlan_send_receive a timeout 0"

definition wlan_receive_answer :: "rat \<Rightarrow> (wlan_world, bytes option) py" where
  "wlan_receive_answer timeout = wlan_send_receive_packet WNone timeout"

definition wlan_receive_answers :: "rat \<Rightarrow> (wlan_world, bytes list) py" where
  "wlan_receive_answers timeout = wlan_send_receive_packets WNone timeout"

text \<open>
  \<open>receive\<close> waits without a bound for a frame of its own interface; the timeout is not used. When
  the packet raises a \<open>StreamError\<close>, the header is read again for the log.
\<close>

definition receive_frame :: "parsers \<Rightarrow> bytes \<Rightarrow> exn + (frame \<times> elements) option" where
  "receive_frame P data =
     (case wifi_packet P data of
        Inr p \<Rightarrow> Inr (Some p)
      | Inl e \<Rightarrow>
          if e = stream_error
          then (case parse_radiotap (radiotap_parse P) data of
                  Inl e' \<Rightarrow> if e' = stream_error then Inr None else Inl e'
                | Inr _ \<Rightarrow> Inr None)
          else Inl e)"

fun wlan_receive_loop ::
  "parsers \<Rightarrow> string \<Rightarrow> (bytes \<times> string) option list \<Rightarrow>
     (frame \<times> elements) option res \<times> (bytes \<times> string) option list" where
  "wlan_receive_loop P name [] = (Diverge, [])"
| "wlan_receive_loop P name (None # as) = wlan_receive_loop P name as"
| "wlan_receive_loop P name (Some (data, from) # as) =
     (if from \<noteq> name then wlan_receive_loop P name as
      else (case receive_frame P data of Inl e \<Rightarrow> Exn e | Inr r \<Rightarrow> Val r, as))"

definition wlan_receive :: "parsers \<Rightarrow> rat \<Rightarrow> (wlan_world, (frame \<times> elements) option) py" where
  "wlan_receive P timeout = (\<lambda>w.
     if has_socket w
     then (case wlan_receive_loop P (if_name w) (arrivals w) of (r, as) \<Rightarrow> (r, w\<lparr>arrivals := as\<rparr>))
     else (Exn closed_wlan, w))"

subsection \<open>Running the calls\<close>

definition next_reply :: "wlan_world \<Rightarrow> flags option" where
  "next_reply w = (case replies w of [] \<Rightarrow> Some 0 | r # _ \<Rightarrow> r)"

definition called :: "syscall \<Rightarrow> wlan_world \<Rightarrow> wlan_world" where
  "called c w = w\<lparr>replies := tl (replies w), calls := calls w @ [c]\<rparr>"

lemma syscall_run [simp]: "syscall c w = (Val (next_reply w), called c w)"
  by (cases "replies w") (simp_all add: syscall_def next_reply_def called_def)

lemma called_fields [simp]:
  "calls (called c w) = calls w @ [c]" "has_socket (called c w) = has_socket w"
  "original_flags (called c w) = original_flags w" "original_mode (called c w) = original_mode w"
  "arrivals (called c w) = arrivals w" "if_name (called c w) = if_name w"
  "bind_error (called c w) = bind_error w" "replies (called c w) = tl (replies w)"
  by (simp_all add: called_def)

lemma run_interface [simp]:
  "has_socket w \<Longrightarrow> get_if_flags w = (Val (next_reply w), called GetFlags w)"
  "has_socket w \<Longrightarrow> set_if_flags f w = (Val (next_reply w \<noteq> None), called (SetFlags f) w)"
  "has_socket w \<Longrightarrow> get_mode w = (Val (next_reply w), called GetMode w)"
  "has_socket w \<Longrightarrow> set_mode m w = (Val (next_reply w \<noteq> None), called (SetMode m) w)"
  "set_dev_state up w = (Val (next_reply w \<noteq> None), called (DevState up) w)"
  by (simp_all add: get_if_flags_def set_if_flags_def get_mode_def set_mode_def set_dev_state_def py_defs)

text \<open>The flags to set are computed and then overwritten.\<close>

lemma update_if_flags_ignores_set: "update_if_flags original set_flags 0 = set_if_flags original"
  by (simp add: update_if_flags_def)

lemma run_ignore: "m w = (Val b, w') \<Longrightarrow> py_ignore m w = (Val (), w')"
  by (simp add: py_ignore_def py_defs)

text \<open>The calls that undo what opening has done.\<close>

definition undo_calls :: "flags option \<Rightarrow> flags option \<Rightarrow> syscall list" where
  "undo_calls orig_mode orig_flags =
     (if orig_flags = None \<and> orig_mode = None then []
      else DevState False # (case orig_mode of Some m \<Rightarrow> [SetMode m] | None \<Rightarrow> []) @
           (case orig_flags of
              Some f \<Rightarrow> SetFlags f # (if f AND IFF_UP \<noteq> 0 then [DevState True] else [])
            | None \<Rightarrow> []))"

lemma monitor_close_run:
  assumes "has_socket w"
  obtains w' where "monitor_close w = (Val True, w')" "\<not> has_socket w'"
    "calls w' = calls w @ undo_calls (original_mode w) (original_flags w) @ [CloseSocket]"
proof -
  have "\<exists>w'. monitor_close w = (Val True, w') \<and> \<not> has_socket w' \<and>
    calls w' = calls w @ undo_calls (original_mode w) (original_flags w) @ [CloseSocket]"
    using assms
    by (cases "original_mode w"; cases "original_flags w")
      (auto simp: monitor_close_def restore_interface_def undo_calls_def close_socket_def py_ignore_def py_seq_def py_bind_def)
  with that show ?thesis
    by blast
qed

lemma run_require:
  "m w = (Val b, w1) \<Longrightarrow> py_require m rest w = (if b then rest w1 else (Val False, w1))"
  by (simp add: py_require_def py_defs)

definition monitor_calls :: "flags \<Rightarrow> string \<Rightarrow> syscall list" where
  "monitor_calls f name =
     [GetFlags, DevState False, GetMode, SetMode IW_MODE_MONITOR, SetFlags f, DevState True, GetFlags, GetMode, Bind name]"

definition mode_reply :: "wlan_world \<Rightarrow> flags option" where
  "mode_reply w = (case drop 2 (replies w) of [] \<Rightarrow> Some 0 | r # _ \<Rightarrow> r)"

text \<open>What is true whenever opening stops: the calls so far, and what the attributes hold for closing.\<close>

definition opened_so_far :: "wlan_world \<Rightarrow> wlan_world \<Rightarrow> nat \<Rightarrow> bool" where
  "opened_so_far w w' n \<longleftrightarrow>
     has_socket w' \<and> calls w' = calls w @ take n (monitor_calls (the (next_reply w)) (if_name w)) \<and>
     replies w' = drop (min n 8) (replies w) \<and>
     (2 \<le> n \<longrightarrow> original_flags w' = next_reply w \<and> next_reply w \<noteq> None) \<and>
     (3 \<le> n \<longrightarrow> original_mode w' = mode_reply w) \<and> (4 \<le> n \<longrightarrow> mode_reply w \<noteq> None)"

definition stopped_at :: "wlan_world \<Rightarrow> nat \<Rightarrow> bool res \<times> wlan_world \<Rightarrow> bool" where
  "stopped_at w n res \<longleftrightarrow> opened_so_far w (snd res) n \<and> 1 \<le> n \<and> n \<le> 9 \<and> (fst res = Val True \<longleftrightarrow> n = 9) \<and> fst res \<noteq> Diverge"

lemma verify_interface_run:
  assumes "has_socket w"
  shows "verify_interface v w =
    (case next_reply w of
       None \<Rightarrow> (Exn (TypeError ''unsupported operand''), called GetFlags w)
     | Some g \<Rightarrow> if g AND v = 0 then (Val False, called GetFlags w)
         else (Val (next_reply (called GetFlags w) = Some IW_MODE_MONITOR), called GetMode (called GetFlags w)))"
  using assms by (auto simp: verify_interface_def py_bind_def split: option.split)

lemma next_reply_set [simp]:
  "next_reply (w\<lparr>has_socket := b\<rparr>) = next_reply w" "next_reply (w\<lparr>original_flags := x\<rparr>) = next_reply w"
  "next_reply (w\<lparr>original_mode := x\<rparr>) = next_reply w"
  by (simp_all add: next_reply_def)

lemma monitor_calls_step:
  "n < 9 \<Longrightarrow> monitor_calls f name ! n = c \<Longrightarrow> take (Suc n) (monitor_calls f name) = take n (monitor_calls f name) @ [c]"
  by (subst take_Suc_conv_app_nth) (auto simp: monitor_calls_def)

lemma monitor_calls_nth [simp]:
  "monitor_calls f name ! 0 = GetFlags" "monitor_calls f name ! 1 = DevState False"
  "monitor_calls f name ! Suc 0 = DevState False" "monitor_calls f name ! 2 = GetMode"
  "monitor_calls f name ! 3 = SetMode IW_MODE_MONITOR" "monitor_calls f name ! 4 = SetFlags f"
  "monitor_calls f name ! 5 = DevState True" "monitor_calls f name ! 6 = GetFlags"
  "monitor_calls f name ! 7 = GetMode" "monitor_calls f name ! 8 = Bind name"
  by (simp_all add: monitor_calls_def)

text \<open>A rest of the method that stops properly when it starts after the first \<open>k\<close> calls.\<close>

definition good :: "wlan_world \<Rightarrow> nat \<Rightarrow> (wlan_world, bool) py \<Rightarrow> bool" where
  "good w k m \<longleftrightarrow> (\<forall>u. opened_so_far w u k \<and> if_name u = if_name w \<and> (3 \<le> k \<longrightarrow> mode_reply w \<noteq> None) \<longrightarrow>
     (\<exists>n. stopped_at w n (m u)))"

lemma opened_called:
  assumes "opened_so_far w u k" and "k < 8" and "3 \<le> k" and "mode_reply w \<noteq> None"
    and "monitor_calls (the (next_reply w)) (if_name w) ! k = c"
  shows "opened_so_far w (called c u) (Suc k)"
  using assms monitor_calls_step [OF less_trans assms(5)] by (auto simp: opened_so_far_def drop_Suc tl_drop)

lemma good_require:
  assumes "\<And>u. has_socket u \<Longrightarrow> \<exists>b. m u = (Val b, called c u)"
    and "3 \<le> k" "k < 8" and "monitor_calls (the (next_reply w)) (if_name w) ! k = c"
    and "good w (Suc k) rest"
  shows "good w k (py_require m rest)"
  unfolding good_def
proof (intro allI impI)
  fix u
  assume u: "opened_so_far w u k \<and> if_name u = if_name w \<and> (3 \<le> k \<longrightarrow> mode_reply w \<noteq> None)"
  then obtain b where b: "m u = (Val b, called c u)"
    using assms(1) by (auto simp: opened_so_far_def)
  have next_state: "opened_so_far w (called c u) (Suc k)"
    using u assms(2-4) by (intro opened_called) auto
  then have "stopped_at w (Suc k) (Val False, called c u)"
    using assms(3) by (simp add: stopped_at_def)
  moreover have "\<exists>n. stopped_at w n (rest (called c u))"
    using assms(2,5) next_state u by (simp add: good_def)
  ultimately show "\<exists>n. stopped_at w n (py_require m rest u)"
    using run_require [of m u b "called c u" rest] b by auto
qed

lemma good_bind_socket: "good w 8 (py_seq bind_socket (py_seq flush_recv_bufffer (py_ret True)))"
  unfolding good_def
proof (intro allI impI)
  fix u
  assume u: "opened_so_far w u 8 \<and> if_name u = if_name w \<and> (3 \<le> (8::nat) \<longrightarrow> mode_reply w \<noteq> None)"
  show "\<exists>n. stopped_at w n (py_seq bind_socket (py_seq flush_recv_bufffer (py_ret True)) u)"
  proof (cases "bind_error u")
    case None
    then have "stopped_at w 9 (py_seq bind_socket (py_seq flush_recv_bufffer (py_ret True)) u)"
      using u monitor_calls_step [of 8 "the (next_reply w)" "if_name w" "Bind (if_name w)"]
      by (simp add: stopped_at_def opened_so_far_def bind_socket_def flush_recv_bufffer_def py_seq_def py_bind_def)
    then show ?thesis by blast
  next
    case (Some e)
    then have "stopped_at w 8 (py_seq bind_socket (py_seq flush_recv_bufffer (py_ret True)) u)"
      using u by (simp add: stopped_at_def bind_socket_def py_seq_def py_bind_def)
    then show ?thesis by blast
  qed
qed

lemma good_verify:
  assumes "good w 8 rest"
  shows "good w 6 (py_require (verify_interface v) rest)"
  unfolding good_def
proof (intro allI impI)
  fix u
  assume u: "opened_so_far w u 6 \<and> if_name u = if_name w \<and> (3 \<le> (6::nat) \<longrightarrow> mode_reply w \<noteq> None)"
  have 7: "opened_so_far w (called GetFlags u) 7"
    using u opened_called [of w u 6 GetFlags] by simp
  have 8: "opened_so_far w (called GetMode (called GetFlags u)) 8"
    using u 7 opened_called [of w "called GetFlags u" 7 GetMode] by simp
  have "has_socket u" and "stopped_at w 7 (Val False, called GetFlags u)"
    "stopped_at w 7 (Exn e, called GetFlags u)" "stopped_at w 8 (Val False, called GetMode (called GetFlags u))" for e
    using u 7 8 by (simp_all add: stopped_at_def opened_so_far_def)
  moreover have "\<exists>n. stopped_at w n (rest (called GetMode (called GetFlags u)))"
    using assms 8 u by (simp add: good_def)
  ultimately show "\<exists>n. stopped_at w n (py_require (verify_interface v) rest u)"
    by (auto simp: py_require_def py_bind_def verify_interface_run split: option.splits)
qed

lemma monitor_open_stops:
  assumes "socket_error w = None"
  shows "\<exists>n. stopped_at w n (monitor_open w)"
proof (cases "next_reply w")
  case None
  then have "stopped_at w 1 (monitor_open w)"
    using assms monitor_calls_step [of 0] by (simp add: drop_Suc monitor_open_def create_socket_def py_seq_def py_bind_def stopped_at_def opened_so_far_def)
  then show ?thesis by blast
next
  case (Some f)
  define rest where "rest =
     py_require (set_mode IW_MODE_MONITOR)
     (py_require (update_if_flags f (IFF_BROADCAST OR IFF_PROMISC OR IFF_ALLMULTI) 0)
     (py_require (set_dev_state True)
     (py_require (verify_interface (IFF_UP OR IFF_BROADCAST OR IFF_PROMISC OR IFF_ALLMULTI))
     (py_seq bind_socket (py_seq flush_recv_bufffer (py_ret True))))))"
  note good_parts = good_verify [OF good_bind_socket]
  have step5: "good w 5 (py_require (set_dev_state True) (py_require (verify_interface v)
      (py_seq bind_socket (py_seq flush_recv_bufffer (py_ret True)))))" for v
    by (rule good_require [where c = "DevState True"]) (simp_all add: good_parts)
  have step4: "good w 4 (py_require (set_if_flags f) (py_require (set_dev_state True) (py_require (verify_interface v)
      (py_seq bind_socket (py_seq flush_recv_bufffer (py_ret True))))))" for v
    by (rule good_require [where c = "SetFlags f"]) (simp_all add: step5 Some)
  have rest: "good w 3 rest"
    unfolding rest_def update_if_flags_ignores_set
    by (rule good_require [where c = "SetMode IW_MODE_MONITOR"]) (simp_all add: step4)
  define u1 where "u1 = (called GetFlags (w\<lparr>has_socket := True\<rparr>))\<lparr>original_flags := Some f\<rparr>"
  define u2 where "u2 = called (DevState False) u1"
  have 1: "calls u1 = calls w @ take 1 (monitor_calls f (if_name w))" and replies: "replies u1 = drop 1 (replies w)"
    using monitor_calls_step [of 0] by (simp_all add: u1_def drop_Suc)
  have 2: "opened_so_far w u2 2"
    using Some 1 monitor_calls_step [of 1 f "if_name w"] by (simp add: u2_def opened_so_far_def u1_def numeral_2_eq_2 drop_Suc)
  have mode: "next_reply u2 = mode_reply w"
    using 2 by (simp add: opened_so_far_def mode_reply_def next_reply_def)
  have 3: "opened_so_far w ((called GetMode u2)\<lparr>original_mode := mode_reply w\<rparr>) 3"
    using 2 monitor_calls_step [of 2 f "if_name w", OF _ refl] Some monitor_calls_nth(4) [of f "if_name w"]
    by (simp add: opened_so_far_def numeral_2_eq_2 numeral_3_eq_3 drop_Suc tl_drop)
  have sock: "has_socket u1" "has_socket u2" and name: "if_name u2 = if_name w"
    by (simp_all add: u1_def u2_def)
  define tail where "tail = py_bind get_mode (\<lambda>m.
     py_seq (py_modify (\<lambda>w. w\<lparr>original_mode := m\<rparr>)) (if m = None then py_ret False else rest))"
  have "monitor_open w = py_require (set_dev_state False) tail u1"
    unfolding tail_def rest_def
    using assms Some by (simp add: monitor_open_def create_socket_def py_seq_def py_bind_def u1_def)
  also have "\<dots> = (if next_reply u1 = None then (Val False, u2) else tail u2)"
    using run_require [of "set_dev_state False" u1 "next_reply u1 \<noteq> None" u2 tail] by (simp add: u2_def)
  also have "tail u2 = (if next_reply u2 = None then (Val False, (called GetMode u2)\<lparr>original_mode := None\<rparr>)
     else rest ((called GetMode u2)\<lparr>original_mode := next_reply u2\<rparr>))"
    using sock by (simp add: tail_def py_seq_def py_bind_def)
  finally have "monitor_open w =
    (if next_reply u1 = None then (Val False, u2)
     else if next_reply u2 = None then (Val False, (called GetMode u2)\<lparr>original_mode := None\<rparr>)
     else rest ((called GetMode u2)\<lparr>original_mode := next_reply u2\<rparr>))" .
  moreover have "stopped_at w 2 (Val False, u2)" "stopped_at w 3 (Val False, (called GetMode u2)\<lparr>original_mode := mode_reply w\<rparr>)"
    using 2 3 by (simp_all add: stopped_at_def)
  moreover have "\<exists>n. stopped_at w n (rest ((called GetMode u2)\<lparr>original_mode := next_reply u2\<rparr>))" if "next_reply u2 \<noteq> None"
    using rest 3 that name mode by (simp add: good_def)
  ultimately show ?thesis
    using mode by auto
qed

text \<open>
  C26. The life cycle of a monitor socket. However opening fails, it has made a beginning of one fixed
  sequence of calls, and the socket counts as open afterwards, also when \<open>open\<close> returned \<open>False\<close>;
  closing it then always returns, and puts the mode and the flags read at the start back, in that
  order, with the interface down, before it brings the interface up again if it was up. The sequence
  sets the flags the interface had: the promiscuous flag the code means to add is never set.
\<close>

theorem monitor_restores:
  assumes "socket_error w = None" and "original_flags w = None" and "original_mode w = None"
    and "monitor_open w = (r, w1)"
  shows "\<exists>n w2. 1 \<le> n \<and> n \<le> 9 \<and> (r = Val True \<longleftrightarrow> n = 9) \<and>
     calls w1 = calls w @ take n (monitor_calls (the (next_reply w)) (if_name w)) \<and>
     wlan_is_open w1 = (Val True, w1) \<and>
     monitor_close w1 = (Val True, w2) \<and> wlan_is_open w2 = (Val False, w2) \<and>
     calls w2 = calls w1 @ undo_calls (original_mode w1) (original_flags w1) @ [CloseSocket] \<and>
     (2 \<le> n \<longrightarrow> original_flags w1 = next_reply w \<and> next_reply w \<noteq> None) \<and>
     (4 \<le> n \<longrightarrow> original_mode w1 = mode_reply w \<and> mode_reply w \<noteq> None)"
proof -
  obtain n where n: "stopped_at w n (r, w1)"
    using monitor_open_stops [OF assms(1)] assms(4) by auto
  then have "has_socket w1"
    by (simp add: stopped_at_def opened_so_far_def)
  then obtain w2 where "monitor_close w1 = (Val True, w2)" "\<not> has_socket w2"
    "calls w2 = calls w1 @ undo_calls (original_mode w1) (original_flags w1) @ [CloseSocket]"
    by (rule monitor_close_run)
  with n show ?thesis
    by (intro exI [of _ n] exI [of _ w2]) (auto simp: stopped_at_def opened_so_far_def wlan_is_open_def)
qed

definition demo_wlan :: wlan_world where
  "demo_wlan = \<lparr>if_name = ''wlan0'', has_socket = False, original_flags = None, original_mode = None,
     socket_error = None, bind_error = None, replies = [Some 0x1003, Some 0, None],
     arrivals = [], calls = []\<rparr>"

theorem monitor_restores_witness:
  "\<exists>r w1 w2. monitor_open demo_wlan = (r, w1) \<and> r \<noteq> Val True \<and> wlan_is_open w1 = (Val True, w1) \<and>
     monitor_close w1 = (Val True, w2) \<and> wlan_is_open w2 = (Val False, w2) \<and>
     calls w1 = [GetFlags, DevState False, GetMode] \<and>
     calls w2 = calls w1 @ [DevState False, SetFlags 0x1003, DevState True, CloseSocket]"
proof -
  obtain r w1 where open_run: "monitor_open demo_wlan = (r, w1)" by fastforce
  have run: "r = Val False \<and> calls w1 = [GetFlags, DevState False, GetMode] \<and> original_mode w1 = None
      \<and> original_flags w1 = Some 0x1003"
    using open_run
    by (auto simp: monitor_open_def demo_wlan_def create_socket_def py_seq_def py_bind_def py_require_def next_reply_def called_def)
  obtain w2 where "monitor_close w1 = (Val True, w2)" "wlan_is_open w1 = (Val True, w1)" "wlan_is_open w2 = (Val False, w2)"
    "calls w2 = calls w1 @ undo_calls (original_mode w1) (original_flags w1) @ [CloseSocket]"
    using monitor_restores [OF _ _ _ open_run] by (auto simp: demo_wlan_def)
  moreover have "undo_calls None (Some 0x1003) = [DevState False, SetFlags 0x1003, DevState True]"
    by (simp add: undo_calls_def IFF_UP_def)
  ultimately show ?thesis
    using open_run run by auto
qed

subsection \<open>What sending and receiving do\<close>

lemma wlan_send_open:
  "has_socket w \<Longrightarrow> has_wlan_packets a \<Longrightarrow> wlan_send a w = (Exn (AttributeError ''data''), w)"
  by (cases a; (cases "case a of WMany ps \<Rightarrow> ps | _ \<Rightarrow> []")?)
    (auto simp: has_wlan_packets_def wlan_send_def wlan_is_open_def wlan_send_packet_def py_bind_def split: list.splits)

lemma wlan_send_receive_open:
  assumes "has_socket w"
  shows "wlan_send_receive a timeout k w =
     (if has_wlan_packets a then (Exn (AttributeError ''data''), w)
      else if 0 < timeout then (Exn (TypeError ''recvfrom() takes no keyword arguments''), w)
      else (Val [], w))"
  using assms wlan_send_open [OF assms, of a]
  by (auto simp: wlan_send_receive_def wlan_find_packet_def py_ignore_def py_seq_def py_bind_def)

lemma wlan_receive_loop_skips:
  "\<forall>x\<in>set pre. \<forall>d. x \<noteq> Some (d, name) \<Longrightarrow> wlan_receive_loop P name (pre @ as) = wlan_receive_loop P name as"
  by (induction P name pre rule: wlan_receive_loop.induct) auto

text \<open>
  What a user of the plain WLAN socket gets once it is open. \<open>open\<close> returns \<open>None\<close> though the
  socket is open. Nothing can be sent, and no answer be waited for: the calls raise \<open>AttributeError\<close>
  and \<open>TypeError\<close>. \<open>receive\<close> gives the first frame that came by the socket's interface after what was
  buffered when it was opened, whatever came by others; without one it waits for ever, whatever the
  timeout.
\<close>

theorem wlan_socket_use:
  assumes "socket_error w = None" and "bind_error w = None"
    and "drop_buffered (arrivals w) = pre @ rest" and "\<forall>x\<in>set pre. \<forall>d. x \<noteq> Some (d, if_name w)"
  shows "\<exists>w1. wlan_open w = (Val None, w1) \<and> wlan_is_open w1 = (Val True, w1) \<and>
     (\<forall>a. has_wlan_packets a \<longrightarrow> wlan_send a w1 = (Exn (AttributeError ''data''), w1)) \<and>
     (\<forall>t > 0. wlan_receive_answer t w1 = (Exn (TypeError ''recvfrom() takes no keyword arguments''), w1)) \<and>
     (\<forall>d post. rest = Some (d, if_name w) # post \<longrightarrow> (\<exists>w2. arrivals w2 = post \<and>
        wlan_receive P timeout w1 = (case receive_frame P d of Inl e \<Rightarrow> Exn e | Inr r \<Rightarrow> Val r, w2))) \<and>
     (rest = [] \<longrightarrow> fst (wlan_receive P timeout w1) = Diverge)"
proof -
  define w1 where "w1 = w\<lparr>has_socket := True, arrivals := pre @ rest, calls := calls w @ [Bind (if_name w)]\<rparr>"
  have open_run: "wlan_open w = (Val None, w1)"
    using assms(1-3) by (simp add: wlan_open_def create_socket_def bind_socket_def flush_recv_bufffer_def py_seq_def py_bind_def w1_def)
  have sock: "has_socket w1" and fields: "if_name w1 = if_name w" "arrivals w1 = pre @ rest"
    by (simp_all add: w1_def)
  have answers: "wlan_receive_answer t w1 = (Exn (TypeError ''recvfrom() takes no keyword arguments''), w1)" if "t > 0" for t
    using that sock
    by (simp add: wlan_receive_answer_def wlan_send_receive_packet_def wlan_send_receive_open has_wlan_packets_def py_bind_def)
  have recv: "wlan_receive P timeout w1 =
      (case wlan_receive_loop P (if_name w) rest of (r, as) \<Rightarrow> (r, w1\<lparr>arrivals := as\<rparr>))"
    using sock fields assms(4) by (simp add: wlan_receive_def wlan_receive_loop_skips)
  show ?thesis
    using open_run sock wlan_send_open [OF sock] answers
    by (intro exI [of _ w1]) (auto simp: wlan_is_open_def recv)
qed

definition demo_parsers :: parsers where
  "demo_parsers = \<lparr>radiotap_parse = \<lambda>_. Inl construct_error, header_parse = \<lambda>_. Inl construct_error,
     header_build = \<lambda>_. Inr []\<rparr>"

theorem wlan_socket_use_witness:
  "\<exists>w1. wlan_open (demo_wlan\<lparr>arrivals := [Some ([1], ''wlan0''), None, Some ([2], ''eth0'')]\<rparr>) = (Val None, w1) \<and>
     wlan_send (WOne [0]) w1 = (Exn (AttributeError ''data''), w1) \<and> fst (wlan_receive demo_parsers 2 w1) = Diverge"
  using wlan_socket_use [of "demo_wlan\<lparr>arrivals := [Some ([1], ''wlan0''), None, Some ([2], ''eth0'')]\<rparr>"
      "[Some ([2], ''eth0'')]" "[]" demo_parsers 2]
  by (auto simp: demo_wlan_def has_wlan_packets_def)

end
