(* ===== verification/Shells.thy ===== *)
theory Shells
  imports Py_Int
begin

section \<open>Device shells\<close>

text \<open>
  Models \<open>utils/shell_device/impl\<close>: running commands on the target over a serial line, ssh and adb.
  What the line, paramiko and adb-shell do is in the states as scripts and functions.

  The three share a contract, the locale \<open>device_shell\<close>: with a filter, a command gives at most one
  text, and that text contains the filter.
\<close>

definition trimmed :: "string \<Rightarrow> bool" where
  "trimmed f \<longleftrightarrow> f \<noteq> [] \<and> \<not> is_py_space (hd f) \<and> \<not> is_py_space (last f)"

locale device_shell =
  fixes exec :: "string \<Rightarrow> string option \<Rightarrow> ('w, string list) py"
    and ready :: "'w \<Rightarrow> bool"
  assumes detects: "ready w \<Longrightarrow> trimmed f \<Longrightarrow> exec c (Some f) w = (Val out, w') \<Longrightarrow>
      out = [] \<or> (\<exists>t. out = [t] \<and> py_contains f t)"
begin

lemma at_most_one: "ready w \<Longrightarrow> trimmed f \<Longrightarrow> exec c (Some f) w = (Val out, w') \<Longrightarrow> length out \<le> 1"
  by (auto dest: detects)

lemma all_contain: "ready w \<Longrightarrow> trimmed f \<Longrightarrow> exec c (Some f) w = (Val out, w') \<Longrightarrow> \<forall>t\<in>set out. py_contains f t"
  by (auto dest: detects)

end

subsection \<open>The serial line\<close>

text \<open>
  \<open>ser_reads\<close> is what the next reads give: the decoded text of one read, or what reading or decoding
  raises; past its end the line is silent. \<open>ser_writes\<close> is what the next writes raise, if anything.
\<close>

datatype serial_event = Sent string | Got string

record serial_shell =
  serial_device_name :: string
  serial_username :: "string option"
  serial_password :: "string option"
  logged_in :: bool
  last_read :: string
  open_error :: "exn option"
  ser_reads :: "(exn + string) list"
  ser_writes :: "exn option list"
  ser_log :: "serial_event list"

definition COMMAND_DONE_STRING :: string where
  "COMMAND_DONE_STRING = ''clarity_command_done''"

definition newline :: string where
  "newline = [char_of (10::nat)]"

definition write_string :: "string \<Rightarrow> (serial_shell, unit) py" where
  "write_string t = (\<lambda>w. case ser_writes w of
       [] \<Rightarrow> (Val (), w\<lparr>ser_log := ser_log w @ [Sent t]\<rparr>)
     | None # ws \<Rightarrow> (Val (), w\<lparr>ser_writes := ws, ser_log := ser_log w @ [Sent t]\<rparr>)
     | Some e # ws \<Rightarrow> (Exn e, w\<lparr>ser_writes := ws\<rparr>))"

text \<open>The last character of what is read is dropped, whatever it is.\<close>

definition read_string :: "(serial_shell, nat) py" where
  "read_string = (\<lambda>w. case ser_reads w of
       [] \<Rightarrow> (Val 0, w\<lparr>last_read := [], ser_log := ser_log w @ [Got []]\<rparr>)
     | Inl e # rs \<Rightarrow> (Exn e, w\<lparr>ser_reads := rs\<rparr>)
     | Inr t # rs \<Rightarrow> (Val (length (butlast t)),
         w\<lparr>last_read := butlast t, ser_reads := rs, ser_log := ser_log w @ [Got (butlast t)]\<rparr>))"

text \<open>\<open>_read_string_blocked_until_result\<close>.\<close>

fun read_blocked :: "nat \<Rightarrow> nat \<Rightarrow> (serial_shell, unit) py" where
  "read_blocked 0 ser_bytes = py_ret ()"
| "read_blocked (Suc read_cntr) ser_bytes =
     (if ser_bytes = 0 then py_bind read_string (\<lambda>n. read_blocked read_cntr n) else py_ret ())"

subsubsection \<open>Prompts\<close>

definition is_password_prompt :: "string \<Rightarrow> bool" where
  "is_password_prompt s \<longleftrightarrow> py_contains ''Password:'' s"

definition is_login_prompt :: "string \<Rightarrow> bool" where
  "is_login_prompt s \<longleftrightarrow> py_contains ''login:'' s \<and> \<not> py_contains ''Last'' s"

definition is_failure_prompt :: "string \<Rightarrow> bool" where
  "is_failure_prompt s \<longleftrightarrow>
     py_contains ''Login incorrect'' s \<or> py_contains ''Permission denied, please try again'' s"

text \<open>
  Regular expressions, as far as the command prompt uses them: \<open>rests r s\<close> is what may be left of
  \<open>s\<close> after a match of \<open>r\<close> at its beginning.
\<close>

datatype rx = Ch char | Space | DotPlus | Cat rx rx | Alt rx rx

fun dot_plus :: "string \<Rightarrow> string list" where
  "dot_plus [] = []"
| "dot_plus (c # s) = (if [c] = newline then [] else s # dot_plus s)"

fun rests :: "rx \<Rightarrow> string \<Rightarrow> string list" where
  "rests (Ch c) s = (case s of d # t \<Rightarrow> if c = d then [t] else [] | [] \<Rightarrow> [])"
| "rests Space s = (case s of d # t \<Rightarrow> if is_py_space d then [t] else [] | [] \<Rightarrow> [])"
| "rests DotPlus s = dot_plus s"
| "rests (Cat a b) s = concat (map (rests b) (rests a s))"
| "rests (Alt a b) s = rests a s @ rests b s"

text \<open>\<open>search\<close> of an expression that ends in a dollar: at the end, or before a last newline.\<close>

fun search_end :: "rx \<Rightarrow> string \<Rightarrow> bool" where
  "search_end r [] \<longleftrightarrow> (\<exists>u\<in>set (rests r []). u = [] \<or> u = newline)"
| "search_end r (c # s) \<longleftrightarrow> (\<exists>u\<in>set (rests r (c # s)). u = [] \<or> u = newline) \<or> search_end r s"

definition cli_prompt_pattern :: rx where
  "cli_prompt_pattern =
     Alt (Ch (CHR ''$'')) (Alt (Ch (CHR ''>'')) (Alt (Ch (CHR ''#''))
    (Alt (Cat (Ch (CHR ''['')) (Cat DotPlus (Cat (Ch (CHR ''@'')) (Cat DotPlus (Cat Space (Cat DotPlus
           (Cat (Ch (CHR '']'')) (Ch (CHR ''$'')))))))))
    (Alt (Cat (Ch (CHR ''>'')) DotPlus)
         (Cat DotPlus (Cat (Ch (CHR ''@'')) (Cat DotPlus (Cat (Ch (CHR '':'')) (Cat DotPlus (Ch (CHR ''>''))))))))))) "

definition is_command_prompt :: "string \<Rightarrow> bool" where
  "is_command_prompt s \<longleftrightarrow> search_end cli_prompt_pattern s"

subsubsection \<open>Logging in\<close>

text \<open>A value that is \<open>None\<close> prints as its name.\<close>

definition fstring :: "string option \<Rightarrow> string" where
  "fstring s = (case s of Some t \<Rightarrow> t | None \<Rightarrow> ''None'')"

fun login_with_password :: "nat \<Rightarrow> string option \<Rightarrow> string option \<Rightarrow> (serial_shell, bool) py" where
  "login_with_password 0 user password = py_ret False"
| "login_with_password (Suc i) user password =
     py_seq (write_string (fstring user @ newline))
    (py_seq read_string
    (py_seq (\<lambda>w. if is_password_prompt (last_read w)
                 then py_seq (write_string (fstring password @ newline)) (py_seq read_string (py_ret ())) w
                 else (Val (), w))
    (py_bind (py_get last_read) (\<lambda>l.
       if is_command_prompt l then py_ret True
       else if is_failure_prompt l then py_ret False
       else login_with_password i user password))))"

definition login_retries :: nat where "login_retries = 3"

definition validate_prompt :: "string \<Rightarrow> (serial_shell, bool) py" where
  "validate_prompt shell_name =
     py_seq (write_string (''ps -p $$ -o comm='' @ newline))
    (py_seq read_string (py_get (\<lambda>w. py_contains shell_name (last_read w))))"

definition set_logged_in :: "(serial_shell, unit) py" where
  "set_logged_in = py_modify (\<lambda>w. w\<lparr>logged_in := True\<rparr>)"

text \<open>
  One round of the loop: its result, or the counters of empty and of unknown reads with which it goes
  on.
\<close>

definition login_step :: "nat \<Rightarrow> nat \<Rightarrow> (serial_shell, bool + nat \<times> nat) py" where
  "login_step empty_cntr unknown_cntr =
     py_bind read_string (\<lambda>line_size. py_bind (py_get id) (\<lambda>w.
       if line_size > 0
       then (if is_command_prompt (last_read w) then py_seq set_logged_in (py_ret (Inl True))
             else if is_login_prompt (last_read w)
             then py_bind (login_with_password login_retries (serial_username w) (serial_password w)) (\<lambda>ok.
                    if ok
                    then py_bind (py_get last_read) (\<lambda>l.
                           if is_command_prompt l then py_seq set_logged_in (py_ret (Inl True)) else py_ret (Inl False))
                    else py_ret (Inl False))
             else if unknown_cntr + 1 > 5 then py_ret (Inl False)
             else py_ret (Inr (empty_cntr, unknown_cntr + 1)))
       else if empty_cntr + 1 > 5
       then py_seq (write_string newline) (py_ret (Inr (0, unknown_cntr)))
       else py_ret (Inr (empty_cntr + 1, unknown_cntr))))"

fun login_loop :: "nat \<Rightarrow> nat \<Rightarrow> nat \<Rightarrow> (serial_shell, bool) py" where
  "login_loop 0 empty_cntr unknown_cntr = py_diverge"
| "login_loop (Suc fuel) empty_cntr unknown_cntr =
     py_bind (py_get logged_in) (\<lambda>b.
       if b then py_ret False
       else py_bind (py_catch (login_step empty_cntr unknown_cntr) (\<lambda>error. py_ret (Inl False))) (\<lambda>r.
         case r of
           Inl result \<Rightarrow> py_ret result
         | Inr (e, u) \<Rightarrow> login_loop fuel e u))"

text \<open>The fuel: six rounds for each read and each write left in the scripts, and those before the next newline.\<close>

definition login_fuel :: "serial_shell \<Rightarrow> nat" where
  "login_fuel w = 6 * length (ser_reads w) + 6 * length (ser_writes w) + 7"

definition start_login_loop :: "(serial_shell, bool) py" where
  "start_login_loop = (\<lambda>w. login_loop (login_fuel w) 0 0 w)"

definition serial_login :: "(serial_shell, bool) py" where
  "serial_login =
     py_seq (write_string newline)
    (py_seq read_string
    (py_bind (py_get last_read) (\<lambda>l.
       if is_command_prompt l
       then py_bind (validate_prompt ''bash'') (\<lambda>ok.
              if ok then py_seq set_logged_in (py_ret True) else start_login_loop)
       else start_login_loop)))"

definition serial_init :: "(serial_shell, bool) py" where
  "serial_init = serial_login"

definition serial_post_init :: "(serial_shell, unit) py" where
  "serial_post_init = (\<lambda>w.
     if serial_device_name w = [] then (Exn (DeviceShellException ''serial_device_name is not defined''), w)
     else case open_error w of
         Some e \<Rightarrow> (Exn e, w)
       | None \<Rightarrow>
           py_bind serial_init (\<lambda>ok.
             if ok then py_ret () else py_raise (DeviceShellException ''serial connection failed''))
             (w\<lparr>logged_in := False, last_read := []\<rparr>))"

definition logout :: "(serial_shell, unit) py" where
  "logout =
     py_seq (py_modify (\<lambda>w. w\<lparr>logged_in := False\<rparr>))
    (py_seq (write_string (''logout'' @ newline)) (py_seq read_string (py_ret ())))"

definition serial_teardown :: "(serial_shell, unit) py" where
  "serial_teardown = logout"

subsubsection \<open>Running a command\<close>

fun serial_exec_loop :: "nat \<Rightarrow> string \<Rightarrow> (serial_shell, string list) py" where
  "serial_exec_loop 0 f = py_diverge"
| "serial_exec_loop (Suc fuel) f =
     py_seq read_string (py_bind (py_get last_read) (\<lambda>l.
       if py_contains f l then py_ret [l]
       else if py_contains COMMAND_DONE_STRING l then py_ret []
       else serial_exec_loop fuel f))"

text \<open>
  The reads that are left, and one more of the silent line, which decides whether the loop ends at
  all. The result is the detections, with the empty standard error where it is asked for.
\<close>

definition serial_exec_command ::
  "string \<Rightarrow> string option \<Rightarrow> bool \<Rightarrow> (serial_shell, string list \<times> string option) py" where
  "serial_exec_command command testcase_filter return_stderr =
     py_bind (py_get id) (\<lambda>w.
       if \<not> logged_in w then py_ret ([''''], None)
       else py_seq (write_string (command @ '' ; echo '' @ COMMAND_DONE_STRING @ newline))
           (py_bind (serial_exec_loop (Suc (length (ser_reads w))) (case testcase_filter of Some f \<Rightarrow> f | None \<Rightarrow> []))
             (\<lambda>detections. py_ret (detections, if return_stderr then Some [] else None))))"

definition serial_exec :: "string \<Rightarrow> string option \<Rightarrow> (serial_shell, string list) py" where
  "serial_exec c f = py_bind (serial_exec_command c f False) (\<lambda>(out, _). py_ret out)"

subsection \<open>ssh\<close>

text \<open>
  What paramiko does: \<open>ssh_connect\<close> is what connecting raises, \<open>ssh_run\<close> the lines a command prints
  and its standard error, \<open>sftp_result\<close> what a file operation raises. \<open>load_key\<close> decodes the base64 text
  of a key and reads it. The file operations done are a journal.
\<close>

datatype ssh_credentials =
    NoCredentials
  | PasswordCredentials "string option" "string option"
  | KeyCredentials "string option" bytes

datatype sftp_op =
    SftpFile string string
  | SftpPut string string
  | SftpChmod string int
  | SftpGet string string

record ssh_shell =
  ssh_ip :: string
  ssh_port :: "int option"
  ssh_authentication_method :: string
  ssh_username :: "string option"
  ssh_password :: "string option"
  ssh_private_key :: "string option"
  ssh_connect :: "ssh_credentials \<Rightarrow> exn option"
  load_key :: "string option \<Rightarrow> exn + bytes"
  sftp_error :: "exn option"
  ssh_run :: "string \<Rightarrow> exn + string list \<times> string"
  sftp_result :: "sftp_op \<Rightarrow> exn option"
  file_mode :: "string \<Rightarrow> exn + int"
  ssh_close_error :: "exn option"
  ssh_up :: bool
  sftp_up :: bool
  sftp_log :: "sftp_op list"

definition shell_failed :: exn where
  "shell_failed = DeviceShellException ''ssh connection failed''"

definition ssh_credentials :: "ssh_shell \<Rightarrow> exn + ssh_credentials" where
  "ssh_credentials w =
     (if ssh_authentication_method w = ''None'' then Inr NoCredentials
      else if ssh_authentication_method w = ''Password''
      then Inr (PasswordCredentials (ssh_username w) (ssh_password w))
      else if ssh_authentication_method w = ''Key''
      then (case load_key w (ssh_private_key w) of
              Inl e \<Rightarrow> Inl e
            | Inr k \<Rightarrow> Inr (KeyCredentials (ssh_username w) k))
      else Inl (DeviceShellException ''Unrecognized logging_interface_authentication_method''))"

text \<open>Whatever is raised while connecting becomes a \<open>DeviceShellException\<close> with its text.\<close>

definition init_ssh :: "(ssh_shell, unit) py" where
  "init_ssh =
     py_catch
       (\<lambda>w. case ssh_credentials w of
          Inl e \<Rightarrow> (Exn e, w)
        | Inr c \<Rightarrow> (case ssh_connect w c of
            Some e \<Rightarrow> (Exn e, w)
          | None \<Rightarrow>
              let w1 = w\<lparr>ssh_up := True\<rparr>
              in case sftp_error w1 of
                   Some e \<Rightarrow> (Exn e, w1)
                 | None \<Rightarrow> (Val (), w1\<lparr>sftp_up := True\<rparr>)))
       (\<lambda>e. py_raise shell_failed)"

definition ssh_post_init :: "(ssh_shell, unit) py" where
  "ssh_post_init = py_catch init_ssh (\<lambda>e. py_raise e)"

text \<open>With a filter, the loop over the lines ends at the first that contains it.\<close>

fun ssh_detect :: "string option \<Rightarrow> string list \<Rightarrow> string list" where
  "ssh_detect f [] = []"
| "ssh_detect f (line # lines) =
     (case f of
        Some t \<Rightarrow>
          if t = [] then line # ssh_detect f lines
          else if py_contains t line then [line]
          else ssh_detect f lines
      | None \<Rightarrow> line # ssh_detect f lines)"

definition ssh_exec_command ::
  "string \<Rightarrow> string option \<Rightarrow> bool \<Rightarrow> (ssh_shell, string list \<times> string option) py" where
  "ssh_exec_command command testcase_filter return_stderr = (\<lambda>w.
     case ssh_run w command of
       Inl e \<Rightarrow> (Exn e, w)
     | Inr (stdout, stderr) \<Rightarrow>
         (Val (ssh_detect testcase_filter stdout, if return_stderr then Some (py_strip stderr) else None), w))"

definition ssh_exec :: "string \<Rightarrow> string option \<Rightarrow> (ssh_shell, string list) py" where
  "ssh_exec c f = py_bind (ssh_exec_command c f False) (\<lambda>(out, _). py_ret out)"

definition ssh_teardown :: "(ssh_shell, unit) py" where
  "ssh_teardown = (\<lambda>w. case ssh_close_error w of Some e \<Rightarrow> (Exn e, w) | None \<Rightarrow> (Val (), w\<lparr>ssh_up := False\<rparr>))"

definition sftp_call :: "sftp_op \<Rightarrow> (ssh_shell, unit) py" where
  "sftp_call c = (\<lambda>w.
     if \<not> sftp_up w then (Exn (AttributeError ''_sftp''), w)
     else case sftp_result w c of
         Some e \<Rightarrow> (Exn e, w)
       | None \<Rightarrow> (Val (), w\<lparr>sftp_log := sftp_log w @ [c]\<rparr>))"

definition open_file :: "string \<Rightarrow> string \<Rightarrow> (ssh_shell, unit) py" where
  "open_file filepath mode = sftp_call (SftpFile filepath mode)"

definition push_file :: "string \<Rightarrow> string \<Rightarrow> (ssh_shell, unit) py" where
  "push_file localpath remotepath =
     py_bind (py_bind (py_get (\<lambda>w. file_mode w localpath)) py_lift) (\<lambda>permissions.
       py_seq (sftp_call (SftpPut localpath remotepath)) (sftp_call (SftpChmod remotepath permissions)))"

definition pull_file :: "string \<Rightarrow> string \<Rightarrow> (ssh_shell, unit) py" where
  "pull_file remote_filepath local_filepath = sftp_call (SftpGet remote_filepath local_filepath)"

subsection \<open>adb\<close>

text \<open>
  What adb-shell does: \<open>adb_connect\<close> is the result of connecting with a signer, \<open>adb_run\<close> what a command
  prints. \<open>key_text\<close> decodes the base64 text of a key; \<open>make_signer\<close> is what making the signer gives.
\<close>

datatype adb_transport = AdbTcp string "int option" | AdbUsb

record adb_shell =
  adb_authentication_method :: string
  adb_ip :: string
  adb_port :: "int option"
  adb_private_key :: "string option"
  adb_public_key :: "string option"
  is_ip :: "string \<Rightarrow> bool"
  key_text :: "string option \<Rightarrow> exn + string"
  make_signer :: "string \<Rightarrow> string \<Rightarrow> exn + nat"
  adb_connect :: "adb_transport \<Rightarrow> nat option \<Rightarrow> exn + bool"
  adb_run :: "string \<Rightarrow> exn + string"
  adb_close_error :: "exn option"
  adb_device :: "adb_transport option"

definition validate_ip :: "(string \<Rightarrow> bool) \<Rightarrow> string \<Rightarrow> exn + string" where
  "validate_ip valid v =
     (if v = ''usb'' then Inr v
      else if valid v then Inr v
      else Inl (ValueError ''adb_ip must be either usb or a valid IP address''))"

definition read_keys :: "adb_shell \<Rightarrow> exn + string \<times> string" where
  "read_keys w =
     (case key_text w (adb_private_key w) of
        Inl e \<Rightarrow> Inl (DeviceShellException ''key decode failed!'')
      | Inr adbkey_private \<Rightarrow>
          (case key_text w (adb_public_key w) of
             Inl e \<Rightarrow> Inl (DeviceShellException ''key decode failed!'')
           | Inr adbkey_pub \<Rightarrow> Inr (adbkey_pub, adbkey_private)))"

definition adb_signer :: "adb_shell \<Rightarrow> exn + nat option" where
  "adb_signer w =
     (if adb_authentication_method w = ''Key''
      then (case read_keys w of
              Inl e \<Rightarrow> Inl e
            | Inr (pub, priv) \<Rightarrow> (case make_signer w pub priv of Inl e \<Rightarrow> Inl e | Inr s \<Rightarrow> Inr (Some s)))
      else if adb_authentication_method w = ''None'' then Inr None
      else Inl (DeviceShellException ''Authentication method is not supported!''))"

definition init_adb :: "(adb_shell, bool) py" where
  "init_adb = (\<lambda>w.
     case adb_signer w of
       Inl e \<Rightarrow> (Exn e, w)
     | Inr signer \<Rightarrow>
         (case (if is_ip w (adb_ip w) then Some (AdbTcp (adb_ip w) (adb_port w))
                else if adb_ip w = ''usb'' then Some AdbUsb else None) of
            None \<Rightarrow> (Exn (DeviceShellException ''invalid destination_ip''), w)
          | Some t \<Rightarrow>
              let w1 = w\<lparr>adb_device := Some t\<rparr>
              in case adb_connect w1 t signer of
                   Inl e \<Rightarrow> (Exn e, w1)
                 | Inr res \<Rightarrow> (Val res, w1)))"

definition adb_post_init :: "(adb_shell, unit) py" where
  "adb_post_init =
     py_bind init_adb (\<lambda>res. if res then py_ret () else py_raise (DeviceShellException ''adb connection failed''))"

definition adb_exec_command ::
  "string \<Rightarrow> string option \<Rightarrow> bool \<Rightarrow> (adb_shell, string list \<times> string option) py" where
  "adb_exec_command command testcase_filter return_stderr = (\<lambda>w.
     if adb_device w = None then (Exn (AttributeError ''shell''), w)
     else case adb_run w command of
         Inl e \<Rightarrow> (Exn e, w)
       | Inr stdout_str \<Rightarrow>
           (Val (case testcase_filter of
                   Some f \<Rightarrow>
                     if f = [] \<or> py_contains f stdout_str then [py_strip stdout_str] else []
                 | None \<Rightarrow> [py_strip stdout_str],
                 if return_stderr then Some [] else None), w))"

definition adb_exec :: "string \<Rightarrow> string option \<Rightarrow> (adb_shell, string list) py" where
  "adb_exec c f = py_bind (adb_exec_command c f False) (\<lambda>(out, _). py_ret out)"

definition adb_teardown :: "(adb_shell, unit) py" where
  "adb_teardown = (\<lambda>w.
     if adb_device w = None then (Exn (AttributeError ''close''), w)
     else case adb_close_error w of Some e \<Rightarrow> (Exn e, w) | None \<Rightarrow> (Val (), w))"

subsection \<open>The command prompt\<close>

abbreviation nl :: char where "nl \<equiv> char_of (10::nat)"

lemma dot_plus_iff: "u \<in> set (dot_plus t) \<longleftrightarrow> (\<exists>m. t = m @ u \<and> m \<noteq> [] \<and> nl \<notin> set m)"
proof (induction t)
  case (Cons c t)
  show ?case
  proof (cases "c = nl")
    case False
    have "(\<exists>m. c # t = m @ u \<and> m \<noteq> [] \<and> nl \<notin> set m) \<longleftrightarrow> u = t \<or> (\<exists>m. t = m @ u \<and> m \<noteq> [] \<and> nl \<notin> set m)"
    proof
      assume "\<exists>m. c # t = m @ u \<and> m \<noteq> [] \<and> nl \<notin> set m"
      then obtain m where m: "c # t = m @ u" "m \<noteq> []" "nl \<notin> set m" by blast
      then obtain k where "m = c # k" "t = k @ u"
        by (cases m) auto
      with m(3) show "u = t \<or> (\<exists>m. t = m @ u \<and> m \<noteq> [] \<and> nl \<notin> set m)"
        by (cases "k = []") auto
    next
      assume "u = t \<or> (\<exists>m. t = m @ u \<and> m \<noteq> [] \<and> nl \<notin> set m)"
      then obtain m where "t = m @ u" "nl \<notin> set m"
        by force
      with False show "\<exists>m. c # t = m @ u \<and> m \<noteq> [] \<and> nl \<notin> set m"
        by (intro exI [of _ "c # m"]) simp
    qed
    with False Cons.IH show ?thesis
      by (simp add: newline_def)
  qed (auto simp: newline_def Cons_eq_append_conv)
qed simp

lemma rests_suffix: "u \<in> set (rests r t) \<Longrightarrow> \<exists>m. t = m @ u"
proof (induction r arbitrary: t u)
  case DotPlus
  then show ?case by (auto simp: dot_plus_iff)
next
  case (Cat a b)
  then obtain v where "v \<in> set (rests a t)" "u \<in> set (rests b v)"
    by auto
  with Cat.IH show ?case
    by (metis append.assoc)
qed (auto split: list.splits if_splits)

lemma suffix_Cons_ex: "(\<exists>p t. c # s = p @ t \<and> Q t) \<longleftrightarrow> Q (c # s) \<or> (\<exists>p t. s = p @ t \<and> Q t)"
proof
  assume "\<exists>p t. c # s = p @ t \<and> Q t"
  then obtain p t where "c # s = p @ t" "Q t" by blast
  then show "Q (c # s) \<or> (\<exists>p t. s = p @ t \<and> Q t)"
    by (cases p) auto
next
  assume "Q (c # s) \<or> (\<exists>p t. s = p @ t \<and> Q t)"
  then show "\<exists>p t. c # s = p @ t \<and> Q t"
  proof
    assume "\<exists>p t. s = p @ t \<and> Q t"
    then obtain p t where "c # s = (c # p) @ t" "Q t" by auto
    then show ?thesis by blast
  qed (rule exI [of _ "[]"], simp)
qed

lemma search_end_iff:
  "search_end r s \<longleftrightarrow> (\<exists>p t. s = p @ t \<and> (\<exists>u\<in>set (rests r t). u = [] \<or> u = newline))"
proof (induction s)
  case (Cons c s)
  then show ?case
    by (simp only: search_end.simps suffix_Cons_ex)
qed simp

lemma rests_Ch: "u \<in> set (rests (Ch c) t) \<longleftrightarrow> t = c # u"
  by (auto split: list.splits)

definition ends_in :: "rx \<Rightarrow> char \<Rightarrow> bool" where
  "ends_in r c \<longleftrightarrow> (\<forall>t. \<forall>u\<in>set (rests r t). \<exists>m. t = m @ c # u)"

lemma ends_in_Ch: "ends_in (Ch c) c"
  by (auto simp: ends_in_def split: list.splits)

lemma ends_in_Cat:
  assumes "ends_in b c"
  shows "ends_in (Cat a b) c"
  unfolding ends_in_def
proof (intro allI ballI)
  fix t u
  assume "u \<in> set (rests (Cat a b) t)"
  then obtain v where "v \<in> set (rests a t)" "u \<in> set (rests b v)"
    by auto
  then obtain k m where "t = k @ v" "v = m @ c # u"
    using assms rests_suffix unfolding ends_in_def by blast
  then show "\<exists>m. t = m @ c # u"
    by (intro exI [of _ "k @ m"]) simp
qed

lemma nl_not_prompt [simp]: "nl \<noteq> CHR ''>''" "CHR ''>'' \<noteq> nl" "nl \<noteq> CHR ''$''" "nl \<noteq> CHR ''#''"
  "CHR ''$'' \<noteq> nl" "CHR ''#'' \<noteq> nl"
  by code_simp+

definition last_line :: "string \<Rightarrow> string" where
  "last_line s = rev (takeWhile (\<lambda>c. c \<noteq> nl) (rev s))"

lemma in_last_line: "c \<in> set (last_line s) \<longleftrightarrow> c \<noteq> nl \<and> (\<exists>p m. s = p @ c # m \<and> nl \<notin> set m)"
proof (induction s rule: rev_induct)
  case (snoc x s)
  have last: "last_line (s @ [x]) = (if x = nl then [] else last_line s @ [x])"
    by (simp add: last_line_def)
  have "(\<exists>p m. s @ [x] = p @ c # m \<and> nl \<notin> set m) \<longleftrightarrow> c = x \<or> x \<noteq> nl \<and> (\<exists>p m. s = p @ c # m \<and> nl \<notin> set m)"
  proof
    assume "\<exists>p m. s @ [x] = p @ c # m \<and> nl \<notin> set m"
    then obtain p m where m: "s @ [x] = p @ c # m" "nl \<notin> set m" by blast
    show "c = x \<or> x \<noteq> nl \<and> (\<exists>p m. s = p @ c # m \<and> nl \<notin> set m)"
    proof (cases m rule: rev_cases)
      case (snoc k y)
      then have "s = p @ c # k" "x = y"
        using m(1) by simp_all
      with snoc m(2) show ?thesis by auto
    qed (use m in simp)
  next
    assume "c = x \<or> x \<noteq> nl \<and> (\<exists>p m. s = p @ c # m \<and> nl \<notin> set m)"
    then show "\<exists>p m. s @ [x] = p @ c # m \<and> nl \<notin> set m"
    proof (elim disjE conjE exE)
      fix p m
      assume "x \<noteq> nl" "s = p @ c # m" "nl \<notin> set m"
      then show ?thesis
        by (intro exI [of _ p] exI [of _ "m @ [x]"]) simp
    qed (auto intro: exI [of _ s])
  qed
  with snoc last show ?case
    by auto
qed (simp add: last_line_def)

text \<open>A line that ends in a dollar or hash sign, or that has a greater-than sign anywhere.\<close>

definition prompt_line :: "string \<Rightarrow> bool" where
  "prompt_line s \<longleftrightarrow> s \<noteq> [] \<and> last s \<in> {CHR ''$'', CHR ''#''} \<or> CHR ''>'' \<in> set (last_line s)"


lemma prompt_match:
  assumes "u \<in> set (rests cli_prompt_pattern t)"
  shows "\<exists>c m. t = m @ c # u \<and> c \<in> {CHR ''$'', CHR ''>'', CHR ''#''} \<or> t = CHR ''>'' # m @ u \<and> nl \<notin> set m"
proof -
  have bracket: "ends_in (Cat (Ch (CHR ''['')) (Cat DotPlus (Cat (Ch (CHR ''@''))
      (Cat DotPlus (Cat Space (Cat DotPlus (Cat (Ch (CHR '']'')) (Ch (CHR ''$'')))))))))  (CHR ''$'')"
    and at_colon: "ends_in (Cat DotPlus (Cat (Ch (CHR ''@'')) (Cat DotPlus
      (Cat (Ch (CHR '':'')) (Cat DotPlus (Ch (CHR ''>''))))))) (CHR ''>'')"
    by (intro ends_in_Cat ends_in_Ch)+
  have greater: "\<exists>m. t = CHR ''>'' # m @ u \<and> nl \<notin> set m" if "u \<in> set (rests (Cat (Ch (CHR ''>'')) DotPlus) t)"
    using that by (cases t) (auto simp: dot_plus_iff)
  have "u \<in> set (rests (Ch (CHR ''$'')) t) \<or> u \<in> set (rests (Ch (CHR ''>'')) t) \<or> u \<in> set (rests (Ch (CHR ''#'')) t) \<or>
    u \<in> set (rests (Cat (Ch (CHR ''['')) (Cat DotPlus (Cat (Ch (CHR ''@''))
      (Cat DotPlus (Cat Space (Cat DotPlus (Cat (Ch (CHR '']'')) (Ch (CHR ''$''))))))))) t) \<or>
    u \<in> set (rests (Cat (Ch (CHR ''>'')) DotPlus) t) \<or>
    u \<in> set (rests (Cat DotPlus (Cat (Ch (CHR ''@'')) (Cat DotPlus
      (Cat (Ch (CHR '':'')) (Cat DotPlus (Ch (CHR ''>''))))))) t)"
    using assms unfolding cli_prompt_pattern_def rests.simps(5) set_append Un_iff .
  moreover have "\<exists>m. t = m @ c # u" if "u \<in> set (rests r t)" "ends_in r c" for r c
    using that by (simp add: ends_in_def)
  ultimately have "(\<exists>m. t = m @ CHR ''$'' # u) \<or> (\<exists>m. t = m @ CHR ''>'' # u) \<or> (\<exists>m. t = m @ CHR ''#'' # u) \<or>
      (\<exists>m. t = CHR ''>'' # m @ u \<and> nl \<notin> set m)"
    using bracket at_colon greater ends_in_Ch by metis
  then show ?thesis
    by (elim disjE exE) auto
qed

lemma prompt_line_match:
  assumes "s = p @ t" and "u \<in> set (rests cli_prompt_pattern t)"
  shows "\<exists>s'. s = s' @ u \<and> prompt_line s'"
  using prompt_match [OF assms(2)]
proof (elim exE disjE conjE)
  fix c m
  assume "t = m @ c # u" "c \<in> {CHR ''$'', CHR ''>'', CHR ''#''}"
  moreover have "last_line (p @ m @ [c]) = (if c = nl then [] else last_line (p @ m) @ [c])"
    by (simp add: last_line_def)
  ultimately show ?thesis
    using assms(1) by (intro exI [of _ "p @ m @ [c]"]) (auto simp: prompt_line_def)
next
  fix c m
  assume "t = CHR ''>'' # m @ u" "nl \<notin> set m"
  then show ?thesis
    using assms(1) by (intro exI [of _ "p @ CHR ''>'' # m"]) (auto simp: prompt_line_def in_last_line)
qed

lemma prompt_line_found:
  assumes "prompt_line s"
  shows "\<exists>p t. s = p @ t \<and> u \<in> set (rests cli_prompt_pattern (t @ u))"
proof -
  consider c where "s \<noteq> []" "last s = c" "c \<in> {CHR ''$'', CHR ''#''}"
    | p m where "s = p @ CHR ''>'' # m" "nl \<notin> set m"
    using assms by (auto simp: prompt_line_def in_last_line)
  then show ?thesis
  proof cases
    case 1
    then have "s = butlast s @ [c]"
      by (metis append_butlast_last_id)
    moreover have "u \<in> set (rests cli_prompt_pattern ([c] @ u))"
      using 1(3) by (auto simp: cli_prompt_pattern_def)
    ultimately show ?thesis by blast
  next
    case 2
    have "u \<in> set (rests cli_prompt_pattern ((CHR ''>'' # m) @ u))"
      using 2(2) by (cases "m = []") (auto simp: cli_prompt_pattern_def dot_plus_iff)
    with 2(1) show ?thesis by blast
  qed
qed

text \<open>
  C28. The regular expression for command prompts, with its six alternatives, accepts exactly the texts
  whose last line, a final newline left aside, ends in a dollar or hash sign or has a greater-than sign
  anywhere. The two alternatives with a user name and host, and the requirement that a greater-than
  sign be last, make no difference.
\<close>

theorem command_prompt_lines:
  "is_command_prompt s \<longleftrightarrow> prompt_line s \<or> (\<exists>s'. s = s' @ newline \<and> prompt_line s')"
proof
  assume "is_command_prompt s"
  then show "prompt_line s \<or> (\<exists>s'. s = s' @ newline \<and> prompt_line s')"
    unfolding is_command_prompt_def search_end_iff using prompt_line_match [of s] by fastforce
next
  assume "prompt_line s \<or> (\<exists>s'. s = s' @ newline \<and> prompt_line s')"
  then obtain s' u where "s = s' @ u" "prompt_line s'" "u = [] \<or> u = newline"
    by auto
  then show "is_command_prompt s"
    unfolding is_command_prompt_def search_end_iff using prompt_line_found [of s' u] by (metis append.assoc)
qed

subsection \<open>The shells detect what they are asked for\<close>

lemma serial_exec_loop_detects:
  "serial_exec_loop n f w = (Val out, w') \<Longrightarrow> out = [] \<or> (\<exists>t. out = [t] \<and> py_contains f t)"
proof (induction n arbitrary: w)
  case (Suc n)
  obtain q v where "read_string w = (q, v)" by fastforce
  with Suc show ?case
    by (cases q) (auto simp: py_seq_def py_bind_def split: if_splits)
qed (simp add: py_diverge_def)

interpretation serial: device_shell serial_exec logged_in
proof
  fix w f c out w'
  assume "logged_in w" "trimmed f" and run: "serial_exec c (Some f) w = (Val out, w')"
  obtain q v where q: "write_string (c @ '' ; echo '' @ COMMAND_DONE_STRING @ newline) w = (q, v)" by fastforce
  obtain p u where p: "serial_exec_loop (Suc (length (ser_reads w))) f v = (p, u)" by fastforce
  have "q = Val () \<and> p = Val out"
    using run \<open>logged_in w\<close> q p
    by (cases q; cases p) (auto simp: serial_exec_def serial_exec_command_def py_seq_def py_bind_def simp del: serial_exec_loop.simps)
  with p show "out = [] \<or> (\<exists>t. out = [t] \<and> py_contains f t)"
    using serial_exec_loop_detects by blast
qed

lemma ssh_detect_hit: "f \<noteq> [] \<Longrightarrow> ssh_detect (Some f) lines = (case find (py_contains f) lines of Some l \<Rightarrow> [l] | None \<Rightarrow> [])"
  by (induction lines) auto

lemma ssh_detect_all: "ssh_detect None lines = lines" "ssh_detect (Some []) lines = lines"
  by (induction lines) auto

interpretation ssh: device_shell ssh_exec "\<lambda>_. True"
  by unfold_locales
    (auto simp: ssh_exec_def ssh_exec_command_def py_bind_def trimmed_def ssh_detect_hit find_Some_iff
      split: sum.splits prod.splits option.splits)

lemma dropWhile_contains:
  assumes "\<not> P (hd f)" "f \<noteq> []"
  shows "\<exists>u' v'. dropWhile P (u @ f @ v) = u' @ f @ v'"
proof (cases "\<exists>x\<in>set u. \<not> P x")
  case True
  then have "dropWhile P (u @ f @ v) = dropWhile P u @ f @ v"
    by (auto simp: dropWhile_append1)
  then show ?thesis by blast
next
  case False
  then have "dropWhile P (u @ f @ v) = dropWhile P (f @ v)"
    by (simp add: dropWhile_append2)
  also have "\<dots> = [] @ f @ v"
    using assms by (cases f) auto
  finally show ?thesis by blast
qed

lemma strip_contains:
  assumes "trimmed f" and "py_contains f s"
  shows "py_contains f (py_strip s)"
proof -
  obtain u v where "s = u @ f @ v"
    using assms(2) by (auto simp: py_contains_iff)
  then obtain u1 v1 where 1: "dropWhile is_py_space s = u1 @ f @ v1"
    using dropWhile_contains [of is_py_space f u v] assms(1) by (auto simp: trimmed_def)
  obtain u2 v2 where "dropWhile is_py_space (rev v1 @ rev f @ rev u1) = u2 @ rev f @ v2"
    using dropWhile_contains [of is_py_space "rev f" "rev v1" "rev u1"] assms(1) by (auto simp: trimmed_def hd_rev)
  then have "py_strip s = rev v2 @ f @ rev u2"
    by (simp add: py_strip_def 1)
  then show ?thesis
    by (auto simp: py_contains_iff)
qed

interpretation adb: device_shell adb_exec "\<lambda>_. True"
  by unfold_locales
    (auto simp: adb_exec_def adb_exec_command_def py_bind_def strip_contains trimmed_def
      split: sum.splits if_splits)

subsection \<open>What a command over the serial line gives\<close>

lemma serial_loop_silent: "ser_reads w = [] \<Longrightarrow> f \<noteq> [] \<Longrightarrow> fst (serial_exec_loop n f w) = Diverge"
  by (induction n arbitrary: w)
    (auto simp: py_diverge_def py_seq_def py_bind_def read_string_def COMMAND_DONE_STRING_def)

lemma serial_loop_reads:
  "ser_reads w = map Inr ts \<Longrightarrow> length ts < n \<Longrightarrow> f \<noteq> [] \<Longrightarrow> fst (serial_exec_loop n f w) =
     (case find (\<lambda>l. py_contains f l \<or> py_contains COMMAND_DONE_STRING l) (map butlast ts) of
        Some l \<Rightarrow> Val (if py_contains f l then [l] else [])
      | None \<Rightarrow> Diverge)"
proof (induction ts arbitrary: n w)
  case Nil
  then show ?case by (simp add: serial_loop_silent)
next
  case (Cons t ts)
  then obtain k where "n = Suc k" "length ts < k"
    by (cases n) auto
  with Cons show ?case
    by (simp add: py_seq_def py_bind_def read_string_def)
qed

lemma serial_loop_no_filter:
  "ser_reads w = map Inr ts \<Longrightarrow> fst (serial_exec_loop (Suc n) [] w) = Val [case ts of [] \<Rightarrow> [] | t # _ \<Rightarrow> butlast t]"
  by (cases ts) (simp_all add: py_seq_def py_bind_def read_string_def)

definition stderr_part :: "bool \<Rightarrow> string option" where
  "stderr_part return_stderr = (if return_stderr then Some [] else None)"

text \<open>
  What running a command over a serial line gives. With a filter, the reads are taken one by one up
  to the first that contains the filter or the marker of the command's end, and the result is that
  read if it has the filter, else nothing; text split over two reads is not found, and when neither
  comes the call never returns. Without a filter only the first read is returned, not all output
  lines as documented. When not logged in, the result is one empty text.
\<close>

theorem serial_exec_result:
  assumes "ser_writes w = []" and "ser_reads w = map Inr ts"
  shows "(logged_in w \<longrightarrow> f \<noteq> [] \<longrightarrow> fst (serial_exec_command c (Some f) e w) =
        (case find (\<lambda>l. py_contains f l \<or> py_contains COMMAND_DONE_STRING l) (map butlast ts) of
           Some l \<Rightarrow> Val (if py_contains f l then [l] else [], stderr_part e)
         | None \<Rightarrow> Diverge)) \<and>
     (logged_in w \<longrightarrow> fst (serial_exec_command c None e w) =
        Val ([case ts of [] \<Rightarrow> [] | t # _ \<Rightarrow> butlast t], stderr_part e)) \<and>
     (\<not> logged_in w \<longrightarrow> serial_exec_command c g e w = (Val ([''''], None), w))"
proof -
  let ?v = "w\<lparr>ser_log := ser_log w @ [Sent (c @ '' ; echo '' @ COMMAND_DONE_STRING @ newline)]\<rparr>"
  have run: "fst (serial_exec_command c g e w) =
      (case fst (serial_exec_loop (Suc (length ts)) (case g of Some f \<Rightarrow> f | None \<Rightarrow> []) ?v) of
         Val d \<Rightarrow> Val (d, stderr_part e) | Exn x \<Rightarrow> Exn x | Diverge \<Rightarrow> Diverge)" if "logged_in w" for g
    using that assms
    by (simp add: serial_exec_command_def write_string_def py_seq_def py_bind_def stderr_part_def
        del: serial_exec_loop.simps split: prod.split res.split)
  have "fst (serial_exec_loop (Suc (length ts)) f ?v) =
     (case find (\<lambda>l. py_contains f l \<or> py_contains COMMAND_DONE_STRING l) (map butlast ts) of
        Some l \<Rightarrow> Val (if py_contains f l then [l] else [])
      | None \<Rightarrow> Diverge)" if "f \<noteq> []"
    using that assms(2) by (intro serial_loop_reads) simp_all
  moreover have "fst (serial_exec_loop (Suc (length ts)) [] ?v) = Val [case ts of [] \<Rightarrow> [] | t # _ \<Rightarrow> butlast t]"
    using assms(2) by (intro serial_loop_no_filter) simp
  ultimately show ?thesis
    by (auto simp: run serial_exec_command_def [of c g e] py_bind_def simp del: serial_exec_loop.simps split: option.split)
qed

definition demo_serial :: serial_shell where
  "demo_serial = \<lparr>serial_device_name = ''/dev/ttyUSB0'', serial_username = Some ''root'', serial_password = Some ''toor'',
     logged_in = True, last_read = [], open_error = None,
     ser_reads = [Inr (''uid=0'' @ newline), Inr (''clarity_command_done'' @ newline)], ser_writes = [], ser_log = []\<rparr>"

theorem serial_exec_result_witness:
  "fst (serial_exec_command ''id'' (Some ''uid'') False demo_serial) = Val ([''uid=0''], None) \<and>
   fst (serial_exec_command ''id'' (Some ''gid'') False demo_serial) = Val ([], None) \<and>
   fst (serial_exec_command ''id'' None False demo_serial) = Val ([''uid=0''], None)"
proof -
  have writes: "ser_writes demo_serial = []"
    and reads: "ser_reads demo_serial = map Inr [''uid=0'' @ newline, ''clarity_command_done'' @ newline]"
    and logged: "logged_in demo_serial"
    by (simp_all add: demo_serial_def)
  note result = serial_exec_result [OF writes reads, of _ "''id''" False]
  show ?thesis
    using result [of "''uid''" None] result [of "''gid''" None] logged
    by (simp add: newline_def COMMAND_DONE_STRING_def stderr_part_def)
qed

subsection \<open>Logging in\<close>

text \<open>
  What every method of the line does to the state: the credentials and the flag stay, and the journal
  grows by reads and by writes of which each is a plain one or the password right after its prompt.
\<close>

definition plain_writes :: "string option \<Rightarrow> string set" where
  "plain_writes user = {newline, ''ps -p $$ -o comm='' @ newline, fstring user @ newline}"

definition prompted :: "string option \<Rightarrow> string option \<Rightarrow> serial_event list \<Rightarrow> bool" where
  "prompted user password l \<longleftrightarrow> (\<forall>pre x post. l = pre @ Sent x # post \<longrightarrow> x \<in> plain_writes user \<or>
     x = fstring password @ newline \<and> (\<exists>g pre'. pre = pre' @ [Got g] \<and> is_password_prompt g))"

lemma prompted_Got: "prompted user password [Got g]" "prompted user password []"
  by (auto simp: prompted_def Cons_eq_append_conv)

lemma prompted_plain: "x \<in> plain_writes user \<Longrightarrow> prompted user password [Sent x]"
  by (auto simp: prompted_def Cons_eq_append_conv)

lemma prompted_password:
  "is_password_prompt g \<Longrightarrow> prompted user password [Got g, Sent (fstring password @ newline)]"
  by (auto simp: prompted_def Cons_eq_append_conv)

lemma prompted_append:
  assumes "prompted user password l" and "prompted user password k"
  shows "prompted user password (l @ k)"
  unfolding prompted_def
proof (intro allI impI)
  fix pre x post
  assume "l @ k = pre @ Sent x # post"
  then consider r where "l = pre @ Sent x # r" | q where "k = q @ Sent x # post" "pre = l @ q"
    by (auto simp: append_eq_append_conv2 append_eq_Cons_conv)
  then show "x \<in> plain_writes user \<or>
     x = fstring password @ newline \<and> (\<exists>g pre'. pre = pre' @ [Got g] \<and> is_password_prompt g)"
  proof cases
    case 1
    then show ?thesis using assms(1) unfolding prompted_def by blast
  next
    case 2
    then have "x \<in> plain_writes user \<or>
       x = fstring password @ newline \<and> (\<exists>g pre'. q = pre' @ [Got g] \<and> is_password_prompt g)"
      using assms(2) unfolding prompted_def by blast
    with 2(2) show ?thesis by auto
  qed
qed

definition serial_io :: "string option \<Rightarrow> string option \<Rightarrow> serial_shell \<Rightarrow> serial_shell \<Rightarrow> bool" where
  "serial_io user password s t \<longleftrightarrow> logged_in t = logged_in s \<and>
     serial_username t = serial_username s \<and> serial_password t = serial_password s \<and>
     (\<exists>l. ser_log t = ser_log s @ l \<and> prompted user password l)"

lemma serial_io_refl [intro!, simp]: "reflp (serial_io user password)"
  by (auto simp: reflp_def serial_io_def prompted_Got)

lemma serial_io_trans [intro!, simp]: "transp (serial_io user password)"
  by (auto simp: transp_def serial_io_def prompted_append)

lemma read_string_io: "moves (serial_io user password) read_string"
  by (rule movesI) (auto simp: read_string_def serial_io_def prompted_Got split: list.splits sum.splits)

lemma write_string_io: "x \<in> plain_writes user \<Longrightarrow> moves (serial_io user password) (write_string x)"
  by (rule movesI) (auto simp: write_string_def serial_io_def prompted_Got prompted_plain split: list.splits option.splits)

lemma read_string_last: "read_string s = (Val n, t) \<Longrightarrow> n = length (last_read t) \<and> ser_log t = ser_log s @ [Got (last_read t)]"
  by (auto simp: read_string_def split: list.splits sum.splits)

text \<open>Reading a prompt and answering it with the password.\<close>

lemma answer_prompt_io:
  "moves (serial_io user password)
     (py_seq read_string
       (\<lambda>w. if is_password_prompt (last_read w)
            then py_seq (write_string (fstring password @ newline)) (py_seq read_string (py_ret ())) w
            else (Val (), w)))"
proof (rule movesI)
  fix s r t
  assume run: "py_seq read_string
       (\<lambda>w. if is_password_prompt (last_read w)
            then py_seq (write_string (fstring password @ newline)) (py_seq read_string (py_ret ())) w
            else (Val (), w)) s = (r, t)"
  obtain q u where q: "read_string s = (q, u)" by fastforce
  have io: "serial_io user password s u"
    using movesD [OF read_string_io q] .
  show "serial_io user password s t"
  proof (cases "\<exists>n. q = Val n \<and> is_password_prompt (last_read u)")
    case True
    then obtain n where n: "q = Val n" "is_password_prompt (last_read u)" by blast
    obtain p v where p: "write_string (fstring password @ newline) u = (p, v)" by fastforce
    have "ser_log v = ser_log s @ [Got (last_read u)] \<and> p \<noteq> Val () \<or>
        ser_log v = ser_log s @ [Got (last_read u), Sent (fstring password @ newline)] \<and> p = Val ()"
      and "logged_in v = logged_in u" "serial_username v = serial_username u" "serial_password v = serial_password u"
      using p read_string_last [of s n u] q n(1) by (auto simp: write_string_def split: list.splits option.splits)
    then have sv: "serial_io user password s v"
      using io n(2) prompted_Got prompted_password by (auto simp: serial_io_def)
    have "serial_io user password v t \<or> t = v"
    proof (cases p)
      case (Val x)
      obtain p' v' where "read_string v = (p', v')" by fastforce
      then show ?thesis
        using run q n p Val movesD [OF read_string_io] by (auto simp: py_seq_def py_bind_def split: res.splits)
    qed (use run q n p in \<open>auto simp: py_seq_def py_bind_def\<close>)
    with sv show ?thesis
      by (metis serial_io_trans transpD)
  next
    case False
    with run q have "t = u"
      by (cases q) (auto simp: py_seq_def py_bind_def)
    with io show ?thesis by simp
  qed
qed

lemma py_seq_assoc: "py_seq l (py_seq m n) = py_seq (py_seq l m) n"
  by (rule ext) (simp add: py_seq_def py_bind_def split: prod.splits res.splits)

lemma login_with_password_io: "moves (serial_io user password) (login_with_password i user password)"
proof (induction i)
  case (Suc i)
  then show ?case
    unfolding login_with_password.simps
    by (subst (2) py_seq_assoc) (intro moves_seq moves_bind write_string_io answer_prompt_io serial_io_trans;
        auto simp: plain_writes_def)
qed (simp only: login_with_password.simps moves_ret serial_io_refl)

text \<open>One round: the flag is set exactly when the round ends the loop with success.\<close>

definition logged_by :: "serial_shell \<Rightarrow> bool option \<Rightarrow> serial_shell \<Rightarrow> bool" where
  "logged_by s b t \<longleftrightarrow> serial_io (serial_username s) (serial_password s) s (t\<lparr>logged_in := logged_in s\<rparr>) \<and>
     (logged_in t \<longleftrightarrow> (case b of Some r \<Rightarrow> r | None \<Rightarrow> False))"

lemma logged_by_io: "serial_io (serial_username s) (serial_password s) s t \<Longrightarrow> \<not> logged_in s \<Longrightarrow> logged_by s None t \<and> logged_by s (Some False) t"
  by (auto simp: logged_by_def serial_io_def)

lemma logged_by_set: "serial_io (serial_username s) (serial_password s) s t \<Longrightarrow> logged_by s (Some True) (t\<lparr>logged_in := True\<rparr>)"
  by (auto simp: logged_by_def serial_io_def)

lemma logged_by_trans:
  "serial_io (serial_username s) (serial_password s) s t \<Longrightarrow> logged_by t b u \<Longrightarrow> logged_by s b u"
  by (auto simp: logged_by_def serial_io_def prompted_append)

lemma logged_by_not: "logged_by s None t \<Longrightarrow> \<not> logged_in s \<Longrightarrow> serial_io (serial_username s) (serial_password s) s t \<and> \<not> logged_in t"
  by (auto simp: logged_by_def serial_io_def)

lemma read_string_returns: "returns read_string w"
  by (simp add: returns_def read_string_def split: list.splits sum.splits)

lemma write_string_returns: "returns (write_string x) w"
  by (simp add: returns_def write_string_def split: list.splits option.splits)

lemma login_with_password_returns: "returns (login_with_password i user password) w"
proof (induction i arbitrary: w)
  case (Suc i)
  have answer: "returns (\<lambda>w. if is_password_prompt (last_read w)
      then py_seq (write_string (fstring password @ newline)) (py_seq read_string (py_ret ())) w else (Val (), w)) v" for v
  proof -
    have "returns (py_seq (write_string (fstring password @ newline)) (py_seq read_string (py_ret ()))) v"
      by (intro returns_seq write_string_returns read_string_returns returns_ret)
    then show ?thesis by (simp add: returns_def)
  qed
  show ?case
    unfolding login_with_password.simps
    by (intro returns_seq returns_bind write_string_returns read_string_returns answer returns_get) (simp add: Suc)
qed simp

lemma io_returns:
  assumes "moves (serial_io user password) m" and "returns m s"
  obtains a t where "m s = (Val a, t)" "serial_io user password s t" | e t where "m s = (Exn e, t)" "serial_io user password s t"
proof -
  obtain q t where q: "m s = (q, t)" by fastforce
  moreover have "serial_io user password s t"
    using movesD [OF assms(1) q] .
  ultimately show ?thesis
    using that assms(2) by (cases q) (auto simp: returns_def)
qed

lemma serial_io_fields:
  "serial_io user password s t \<Longrightarrow> logged_in t = logged_in s \<and> serial_username t = serial_username s \<and> serial_password t = serial_password s"
  by (simp add: serial_io_def)

lemma login_step_cases:
  assumes "\<not> logged_in s" and "login_step e u s = (r, t)"
  shows "logged_by s (case r of Val (Inl b) \<Rightarrow> Some b | _ \<Rightarrow> None) t \<and> r \<noteq> Diverge"
proof -
  let ?io = "serial_io (serial_username s) (serial_password s)"
  show ?thesis
  proof (rule io_returns [OF read_string_io [of "serial_username s" "serial_password s"] read_string_returns [of s]])
    fix x v
    assume "read_string s = (Exn x, v)" "?io s v"
    with assms show ?thesis
      by (auto simp: login_step_def py_bind_def logged_by_io)
  next
    fix n v
    assume read: "read_string s = (Val n, v)" and v: "?io s v"
    have fields: "\<not> logged_in v" "serial_username v = serial_username s" "serial_password v = serial_password s"
      using serial_io_fields [OF v] assms(1) by simp_all
    consider "n > 0" "is_command_prompt (last_read v)"
      | "n > 0" "\<not> is_command_prompt (last_read v)" "is_login_prompt (last_read v)"
      | "n > 0" "\<not> is_command_prompt (last_read v)" "\<not> is_login_prompt (last_read v)"
      | "n = 0" "e + 1 > 5" | "n = 0" "\<not> e + 1 > 5" by blast
    then show ?thesis
    proof cases
      case 2
      show ?thesis
      proof (rule io_returns [OF login_with_password_io login_with_password_returns [of login_retries "serial_username s" "serial_password s" v]])
        fix ok v'
        assume "login_with_password login_retries (serial_username s) (serial_password s) v = (Val ok, v')" "?io v v'"
        then show ?thesis
          using assms(2) 2 read fields logged_by_io [of v v'] logged_by_set [of v v'] logged_by_trans [OF v]
          by (auto simp: login_step_def py_bind_def py_seq_def set_logged_in_def split: if_splits)
      next
        fix x v'
        assume "login_with_password login_retries (serial_username s) (serial_password s) v = (Exn x, v')" "?io v v'"
        then show ?thesis
          using assms(2) 2 read fields logged_by_io [of v v'] logged_by_trans [OF v] by (auto simp: login_step_def py_bind_def)
      qed
    next
      case 4
      show ?thesis
      proof (rule io_returns [OF write_string_io write_string_returns [of newline v]])
        show "newline \<in> plain_writes (serial_username s)" by (simp add: plain_writes_def)
      next
        fix a v'
        assume "write_string newline v = (Val a, v')" "?io v v'"
        then show ?thesis
          using assms(2) 4 read fields logged_by_io [of v v'] logged_by_trans [OF v]
          by (auto simp: login_step_def py_bind_def py_seq_def)
      next
        fix x v'
        assume "write_string newline v = (Exn x, v')" "?io v v'"
        then show ?thesis
          using assms(2) 4 read fields logged_by_io [of v v'] logged_by_trans [OF v]
          by (auto simp: login_step_def py_bind_def py_seq_def)
      qed
    qed (use assms read v fields logged_by_io logged_by_set in
        \<open>auto simp: login_step_def py_bind_def py_seq_def set_logged_in_def split: if_splits\<close>)
  qed
qed

lemma login_loop_cases:
  assumes "\<not> logged_in s" and "login_loop n e u s = (r, t)"
  shows "logged_by s (case r of Val b \<Rightarrow> Some b | _ \<Rightarrow> None) t \<and> (\<forall>x. r \<noteq> Exn x)"
  using assms
proof (induction n arbitrary: e u s)
  case 0
  then show ?case
    by (auto simp: py_diverge_def logged_by_io serial_io_def prompted_Got)
next
  case (Suc n)
  obtain q v where q: "login_step e u s = (q, v)" by fastforce
  have step: "logged_by s (case q of Val (Inl b) \<Rightarrow> Some b | _ \<Rightarrow> None) v" "q \<noteq> Diverge"
    using login_step_cases [OF Suc.prems(1) q] by simp_all
  show ?case
  proof (cases "\<exists>e' u'. q = Val (Inr (e', u'))")
    case True
    then obtain e' u' where q': "q = Val (Inr (e', u'))" by blast
    then have io: "serial_io (serial_username s) (serial_password s) s v" "\<not> logged_in v"
      using logged_by_not [of s v] step(1) Suc.prems(1) by simp_all
    have "login_loop n e' u' v = (r, t)"
      using Suc.prems q q' by (simp add: py_bind_def py_catch_def)
    then show ?thesis
      using Suc.IH io logged_by_trans by blast
  next
    case False
    then consider b where "q = Val (Inl b)" | x where "q = Exn x"
      using step(2) by (cases q) (auto split: sum.splits, metis obj_sumE surj_pair)
    then show ?thesis
    proof cases
      case 1
      then have "r = Val b \<and> t = v"
        using Suc.prems q by (simp add: py_bind_def py_catch_def)
      with step(1) 1 show ?thesis by simp
    next
      case 2
      then have "r = Val False \<and> t = v"
        using Suc.prems q by (simp add: py_bind_def py_catch_def)
      with step(1) 2 show ?thesis by (simp add: logged_by_def)
    qed
  qed
qed

lemma start_login_cases:
  "\<not> logged_in s \<Longrightarrow> start_login_loop s = (r, t) \<Longrightarrow>
     logged_by s (case r of Val b \<Rightarrow> Some b | _ \<Rightarrow> None) t \<and> (\<forall>x. r \<noteq> Exn x)"
  unfolding start_login_loop_def by (rule login_loop_cases)

lemma validate_prompt_io:
  "moves (serial_io user password) (validate_prompt name)" "returns (validate_prompt name) s"
  unfolding validate_prompt_def
  by (intro moves_seq write_string_io read_string_io moves_get serial_io_refl serial_io_trans; simp add: plain_writes_def)
    (intro returns_seq write_string_returns read_string_returns returns_get)

lemma serial_login_cases:
  assumes "\<not> logged_in s" and "serial_login s = (r, t)"
  shows "logged_by s (case r of Val b \<Rightarrow> Some b | _ \<Rightarrow> None) t"
proof -
  let ?io = "serial_io (serial_username s) (serial_password s)"
  have greet: "moves ?io (py_seq (write_string newline) read_string)" "returns (py_seq (write_string newline) read_string) s"
    by (intro moves_seq write_string_io read_string_io serial_io_trans; simp add: plain_writes_def)
      (intro returns_seq write_string_returns read_string_returns)
  have run: "serial_login s = py_seq (py_seq (write_string newline) read_string) (py_bind (py_get last_read) (\<lambda>l.
       if is_command_prompt l
       then py_bind (validate_prompt ''bash'') (\<lambda>ok.
              if ok then py_seq set_logged_in (py_ret True) else start_login_loop)
       else start_login_loop)) s"
    unfolding serial_login_def by (subst py_seq_assoc) (rule refl)
  show ?thesis
  proof (rule io_returns [OF greet])
    fix x v
    assume "py_seq (write_string newline) read_string s = (Exn x, v)" "?io s v"
    then show ?thesis
      using assms logged_by_io [of s v] unfolding run by (auto simp: py_seq_def [of "py_seq _ _"] py_bind_def)
  next
    fix n v
    assume g: "py_seq (write_string newline) read_string s = (Val n, v)" and v: "?io s v"
    have fields: "\<not> logged_in v" "serial_username v = serial_username s" "serial_password v = serial_password s"
      using serial_io_fields [OF v] assms(1) by simp_all
    have rest: "(if is_command_prompt (last_read v)
       then py_bind (validate_prompt ''bash'') (\<lambda>ok.
              if ok then py_seq set_logged_in (py_ret True) else start_login_loop)
       else start_login_loop) v = (r, t)"
      using assms(2) g unfolding run by (simp add: py_seq_def [of "py_seq _ _"] py_bind_def)
    show ?thesis
    proof (cases "is_command_prompt (last_read v)")
      case True
      show ?thesis
      proof (rule io_returns [OF validate_prompt_io(1) validate_prompt_io(2) [of "''bash''" v]])
        fix ok v'
        assume p: "validate_prompt ''bash'' v = (Val ok, v')" "?io v v'"
        then have io: "?io s v'"
          using v serial_io_trans transpD by metis
        have "\<not> logged_in v'" "serial_username v' = serial_username s" "serial_password v' = serial_password s"
          using serial_io_fields [OF p(2)] fields by simp_all
        with io p(1) rest True show ?thesis
          using start_login_cases [of v' r t] logged_by_trans [OF io] logged_by_set [OF io]
          by (cases ok) (auto simp: py_bind_def py_seq_def set_logged_in_def)
      next
        fix x v'
        assume p: "validate_prompt ''bash'' v = (Exn x, v')" "?io v v'"
        then have io: "?io s v'"
          using v serial_io_trans transpD by metis
        with p(1) rest True assms(1) show ?thesis
          using logged_by_io [OF io] by (auto simp: py_bind_def)
      qed
    next
      case False
      with rest show ?thesis
        using start_login_cases [of v r t] fields logged_by_trans [OF v] by simp
    qed
  qed
qed

text \<open>
  C27. Logging in over a serial line. The password is written only right after a text with a password
  prompt was read, and everything else that is written is a newline, the user name or the check of
  the shell; the flag that allows commands is set exactly when \<open>_login\<close> returns \<open>True\<close>, and the
  constructor then returns; when it returns \<open>False\<close> the constructor raises.
\<close>

theorem serial_login_safe:
  assumes "\<not> logged_in w" and "serial_login w = (r, w')"
  shows "(\<exists>l. ser_log w' = ser_log w @ l \<and> (\<forall>pre x post. l = pre @ Sent x # post \<longrightarrow>
        x \<in> {newline, ''ps -p $$ -o comm='' @ newline, fstring (serial_username w) @ newline} \<or>
        x = fstring (serial_password w) @ newline \<and> (\<exists>g pre'. pre = pre' @ [Got g] \<and> py_contains ''Password:'' g))) \<and>
     (logged_in w' \<longleftrightarrow> r = Val True) \<and>
     (serial_device_name w \<noteq> [] \<longrightarrow> open_error w = None \<longrightarrow> last_read w = [] \<longrightarrow>
        serial_post_init w = (case r of
            Val ok \<Rightarrow> (if ok then Val () else Exn (DeviceShellException ''serial connection failed''))
          | Exn e \<Rightarrow> Exn e | Diverge \<Rightarrow> Diverge, w'))"
proof -
  have "logged_by w (case r of Val b \<Rightarrow> Some b | _ \<Rightarrow> None) w'"
    using assms by (rule serial_login_cases)
  then have flag: "logged_in w' \<longleftrightarrow> r = Val True"
    and log: "\<exists>l. ser_log w' = ser_log w @ l \<and> prompted (serial_username w) (serial_password w) l"
    by (auto simp: logged_by_def serial_io_def split: res.splits)
  have init: "serial_post_init w = (case r of
            Val ok \<Rightarrow> (if ok then Val () else Exn (DeviceShellException ''serial connection failed''))
          | Exn e \<Rightarrow> Exn e | Diverge \<Rightarrow> Diverge, w')"
    if "serial_device_name w \<noteq> []" "open_error w = None" "last_read w = []"
  proof -
    have same: "w\<lparr>logged_in := False, last_read := []\<rparr> = w"
      using that assms(1) by (cases w) simp
    show ?thesis
      unfolding serial_post_init_def serial_init_def same py_bind_def assms(2) using that by (simp split: res.split)
  qed
  show ?thesis
    using flag init log unfolding prompted_def plain_writes_def is_password_prompt_def by blast
qed

definition demo_login :: serial_shell where
  "demo_login = demo_serial\<lparr>logged_in := False,
     ser_reads := [Inr ''?'', Inr ''board login: '', Inr ''Password: '', Inr ''$ '']\<rparr>"

theorem serial_login_safe_witness:
  "\<exists>w' l. serial_login demo_login = (Val True, w') \<and> logged_in w' \<and> ser_log w' = ser_log demo_login @ l \<and>
     (\<forall>pre x post. l = pre @ Sent x # post \<longrightarrow>
        x \<in> {newline, ''ps -p $$ -o comm='' @ newline, ''root'' @ newline} \<or>
        x = ''toor'' @ newline \<and> (\<exists>g pre'. pre = pre' @ [Got g] \<and> py_contains ''Password:'' g))"
proof -
  obtain r w' where run: "serial_login demo_login = (r, w')" by fastforce
  moreover have "fst (serial_login demo_login) = Val True"
    by code_simp
  moreover have "\<not> logged_in demo_login" and names: "serial_username demo_login = Some ''root''" "serial_password demo_login = Some ''toor''"
    by (simp_all add: demo_login_def demo_serial_def)
  ultimately show ?thesis
    using serial_login_safe [of demo_login r w'] unfolding names by (simp only: fstring_def option.case fst_conv) blast
qed

text \<open>
  The fuel of the login loop is enough: when it runs out, the line is silent and no write is left to
  fail, and then the loop never ends, whatever the fuel.
\<close>

definition left_rounds :: "nat \<Rightarrow> serial_shell \<Rightarrow> nat" where
  "left_rounds e w = 6 * length (ser_reads w) + 6 * length (ser_writes w) + (6 - e)"

lemma login_step_silent:
  assumes "ser_reads w = []" and "ser_writes w = []"
  shows "\<exists>e' w'. login_step e u w = (Val (Inr (e', u)), w') \<and> ser_reads w' = [] \<and> ser_writes w' = [] \<and> logged_in w' = logged_in w"
  using assms by (auto simp: login_step_def read_string_def write_string_def py_bind_def py_seq_def)

lemma login_loop_silent:
  "ser_reads w = [] \<Longrightarrow> ser_writes w = [] \<Longrightarrow> \<not> logged_in w \<Longrightarrow> fst (login_loop n e u w) = Diverge"
proof (induction n arbitrary: e w)
  case (Suc n)
  obtain e' w' where "login_step e u w = (Val (Inr (e', u)), w')" "ser_reads w' = []" "ser_writes w' = []" "\<not> logged_in w'"
    using login_step_silent [OF Suc.prems(1,2), of e u] Suc.prems(3) by auto
  with Suc show ?case
    by (simp add: py_bind_def py_catch_def)
qed (simp add: py_diverge_def)

lemma login_step_progress:
  assumes "login_step e u w = (Val (Inr (e', u')), w')" and "e \<le> 5"
  shows "e' \<le> 5 \<and> (left_rounds e' w' < left_rounds e w \<or> ser_reads w' = [] \<and> ser_writes w' = [])"
proof -
  obtain q v where q: "read_string w = (q, v)" by fastforce
  have v: "ser_writes v = ser_writes w"
    "ser_reads w = [] \<and> ser_reads v = [] \<or> (\<exists>x. ser_reads w = x # ser_reads v)"
    using q by (auto simp: read_string_def split: list.splits sum.splits)
  show ?thesis
  proof (cases "e + 1 > 5 \<and> q = Val 0")
    case True
    then show ?thesis
      using assms q v
      by (auto simp: login_step_def py_bind_def py_seq_def write_string_def left_rounds_def split: list.splits option.splits)
  next
    case False
    then have "w' = v \<and> (e' = e \<and> ser_reads w \<noteq> [] \<or> e' = e + 1 \<and> e < 5)"
      using assms q v
      by (auto simp: login_step_def py_bind_def py_seq_def read_string_def set_logged_in_def
          split: res.splits if_splits prod.splits list.splits)
    with v assms(2) show ?thesis
      by (auto simp: left_rounds_def)
  qed
qed

lemma login_fuel_enough:
  assumes "\<not> logged_in w" and "fst (start_login_loop w) = Diverge"
  shows "fst (login_loop n 0 0 w) = Diverge"
proof -
  have "left_rounds e w < k \<Longrightarrow> e \<le> 5 \<Longrightarrow> \<not> logged_in w \<Longrightarrow> fst (login_loop k e u w) = Diverge \<Longrightarrow>
      fst (login_loop n e u w) = Diverge" for k e u n and w :: serial_shell
  proof (induction k arbitrary: e u n w)
    case (Suc k)
    obtain q v where q: "login_step e u w = (q, v)" by fastforce
    show ?case
    proof (cases n)
      case (Suc m)
      show ?thesis
      proof (cases "\<exists>e' u'. q = Val (Inr (e', u'))")
        case True
        then obtain e' u' where q': "q = Val (Inr (e', u'))" by blast
        have "\<not> logged_in v"
          using login_step_cases [OF Suc.prems(3) q] q' by (simp add: logged_by_def)
        moreover have "fst (login_loop k e' u' v) = Diverge"
          using Suc.prems(3,4) q q' by (simp add: py_bind_def py_catch_def)
        moreover have "e' \<le> 5 \<and> (left_rounds e' v < k \<or> ser_reads v = [] \<and> ser_writes v = [])"
          using login_step_progress [of e u w e' u' v] q q' Suc.prems(1,2) by auto
        ultimately have "fst (login_loop m e' u' v) = Diverge"
          using Suc.IH login_loop_silent by blast
        then show ?thesis
          using Suc.prems(3) q q' \<open>n = Suc m\<close> by (simp add: py_bind_def py_catch_def)
      next
        case False
        then show ?thesis
          using Suc.prems(3,4) q \<open>n = Suc m\<close> login_step_cases [OF Suc.prems(3) q]
          by (cases q) (auto simp: py_bind_def py_catch_def split: sum.splits)
      qed
    qed (simp add: py_diverge_def)
  qed simp
  moreover have "left_rounds 0 w < login_fuel w"
    by (simp add: left_rounds_def login_fuel_def)
  ultimately show ?thesis
    using assms unfolding start_login_loop_def by blast
qed

text \<open>Whatever goes wrong while the ssh shell is made, \<open>DeviceShellException\<close> is raised.\<close>

lemma ssh_post_init_cases:
  "fst (ssh_post_init w) = Val () \<and> ssh_up (snd (ssh_post_init w)) \<and> sftp_up (snd (ssh_post_init w)) \<or>
   fst (ssh_post_init w) = Exn shell_failed"
  by (auto simp: ssh_post_init_def init_ssh_def py_catch_def Let_def split: sum.split option.split)

text \<open>An adb shell that was made has a device, and its credentials were accepted.\<close>

lemma adb_post_init_connected:
  assumes "adb_post_init w = (Val (), w')"
  shows "\<exists>t s. adb_device w' = Some t \<and> adb_signer w = Inr s \<and> adb_connect w' t s = Inr True"
  using assms
  by (auto simp: adb_post_init_def init_adb_def py_bind_def Let_def split: sum.splits option.splits if_splits)

end
