(* ===== verification/Ip_Utils.thy ===== *)
theory Ip_Utils
  imports Prelude
begin

section \<open>Building addresses\<close>

text \<open>
  Models \<open>utils/ip/ip_utils.py\<close>. An address is its number; the generator of random numbers is a
  parameter, which gives a number within the bounds it is called with.
\<close>

datatype ip_address = IPv4Address nat | IPv6Address nat | NotAnAddress

definition IPV4_LEN_BITS :: nat where "IPV4_LEN_BITS = 32"
definition IPV6_LEN_BITS :: nat where "IPV6_LEN_BITS = 128"

text \<open>\<open>random.randint(a, b)\<close> raises on an empty range.\<close>

definition randint :: "(int \<Rightarrow> int \<Rightarrow> int) \<Rightarrow> int \<Rightarrow> int \<Rightarrow> exn + int" where
  "randint random a b = (if a \<le> b then Inr (random a b) else Inl (ValueError ''empty range''))"

text \<open>The network address: the base with its host part cleared.\<close>

definition network_address :: "nat \<Rightarrow> nat \<Rightarrow> nat" where
  "network_address base num_host_bits = base - base mod 2 ^ num_host_bits"

text \<open>One of the two branches, for addresses of \<open>len_bits\<close> bits.\<close>

definition build_in_network ::
  "(int \<Rightarrow> int \<Rightarrow> int) \<Rightarrow> nat \<Rightarrow> nat \<Rightarrow> int \<Rightarrow> int option \<Rightarrow> exn + nat option" where
  "build_in_network random len_bits base network_prefix host_part =
     (if \<not> (0 \<le> network_prefix \<and> network_prefix < int len_bits) then Inr None
      else let num_host_bits = len_bits - nat network_prefix;
               max_host_value = 2 ^ num_host_bits - 1
           in case (case host_part of None \<Rightarrow> randint random 1 (max_host_value - 1) | Some h \<Rightarrow> Inr h) of
                Inl e \<Rightarrow> Inl e
              | Inr h \<Rightarrow>
                  if \<not> (0 \<le> h \<and> h \<le> max_host_value) then Inr None
                  else Inr (Some (network_address base num_host_bits + nat h)))"

definition build_ip :: "(int \<Rightarrow> int \<Rightarrow> int) \<Rightarrow> ip_address \<Rightarrow> int \<Rightarrow> int option \<Rightarrow> exn + ip_address option" where
  "build_ip random base network_prefix host_part =
     (case base of
        IPv4Address b \<Rightarrow> map_sum id (map_option IPv4Address)
          (build_in_network random IPV4_LEN_BITS b network_prefix host_part)
      | IPv6Address b \<Rightarrow> map_sum id (map_option IPv6Address)
          (build_in_network random IPV6_LEN_BITS b network_prefix host_part)
      | NotAnAddress \<Rightarrow> Inr None)"

subsection \<open>The address built\<close>

lemma host_in_network:
  fixes base :: nat
  assumes "h < 2 ^ k"
  shows "(network_address base k + h) div 2 ^ k = base div 2 ^ k" "(network_address base k + h) mod 2 ^ k = h"
proof -
  have "network_address base k = base div 2 ^ k * 2 ^ k"
    by (simp add: network_address_def minus_mod_eq_div_mult)
  then show "(network_address base k + h) div 2 ^ k = base div 2 ^ k" "(network_address base k + h) mod 2 ^ k = h"
    using assms by simp_all
qed

lemma network_fits:
  fixes base :: nat
  assumes "base < 2 ^ n" and "k \<le> n" and "h < 2 ^ k"
  shows "network_address base k + h < 2 ^ n"
proof -
  have "base div 2 ^ k < 2 ^ (n - k)"
    using assms(1,2) by (simp add: less_mult_imp_div_less power_add [symmetric])
  then have "Suc (base div 2 ^ k) * 2 ^ k \<le> 2 ^ (n - k) * 2 ^ k"
    by (intro mult_le_mono) simp_all
  then have "Suc (base div 2 ^ k) * 2 ^ k \<le> 2 ^ n"
    using assms(2) by (simp add: power_add [symmetric])
  moreover have "network_address base k = base div 2 ^ k * 2 ^ k"
    by (simp add: network_address_def minus_mod_eq_div_mult)
  ultimately show ?thesis
    using assms(3) by simp
qed

text \<open>How many addresses a network has hosts for, as the code computes it.\<close>

definition host_bits :: "nat \<Rightarrow> int \<Rightarrow> nat" where
  "host_bits len_bits network_prefix = len_bits - nat network_prefix"

lemma build_in_network_host:
  assumes "0 \<le> p" "p < int n" "0 \<le> h"
  shows "build_in_network random n base p (Some h) =
     (if nat h < 2 ^ host_bits n p then Inr (Some (network_address base (host_bits n p) + nat h)) else Inr None)"
proof -
  have "h \<le> 2 ^ k - 1 \<longleftrightarrow> nat h < 2 ^ k" for k
    using assms(3) by (simp add: nat_less_iff zle_diff1_eq)
  then show ?thesis
    using assms by (simp add: build_in_network_def host_bits_def Let_def)
qed

lemma build_in_network_random:
  assumes "0 \<le> p" "p < int n" and r: "\<And>a b. a \<le> b \<Longrightarrow> a \<le> random a b \<and> random a b \<le> b"
  shows "build_in_network random n base p None =
     (if host_bits n p = 1 then Inl (ValueError ''empty range'')
      else build_in_network random n base p (Some (random 1 (2 ^ host_bits n p - 2))))"
proof (cases "host_bits n p = 1")
  case True
  then show ?thesis
    using assms by (simp add: build_in_network_def host_bits_def randint_def Let_def)
next
  case False
  then have "2 \<le> host_bits n p"
    using assms(1,2) by (simp add: host_bits_def)
  then have "(2::int) ^ 2 \<le> 2 ^ host_bits n p"
    by (intro power_increasing) simp_all
  then have "(1::int) \<le> 2 ^ host_bits n p - 2"
    by simp
  then show ?thesis
    using assms False by (simp add: build_in_network_def host_bits_def randint_def Let_def)
qed

lemma build_in_network_given:
  "build_in_network random n b p (Some h) =
     (if p < 0 \<or> int n \<le> p \<or> h < 0 \<or> 2 ^ host_bits n p \<le> h then Inr None
      else Inr (Some (network_address b (host_bits n p) + nat h)))"
proof (cases "p < 0 \<or> int n \<le> p \<or> h < 0")
  case True
  then show ?thesis
    by (auto simp: build_in_network_def Let_def)
next
  case False
  then have "nat h < 2 ^ host_bits n p \<longleftrightarrow> h < 2 ^ host_bits n p"
    by (simp add: nat_less_iff)
  with False show ?thesis
    using build_in_network_host [of p n h random b] by simp
qed

lemma build_in_network_random_host:
  assumes p: "p \<in> {0..<int n}" and k: "host_bits n p \<noteq> 1"
    and r: "\<And>x y. x \<le> y \<Longrightarrow> x \<le> random x y \<and> random x y \<le> y"
  obtains h where "0 < h" "h < 2 ^ host_bits n p - 1"
    "build_in_network random n b p None = Inr (Some (network_address b (host_bits n p) + h))"
proof -
  define h where "h = random 1 (2 ^ host_bits n p - 2)"
  have "2 \<le> host_bits n p"
    using p k by (auto simp: host_bits_def nat_less_iff)
  then have "(2::int) ^ 2 \<le> 2 ^ host_bits n p"
    by (intro power_increasing) simp_all
  then have h: "1 \<le> h" "h \<le> 2 ^ host_bits n p - 2"
    using r [of 1 "2 ^ host_bits n p - 2"] by (simp_all add: h_def)
  then have "int (nat h) < int (2 ^ host_bits n p - 1)"
    by (simp add: of_nat_diff)
  then have "nat h < 2 ^ host_bits n p - 1"
    by (simp only: of_nat_less_iff)
  moreover have "build_in_network random n b p None = Inr (Some (network_address b (host_bits n p) + nat h))"
    using p k h build_in_network_random [of p n random b, OF _ _ r] by (simp add: build_in_network_given h_def [symmetric])
  ultimately show ?thesis
    using that [of "nat h"] h(1) by simp
qed

lemma host_of_network:
  assumes "b < 2 ^ n" and "h < 2 ^ host_bits n p"
  shows "network_address b (host_bits n p) + h < 2 ^ n \<and>
     (network_address b (host_bits n p) + h) div 2 ^ host_bits n p = b div 2 ^ host_bits n p \<and>
     (network_address b (host_bits n p) + h) mod 2 ^ host_bits n p = h"
  using assms host_in_network [OF assms(2)] network_fits [OF assms(1) _ assms(2)] by (simp add: host_bits_def)

text \<open>
  C29. An address built has the width of its base, lies in the network of the base and has the host
  part asked for; it is \<open>None\<close> exactly when the prefix or the host part is out of range. A random host
  part is neither that of the network nor that of the broadcast address, except that for a network
  of two addresses, which has no other, the call raises \<open>ValueError\<close>.
\<close>

theorem build_ip_in_network:
  assumes "b < 2 ^ n" and "(n, make) \<in> {(IPV4_LEN_BITS, IPv4Address), (IPV6_LEN_BITS, IPv6Address)}"
    and "\<And>x y. x \<le> y \<Longrightarrow> x \<le> random x y \<and> random x y \<le> y"
  shows "(\<forall>p h. build_ip random (make b) p (Some h) = Inr None \<or>
        (\<exists>r. build_ip random (make b) p (Some h) = Inr (Some (make r)) \<and> r < 2 ^ n \<and>
           r div 2 ^ host_bits n p = b div 2 ^ host_bits n p \<and> int (r mod 2 ^ host_bits n p) = h)) \<and>
     (\<forall>p h. build_ip random (make b) p (Some h) = Inr None \<longleftrightarrow>
        p < 0 \<or> int n \<le> p \<or> h < 0 \<or> 2 ^ host_bits n p \<le> h) \<and>
     (\<forall>p\<in>{0..<int n}. if host_bits n p = 1 then build_ip random (make b) p None = Inl (ValueError ''empty range'')
        else \<exists>r. build_ip random (make b) p None = Inr (Some (make r)) \<and> r < 2 ^ n \<and>
          r div 2 ^ host_bits n p = b div 2 ^ host_bits n p \<and>
          0 < r mod 2 ^ host_bits n p \<and> r mod 2 ^ host_bits n p < 2 ^ host_bits n p - 1)"
proof (intro conjI allI ballI)
  have run: "build_ip random (make b) p h = map_sum id (map_option make) (build_in_network random n b p h)" for p h
    using assms(2) by (auto simp: build_ip_def)
  fix p h
  show "build_ip random (make b) p (Some h) = Inr None \<or>
        (\<exists>r. build_ip random (make b) p (Some h) = Inr (Some (make r)) \<and> r < 2 ^ n \<and>
           r div 2 ^ host_bits n p = b div 2 ^ host_bits n p \<and> int (r mod 2 ^ host_bits n p) = h)"
    using host_of_network [OF assms(1), of "nat h" p] by (auto simp: run build_in_network_given nat_less_iff)
  show "build_ip random (make b) p (Some h) = Inr None \<longleftrightarrow>
        p < 0 \<or> int n \<le> p \<or> h < 0 \<or> 2 ^ host_bits n p \<le> h"
    by (simp add: run build_in_network_given)
  assume p: "p \<in> {0..<int n}"
  show "if host_bits n p = 1 then build_ip random (make b) p None = Inl (ValueError ''empty range'')
        else \<exists>r. build_ip random (make b) p None = Inr (Some (make r)) \<and> r < 2 ^ n \<and>
          r div 2 ^ host_bits n p = b div 2 ^ host_bits n p \<and>
          0 < r mod 2 ^ host_bits n p \<and> r mod 2 ^ host_bits n p < 2 ^ host_bits n p - 1"
  proof (cases "host_bits n p = 1")
    case True
    then show ?thesis
      using p build_in_network_random [of p n random b, OF _ _ assms(3)] by (simp add: run)
  next
    case False
    then obtain h where h: "0 < h" "h < 2 ^ host_bits n p - 1"
      "build_in_network random n b p None = Inr (Some (network_address b (host_bits n p) + h))"
      using build_in_network_random_host [OF p _ assms(3)] by blast
    then have "network_address b (host_bits n p) + h < 2 ^ n \<and>
       (network_address b (host_bits n p) + h) div 2 ^ host_bits n p = b div 2 ^ host_bits n p \<and>
       (network_address b (host_bits n p) + h) mod 2 ^ host_bits n p = h"
      by (intro host_of_network assms(1)) simp
    with False h show ?thesis
      by (auto simp: run)
  qed
qed

text \<open>The address 192.168.1.5 from 192.168.1.1, the prefix 24 and the host part 5.\<close>

theorem build_ip_in_network_witness:
  "build_ip (\<lambda>a b. a) (IPv4Address 0xC0A80101) 24 (Some 5) = Inr (Some (IPv4Address 0xC0A80105)) \<and>
   build_ip (\<lambda>a b. a) (IPv4Address 0xC0A80101) 24 (Some 256) = Inr None \<and>
   build_ip (\<lambda>a b. a) (IPv4Address 0xC0A80101) 31 None = Inl (ValueError ''empty range'')"
proof -
  let ?go = "build_ip (\<lambda>a b. a) (IPv4Address 0xC0A80101)"
  have k: "host_bits IPV4_LEN_BITS 24 = 8" "host_bits IPV4_LEN_BITS 31 = 1"
    and dom: "31 \<in> {0..<int IPV4_LEN_BITS}" and fits: "0xC0A80101 < (2::nat) ^ IPV4_LEN_BITS"
    by (simp_all add: host_bits_def IPV4_LEN_BITS_def)
  have built: "\<forall>p h. ?go p (Some h) = Inr None \<or> (\<exists>r. ?go p (Some h) = Inr (Some (IPv4Address r)) \<and> r < 2 ^ IPV4_LEN_BITS \<and>
        r div 2 ^ host_bits IPV4_LEN_BITS p = 0xC0A80101 div 2 ^ host_bits IPV4_LEN_BITS p \<and>
        int (r mod 2 ^ host_bits IPV4_LEN_BITS p) = h)"
    and none: "\<forall>p h. ?go p (Some h) = Inr None \<longleftrightarrow>
        p < 0 \<or> int IPV4_LEN_BITS \<le> p \<or> h < 0 \<or> 2 ^ host_bits IPV4_LEN_BITS p \<le> h"
    and rand: "\<forall>p\<in>{0..<int IPV4_LEN_BITS}. if host_bits IPV4_LEN_BITS p = 1 then ?go p None = Inl (ValueError ''empty range'')
        else \<exists>r. ?go p None = Inr (Some (IPv4Address r)) \<and> r < 2 ^ IPV4_LEN_BITS \<and>
          r div 2 ^ host_bits IPV4_LEN_BITS p = 0xC0A80101 div 2 ^ host_bits IPV4_LEN_BITS p \<and>
          0 < r mod 2 ^ host_bits IPV4_LEN_BITS p \<and> r mod 2 ^ host_bits IPV4_LEN_BITS p < 2 ^ host_bits IPV4_LEN_BITS p - 1"
    by (rule build_ip_in_network [OF fits, of IPv4Address "\<lambda>a b. a", THEN conjunct1]
        build_ip_in_network [OF fits, of IPv4Address "\<lambda>a b. a", THEN conjunct2, THEN conjunct1]
        build_ip_in_network [OF fits, of IPv4Address "\<lambda>a b. a", THEN conjunct2, THEN conjunct2]; simp)+
  have random: "?go 31 None = Inl (ValueError ''empty range'')"
    using bspec [OF rand dom] k(2) by (simp only: if_True)
  have "?go 24 (Some 5) \<noteq> Inr None"
    using none [rule_format, of 24 5, unfolded k] by (simp add: IPV4_LEN_BITS_def)
  then obtain r where r: "?go 24 (Some 5) = Inr (Some (IPv4Address r))" "r div 256 = 0xC0A801" "r mod 256 = 5"
    using built [rule_format, of 24 5] by (auto simp: k)
  have "r = 0xC0A80105"
    using div_mult_mod_eq [of r 256] r(2,3) by simp
  with r(1) random none [rule_format, of 24 256] show ?thesis
    by (simp add: k)
qed

end
