(* ===== verification/Usb_Device.thy ===== *)
theory Usb_Device
  imports Prelude
begin

section \<open>The simulated USB device\<close>

text \<open>
  Models \<open>utils/usb/usb_device.py\<close>: a disk image that is either mounted on the host or exported as a
  USB device. What a command does to the table of mounts, and whether it fails, is the function
  \<open>run_effect\<close> of the state; a command that fails raises and changes nothing.
\<close>

datatype usb_command =
    MakeImage string int
  | MakeFat string
  | MakeDir string
  | Mount string string
  | Umount string
  | LoadMassStorage string
  | UnloadMassStorage
  | RemoveTree string
  | RemoveFile string
  | CopyFile string string

record usb_device =
  img_path :: string
  mount_point :: string
  image_size :: int
  is_connected :: bool

record usb_world = usb_device +
  mounts :: string
  run_effect :: "usb_command \<Rightarrow> string \<Rightarrow> exn + string"
  path_exists :: "string \<Rightarrow> bool"
  abspath :: "string \<Rightarrow> string"
  usb_log :: "usb_command list"

definition usb_run :: "usb_command \<Rightarrow> (usb_world, unit) py" where
  "usb_run c = (\<lambda>w. case run_effect w c (mounts w) of
       Inl e \<Rightarrow> (Exn e, w)
     | Inr m \<Rightarrow> (Val (), w\<lparr>mounts := m, usb_log := usb_log w @ [c]\<rparr>))"

definition py_when :: "('s \<Rightarrow> bool) \<Rightarrow> ('s, unit) py \<Rightarrow> ('s, unit) py" where
  "py_when b m = (\<lambda>w. if b w then m w else (Val (), w))"

text \<open>The constructor.\<close>

definition usb_init :: "string \<Rightarrow> string \<Rightarrow> int \<Rightarrow> (usb_world, unit) py" where
  "usb_init img mount_dir sz =
     py_seq (py_when (\<lambda>w. \<not> path_exists w img) (py_seq (usb_run (MakeImage img sz)) (usb_run (MakeFat img))))
    (py_seq (py_modify (\<lambda>w. w\<lparr>img_path := img\<rparr>))
    (py_seq (usb_run (MakeDir mount_dir))
            (py_modify (\<lambda>w. w\<lparr>mount_point := mount_dir, image_size := sz, is_connected := False\<rparr>))))"

text \<open>The mount point is looked for anywhere in the text of \<open>/proc/mounts\<close>.\<close>

definition is_mounted_locally :: "usb_world \<Rightarrow> bool" where
  "is_mounted_locally w \<longleftrightarrow> py_contains (mount_point w) (mounts w)"

definition mount_local :: "(usb_world, unit) py" where
  "mount_local = (\<lambda>w.
     if is_mounted_locally w then (Val (), w) else usb_run (Mount (img_path w) (mount_point w)) w)"

definition unmount_local :: "(usb_world, unit) py" where
  "unmount_local = py_when is_mounted_locally (\<lambda>w. usb_run (Umount (mount_point w)) w)"

definition disable_usb :: "(usb_world, unit) py" where
  "disable_usb = py_seq (usb_run UnloadMassStorage) (py_modify (\<lambda>w. w\<lparr>is_connected := False\<rparr>))"

definition enable_usb :: "(usb_world, unit) py" where
  "enable_usb =
     py_seq (py_when is_mounted_locally unmount_local)
    (py_seq (\<lambda>w. usb_run (LoadMassStorage (abspath w (img_path w))) w)
            (py_modify (\<lambda>w. w\<lparr>is_connected := True\<rparr>)))"

text \<open>\<open>os.path.join\<close> of two parts.\<close>

definition path_join :: "string \<Rightarrow> string \<Rightarrow> string" where
  "path_join a b =
     (if take 1 b = ''/'' then b
      else if a = [] \<or> last a = CHR ''/'' then a @ b
      else a @ ''/'' @ b)"

definition add_file :: "string \<Rightarrow> string \<Rightarrow> (usb_world, unit) py" where
  "add_file file_path dst_path =
     py_seq (py_when is_connected disable_usb)
    (py_seq mount_local
    (py_seq (\<lambda>w. usb_run (CopyFile file_path (path_join (mount_point w) dst_path)) w)
            unmount_local))"

definition usb_teardown :: "(usb_world, unit) py" where
  "usb_teardown =
     py_seq (py_when is_mounted_locally unmount_local)
    (py_seq (py_when is_connected disable_usb)
    (py_seq (\<lambda>w. usb_run (RemoveTree (mount_point w)) w)
            (\<lambda>w. usb_run (RemoveFile (img_path w)) w)))"

subsection \<open>Steps\<close>

datatype usb_op = Enable | Disable | AddFile string string | Unmount | Teardown | MountLocal

fun usb_do :: "usb_op \<Rightarrow> (usb_world, unit) py" where
  "usb_do Enable = enable_usb"
| "usb_do Disable = disable_usb"
| "usb_do (AddFile f d) = add_file f d"
| "usb_do Unmount = unmount_local"
| "usb_do Teardown = usb_teardown"
| "usb_do MountLocal = mount_local"

inductive usb_reachable :: "usb_op set \<Rightarrow> usb_world \<Rightarrow> usb_world \<Rightarrow> bool" for A w where
  usb_start: "usb_reachable A w w"
| usb_step: "usb_reachable A w u \<Longrightarrow> a \<in> A \<Longrightarrow> usb_reachable A w (snd (usb_do a u))"

text \<open>
  What is documented of the commands: a mount point leaves the table when it is unmounted, and enters
  it only when it is mounted.
\<close>

definition mounts_as_documented :: "usb_world \<Rightarrow> bool" where
  "mounts_as_documented w \<longleftrightarrow>
     (\<forall>c m m'. run_effect w c m = Inr m' \<longrightarrow>
        (c = Umount (mount_point w) \<longrightarrow> \<not> py_contains (mount_point w) m') \<and>
        ((\<forall>img. c \<noteq> Mount img (mount_point w)) \<longrightarrow> py_contains (mount_point w) m' \<longrightarrow> py_contains (mount_point w) m))"

definition not_shared :: "usb_world \<Rightarrow> bool" where
  "not_shared w \<longleftrightarrow> mounts_as_documented w \<and> (is_connected w \<longrightarrow> \<not> is_mounted_locally w)"

subsection \<open>The image is never mounted while it is exported\<close>

text \<open>
  From a state with \<open>P\<close>, a method keeps the image unshared whatever its outcome, and leaves a state
  with \<open>Q\<close> when it returns.
\<close>

definition leads :: "(usb_world \<Rightarrow> bool) \<Rightarrow> (usb_world, unit) py \<Rightarrow> (usb_world \<Rightarrow> bool) \<Rightarrow> bool" where
  "leads P m Q \<longleftrightarrow> (\<forall>s. P s \<longrightarrow> not_shared (snd (m s)) \<and> (fst (m s) = Val () \<longrightarrow> Q (snd (m s))))"

lemma leads_seq: "leads P m Q \<Longrightarrow> leads Q n S \<Longrightarrow> leads P (py_seq m n) S"
  unfolding leads_def py_seq_def py_bind_def by (auto split: prod.splits res.splits)

lemma leads_when:
  "leads (\<lambda>s. P s \<and> b s) m Q \<Longrightarrow> (\<And>s. P s \<Longrightarrow> \<not> b s \<Longrightarrow> Q s \<and> not_shared s) \<Longrightarrow> leads P (py_when b m) Q"
  by (auto simp: leads_def py_when_def)

lemma leads_pre: "leads P m Q \<Longrightarrow> (\<And>s. P' s \<Longrightarrow> P s) \<Longrightarrow> (\<And>s. Q s \<Longrightarrow> Q' s) \<Longrightarrow> leads P' m Q'"
  by (auto simp: leads_def)

definition unmounted :: "usb_world \<Rightarrow> bool" where
  "unmounted w \<longleftrightarrow> mounts_as_documented w \<and> \<not> is_mounted_locally w"

definition unexported :: "usb_world \<Rightarrow> bool" where
  "unexported w \<longleftrightarrow> mounts_as_documented w \<and> \<not> is_connected w"

lemma not_shared_if: "unmounted w \<Longrightarrow> not_shared w" "unexported w \<Longrightarrow> not_shared w"
  by (auto simp: unmounted_def unexported_def not_shared_def)

lemma usb_run_cases:
  "(\<exists>e. usb_run c w = (Exn e, w)) \<or>
   (\<exists>m. run_effect w c (mounts w) = Inr m \<and> usb_run c w = (Val (), w\<lparr>mounts := m, usb_log := usb_log w @ [c]\<rparr>))"
  by (auto simp: usb_run_def split: sum.splits)

lemma usb_run_keeps:
  "mounts_as_documented w \<Longrightarrow> mounts_as_documented (snd (usb_run c w))"
  "is_connected (snd (usb_run c w)) = is_connected w"
  using usb_run_cases [of c w] by (auto simp: mounts_as_documented_def)

text \<open>A command that mounts nothing mounts nothing; unmounting leaves the image unmounted.\<close>

lemma usb_run_mounts:
  assumes "mounts_as_documented w"
  shows "\<forall>img. c \<noteq> Mount img (mount_point w) \<Longrightarrow> is_mounted_locally (snd (usb_run c w)) \<Longrightarrow> is_mounted_locally w"
    and "c = Umount (mount_point w) \<Longrightarrow> fst (usb_run c w) = Val () \<Longrightarrow> \<not> is_mounted_locally (snd (usb_run c w))"
  using assms usb_run_cases [of c w] by (auto simp: mounts_as_documented_def is_mounted_locally_def)

lemma leads_run:
  assumes c: "\<And>w img. c w \<noteq> Mount img (mount_point w)"
  shows "leads not_shared (\<lambda>w. usb_run (c w) w) not_shared" "leads unmounted (\<lambda>w. usb_run (c w) w) unmounted"
proof -
  have doc: "\<And>w. mounts_as_documented w \<Longrightarrow> mounts_as_documented (snd (usb_run (c w) w))"
    and conn: "\<And>w. is_connected (snd (usb_run (c w) w)) = is_connected w"
    by (simp_all add: usb_run_keeps)
  have "\<And>w. mounts_as_documented w \<Longrightarrow> \<not> is_mounted_locally w \<Longrightarrow> \<not> is_mounted_locally (snd (usb_run (c w) w))"
    using usb_run_mounts(1) c by blast
  with doc conn show "leads not_shared (\<lambda>w. usb_run (c w) w) not_shared" "leads unmounted (\<lambda>w. usb_run (c w) w) unmounted"
    unfolding leads_def not_shared_def unmounted_def by metis+
qed

lemma leads_run_unexported: "leads unexported (\<lambda>w. usb_run (c w) w) unexported"
  using usb_run_keeps by (auto simp: leads_def unexported_def not_shared_def)

lemma leads_modify: "(\<And>s. P s \<Longrightarrow> not_shared (f s) \<and> Q (f s)) \<Longrightarrow> leads P (py_modify f) Q"
  by (simp add: leads_def)

lemma leads_unmount: "leads not_shared unmount_local unmounted" "leads unexported unmount_local unexported"
proof -
  have "leads (\<lambda>s. not_shared s \<and> is_mounted_locally s) (\<lambda>w. usb_run (Umount (mount_point w)) w) unmounted"
    using usb_run_keeps usb_run_mounts by (auto simp: leads_def not_shared_def unmounted_def)
  then show "leads not_shared unmount_local unmounted"
    unfolding unmount_local_def by (rule leads_when) (auto simp: not_shared_def unmounted_def)
  show "leads unexported unmount_local unexported"
    unfolding unmount_local_def
    by (rule leads_when) (auto intro: leads_pre [OF leads_run_unexported] simp: not_shared_if)
qed

lemma leads_disable: "leads not_shared disable_usb unexported"
  unfolding disable_usb_def
  by (rule leads_seq [OF leads_run(1) [where c = "\<lambda>_. UnloadMassStorage"] leads_modify])
    (auto simp: not_shared_def unexported_def mounts_as_documented_def)

lemma leads_mount: "leads unexported mount_local unexported"
proof -
  have "mount_local = py_when (\<lambda>w. \<not> is_mounted_locally w) (\<lambda>w. usb_run (Mount (img_path w) (mount_point w)) w)"
    by (auto simp: mount_local_def py_when_def)
  moreover have "leads unexported (py_when (\<lambda>w. \<not> is_mounted_locally w)
      (\<lambda>w. usb_run (Mount (img_path w) (mount_point w)) w)) unexported"
    by (rule leads_when) (auto intro: leads_pre [OF leads_run_unexported] simp: not_shared_if)
  ultimately show ?thesis
    by simp
qed

lemma leads_when_same: "leads P m Q \<Longrightarrow> (\<And>s. P s \<Longrightarrow> \<not> b s \<Longrightarrow> Q s \<and> not_shared s) \<Longrightarrow> leads P (py_when b m) Q"
  by (auto simp: leads_def py_when_def)

lemma leads_post: "leads P m Q \<Longrightarrow> (\<And>s. Q s \<Longrightarrow> Q' s) \<Longrightarrow> leads P m Q'"
  by (simp add: leads_def)

lemma leads_ops:
  "leads not_shared enable_usb not_shared" "leads not_shared disable_usb not_shared" "leads not_shared (add_file f d) not_shared"
  "leads not_shared unmount_local not_shared" "leads not_shared usb_teardown not_shared"
proof -
  have unmount: "leads not_shared (py_when is_mounted_locally unmount_local) unmounted"
    by (rule leads_when_same [OF leads_unmount(1)]) (auto simp: not_shared_def unmounted_def)
  have disable: "leads not_shared (py_when is_connected disable_usb) unexported"
    by (rule leads_when_same [OF leads_disable]) (auto simp: not_shared_def unexported_def)
  have exported: "leads unmounted (py_modify (is_connected_update (\<lambda>_. True))) not_shared"
    by (rule leads_modify) (auto simp: unmounted_def not_shared_def mounts_as_documented_def is_mounted_locally_def)
  show "leads not_shared enable_usb not_shared"
    unfolding enable_usb_def
    by (rule leads_seq [OF unmount leads_seq [OF leads_run(2) [where c = "\<lambda>w. LoadMassStorage (abspath w (img_path w))"] exported]])
      simp
  show "leads not_shared disable_usb not_shared"
    by (rule leads_post [OF leads_disable]) (rule not_shared_if)
  show "leads not_shared unmount_local not_shared"
    by (rule leads_post [OF leads_unmount(1)]) (rule not_shared_if)
  have finish: "leads unexported unmount_local not_shared"
    by (rule leads_post [OF leads_unmount(2)]) (rule not_shared_if)
  show "leads not_shared (add_file f d) not_shared"
    unfolding add_file_def
    by (rule leads_seq [OF disable leads_seq [OF leads_mount leads_seq [OF leads_run_unexported finish]]])
  have unmount': "leads not_shared (py_when is_mounted_locally unmount_local) not_shared"
    by (rule leads_post [OF unmount]) (rule not_shared_if)
  have disable': "leads not_shared (py_when is_connected disable_usb) not_shared"
    by (rule leads_post [OF disable]) (rule not_shared_if)
  show "leads not_shared usb_teardown not_shared"
    unfolding usb_teardown_def
    by (rule leads_seq [OF unmount' leads_seq [OF disable' leads_seq
          [OF leads_run(1) [where c = "\<lambda>w. RemoveTree (mount_point w)"] leads_run(1) [where c = "\<lambda>w. RemoveFile (img_path w)"]]]])
      simp_all
qed


definition demo_usb :: usb_world where
  "demo_usb = \<lparr>img_path = ''/tmp/usb.img'', mount_point = ''/mnt/usb'', image_size = 2048, is_connected = False,
     mounts = [],
     run_effect = \<lambda>c m. (case c of Mount _ p \<Rightarrow> Inr (if p = ''/mnt/usb'' then p else m) | Umount _ \<Rightarrow> Inr [] | _ \<Rightarrow> Inr m),
     path_exists = \<lambda>_. True, abspath = \<lambda>p. p, usb_log = []\<rparr>"


end
