(* ===== verification/Vht.thy ===== *)
theory Vht
  imports Prelude
begin

section \<open>Rates of 802.11ac frames\<close>

text \<open>
  Models \<open>external/python_radiotap/radiotap/vht.py\<close>: the tables of rates and bandwidths and the
  functions that look them up. Rates are in Mbit/s; the decimals of the table are rationals. The
  standard's equation of the data rate is the reference the table is compared with.
\<close>

subsection \<open>Tables\<close>

definition vht_rate_table :: "rat option list list" where
  "vht_rate_table = [
     [Some 6.5, Some 7.2, Some 13.5, Some 15.0, Some 29.3, Some 32.5, Some 58.5, Some 65.0],
     [Some 13.0, Some 14.4, Some 27.0, Some 30.0, Some 58.5, Some 65.0, Some 117.0, Some 130.0],
     [Some 19.5, Some 21.7, Some 40.5, Some 45.0, Some 87.8, Some 97.5, Some 175.5, Some 195.0],
     [Some 26.0, Some 28.9, Some 54.0, Some 60.0, Some 117.0, Some 130.0, Some 234.0, Some 260.0],
     [Some 39.0, Some 43.3, Some 81.0, Some 90.0, Some 175.5, Some 195.0, Some 351.0, Some 390.0],
     [Some 52.0, Some 57.8, Some 108.0, Some 120.0, Some 234.0, Some 260.0, Some 468.0, Some 520.0],
     [Some 58.5, Some 65.0, Some 121.5, Some 135.0, Some 263.3, Some 292.5, Some 526.5, Some 585.0],
     [Some 65.0, Some 72.2, Some 135.0, Some 150.0, Some 292.5, Some 325.0, Some 585.0, Some 650.0],
     [Some 78.0, Some 86.7, Some 162.0, Some 180.0, Some 351.0, Some 390.0, Some 702.0, Some 780.0],
     [None, None, Some 180.0, Some 200.0, Some 390.0, Some 433.3, Some 780.0, Some 866.7],
     [Some 13.0, Some 14.4, Some 27.0, Some 30.0, Some 58.5, Some 65.0, Some 117.0, Some 130.0],
     [Some 26.0, Some 28.9, Some 54.0, Some 60.0, Some 117.0, Some 130.0, Some 234.0, Some 260.0],
     [Some 39.0, Some 43.3, Some 81.0, Some 90.0, Some 175.5, Some 195.0, Some 351.0, Some 390.0],
     [Some 52.0, Some 57.8, Some 108.0, Some 120.0, Some 234.0, Some 260.0, Some 468.0, Some 520.0],
     [Some 78.0, Some 86.7, Some 162.0, Some 180.0, Some 351.0, Some 390.0, Some 702.0, Some 780.0],
     [Some 104.0, Some 115.6, Some 216.0, Some 240.0, Some 468.0, Some 520.0, Some 936.0, Some
      1040.0],
     [Some 117.0, Some 130.3, Some 243.0, Some 270.0, Some 526.5, Some 585.0, Some 1053.0, Some
      1170.0],
     [Some 130.0, Some 144.4, Some 270.0, Some 300.0, Some 585.0, Some 650.0, Some 1170.0, Some
      1300.0],
     [Some 156.0, Some 173.3, Some 324.0, Some 360.0, Some 702.0, Some 780.0, Some 1404.0, Some
      1560.0],
     [None, None, Some 360.0, Some 400.0, Some 780.0, Some 866.7, Some 1560.0, Some 1733.3],
     [Some 19.5, Some 21.7, Some 40.5, Some 45.0, Some 87.8, Some 97.5, Some 175.5, Some 195.0],
     [Some 39.0, Some 43.3, Some 81.0, Some 90.0, Some 175.5, Some 195.0, Some 351.0, Some 390.0],
     [Some 58.5, Some 65.0, Some 121.5, Some 135.0, Some 263.3, Some 292.5, Some 526.5, Some 585.0],
     [Some 78.0, Some 86.7, Some 162.0, Some 180.0, Some 351.0, Some 390.0, Some 702.0, Some 780.0],
     [Some 117.0, Some 130.0, Some 243.0, Some 270.0, Some 526.5, Some 585.0, Some 1053.0, Some
      1170.0],
     [Some 156.0, Some 173.3, Some 324.0, Some 360.0, Some 702.0, Some 780.0, Some 1404.0, Some
      1560.0],
     [Some 175.5, Some 195.0, Some 364.5, Some 405.0, None, None, Some 1579.5, Some 1755.0],
     [Some 195.0, Some 216.7, Some 405.0, Some 450.0, Some 877.5, Some 975.0, Some 1755.0, Some
      1950.0],
     [Some 234.0, Some 260.0, Some 486.0, Some 540.0, Some 1053.0, Some 1170.0, Some 2106.0, Some
      2340.0],
     [Some 260.0, Some 288.9, Some 540.0, Some 600.0, Some 1170.0, Some 1300.0, None, None],
     [Some 26.0, Some 28.9, Some 54.0, Some 60.0, Some 117.0, Some 130.0, Some 234.0, Some 260.0],
     [Some 52.0, Some 57.8, Some 108.0, Some 120.0, Some 234.0, Some 260.0, Some 468.0, Some 520.0],
     [Some 78.0, Some 86.7, Some 162.0, Some 180.0, Some 351.0, Some 390.0, Some 702.0, Some 780.0],
     [Some 104.0, Some 115.6, Some 216.0, Some 240.0, Some 468.0, Some 520.0, Some 936.0, Some
      1040.0],
     [Some 156.0, Some 173.3, Some 324.0, Some 360.0, Some 702.0, Some 780.0, Some 1404.0, Some
      1560.0],
     [Some 208.0, Some 231.1, Some 432.0, Some 480.0, Some 936.0, Some 1040.0, Some 1872.0, Some
      2080.0],
     [Some 234.0, Some 260.0, Some 486.0, Some 540.0, Some 1053.0, Some 1170.0, Some 2106.0, Some
      2340.0],
     [Some 260.0, Some 288.9, Some 540.0, Some 600.0, Some 1170.0, Some 1300.0, Some 2340.0, Some
      2600.0],
     [Some 312.0, Some 346.7, Some 648.0, Some 720.0, Some 1404.0, Some 1560.0, Some 2808.0, Some
      3120.0],
     [None, None, Some 720.0, Some 800.0, Some 1560.0, Some 1733.3, Some 3120.0, Some 3466.7],
     [None, None, None, None, Some 146.3, Some 162.5, Some 292.5, Some 325.0],
     [None, None, None, None, Some 292.5, Some 325.0, Some 585.0, Some 650.0],
     [None, None, None, None, Some 438.8, Some 487.5, Some 877.5, Some 975.0],
     [None, None, None, None, Some 585.0, Some 650.0, Some 1170.0, Some 1300.0],
     [None, None, None, None, Some 877.5, Some 975.0, Some 1755.0, Some 1950.0],
     [None, None, None, None, Some 1170.0, Some 1300.0, Some 2340.0, Some 2600.0],
     [None, None, None, None, Some 1316.3, Some 1462.5, Some 2632.5, Some 2925.0],
     [None, None, None, None, Some 1462.5, Some 1625.0, Some 2925.0, Some 3250.0],
     [None, None, None, None, Some 1755.0, Some 1950.0, Some 3510.0, Some 3900.0],
     [None, None, None, None, Some 1950.0, Some 2166.7, Some 3900.0, Some 4333.3],
     [None, None, None, None, Some 175.5, Some 195.0, Some 351.0, Some 390.0],
     [None, None, None, None, Some 351.0, Some 390.0, Some 702.0, Some 780.0],
     [None, None, None, None, Some 526.5, Some 585.0, Some 1053.0, Some 1170.0],
     [None, None, None, None, Some 702.0, Some 780.0, Some 1404.0, Some 1560.0],
     [None, None, None, None, Some 1053.0, Some 1170.0, Some 2106.0, Some 2340.0],
     [None, None, None, None, Some 1404.0, Some 1560.0, Some 2808.0, Some 3120.0],
     [None, None, None, None, Some 1579.5, Some 1755.0, Some 3159.0, Some 3510.0],
     [None, None, None, None, Some 1755.0, Some 1950.0, Some 3510.0, Some 3900.0],
     [None, None, None, None, Some 2106.0, Some 2340.0, Some 4212.0, Some 4680.0],
     [None, None, None, None, None, None, Some 4680.0, Some 5200.0],
     [None, None, None, None, Some 204.8, Some 227.5, Some 409.5, Some 455.0],
     [None, None, None, None, Some 409.5, Some 455.0, Some 819.0, Some 910.0],
     [None, None, None, None, Some 614.3, Some 682.5, Some 1228.5, Some 1365.0],
     [None, None, None, None, Some 819.0, Some 910.0, Some 1638.0, Some 1820.0],
     [None, None, None, None, Some 1228.5, Some 1365.0, Some 2457.0, Some 2730.0],
     [None, None, None, None, Some 1638.0, Some 1820.0, Some 3276.0, Some 3640.0],
     [None, None, None, None, None, None, Some 3685.5, Some 4095.0],
     [None, None, None, None, Some 2047.5, Some 2275.0, Some 4095.0, Some 4550.0],
     [None, None, None, None, Some 2457.0, Some 2730.0, Some 4914.0, Some 5460.0],
     [None, None, None, None, Some 2730.0, Some 3033.3, Some 5460.0, Some 6066.7],
     [None, None, None, None, Some 234.0, Some 260.0, Some 468.0, Some 520.0],
     [None, None, None, None, Some 468.0, Some 520.0, Some 936.0, Some 1040.0],
     [None, None, None, None, Some 702.0, Some 780.0, Some 1404.0, Some 1560.0],
     [None, None, None, None, Some 936.0, Some 1040.0, Some 1872.0, Some 2080.0],
     [None, None, None, None, Some 1404.0, Some 1560.0, Some 2808.0, Some 3120.0],
     [None, None, None, None, Some 1872.0, Some 2080.0, Some 3744.0, Some 4160.0],
     [None, None, None, None, Some 2106.0, Some 2340.0, Some 4212.0, Some 4680.0],
     [None, None, None, None, Some 2340.0, Some 2600.0, Some 4680.0, Some 5200.0],
     [None, None, None, None, Some 2808.0, Some 3120.0, Some 5616.0, Some 6240.0],
     [None, None, None, None, Some 3120.0, Some 3466.7, Some 6240.0, Some 6933.3]]"

text \<open>MHz, the channel's name, and the position of the subchannel.\<close>

definition vht_bandwidth_lut :: "(nat \<times> string \<times> nat option) list" where
  "vht_bandwidth_lut =
     [(20, '''', None), (40, '''', None), (40, ''20L'', Some 0), (40, ''20U'', Some 1), (80, '''',
      None), (80, ''40L'', Some 0), (80, ''40U'', Some 1), (80, ''20LL'', Some 0), (80, ''20LU'',
      Some 1), (80, ''20UL'', Some 2), (80, ''20UU'', Some 3), (160, '''', None), (160, ''80L'',
      Some 0), (160, ''80U'', Some 1), (160, ''40LL'', Some 0), (160, ''40LU'', Some 1), (160,
      ''40UL'', Some 2), (160, ''40UU'', Some 3), (160, ''20LLL'', Some 0), (160, ''20LLU'', Some
      1), (160, ''20LUL'', Some 2), (160, ''20LUU'', Some 3), (160, ''20ULL'', Some 4), (160,
      ''20ULU'', Some 5), (160, ''20UUL'', Some 6), (160, ''20UUU'', Some 7)]"

definition mcs_by_vht_index :: "(nat \<times> string \<times> string) list" where
  "mcs_by_vht_index = [(0, ''BPSK'', ''1/2''), (1, ''QPSK'', ''1/2''), (2, ''QPSK'', ''3/2''),
     (3, ''16QAM'', ''1/2''), (4, ''16QAM'', ''3/4''), (5, ''64QAM'', ''2/3''), (6, ''64QAM'', ''3/4''),
     (7, ''64QAM'', ''5/6''), (8, ''256QAM'', ''3/4''), (9, ''256QAM'', ''5/6'')]"

subsection \<open>Looking rates up\<close>

text \<open>\<open>xs[i]\<close> of a Python list: a negative index counts from the end.\<close>

definition py_index :: "'a list \<Rightarrow> int \<Rightarrow> exn + 'a" where
  "py_index xs i =
     (if 0 \<le> i \<and> i < int (length xs) then Inr (xs ! nat i)
      else if - int (length xs) \<le> i \<and> i < 0 then Inr (xs ! nat (i + int (length xs)))
      else Inl IndexError)"

definition column_offset_by_bwMHz :: "(nat \<times> nat) list" where
  "column_offset_by_bwMHz = [(20, 0), (40, 2), (80, 4), (160, 6)]"

definition calculate_column_index :: "nat \<Rightarrow> nat \<Rightarrow> exn + nat" where
  "calculate_column_index gi bandwidthMHz =
     (case map_of column_offset_by_bwMHz bandwidthMHz of
        None \<Rightarrow> Inl KeyError
      | Some off \<Rightarrow> Inr (off + gi))"

definition calculate_row_index :: "nat \<Rightarrow> nat \<Rightarrow> int" where
  "calculate_row_index vht_index nss = int vht_index + (int nss - 1) * 10"

definition vht_rate :: "nat \<Rightarrow> nat \<Rightarrow> nat \<Rightarrow> nat \<Rightarrow> exn + rat option" where
  "vht_rate vht_mcs_index nss gi bandwidthMHz =
     (case calculate_column_index gi bandwidthMHz of
        Inl e \<Rightarrow> Inl e
      | Inr col \<Rightarrow>
          (case py_index vht_rate_table (calculate_row_index vht_mcs_index nss) of
             Inl e \<Rightarrow> Inl e
           | Inr row \<Rightarrow> py_index row (int col)))"

record vht_description =
  vht_mcs_index :: nat
  vht_mcs_descr :: "string \<times> string"
  vht_rate_mbps :: "rat option"

definition vht_rate_description :: "nat \<Rightarrow> nat \<Rightarrow> nat \<Rightarrow> nat \<Rightarrow> exn + vht_description" where
  "vht_rate_description idx nss gi bandwidthMHz =
     (case map_of mcs_by_vht_index idx of
        None \<Rightarrow> Inl KeyError
      | Some descr \<Rightarrow>
          (case vht_rate idx nss gi bandwidthMHz of
             Inl e \<Rightarrow> Inl e
           | Inr r \<Rightarrow> Inr \<lparr>vht_mcs_index = idx, vht_mcs_descr = descr, vht_rate_mbps = r\<rparr>))"

subsection \<open>The rate equation\<close>

text \<open>
  Data subcarriers, coded bits of a subcarrier and coding rate, for each spatial stream, over the
  duration of a symbol: 4 microseconds, or 3.6 with the short guard interval.
\<close>

definition subcarriers :: "nat \<Rightarrow> rat" where
  "subcarriers bw = (if bw = 20 then 52 else if bw = 40 then 108 else if bw = 80 then 234 else 468)"

definition bits_per_subcarrier :: "nat \<Rightarrow> rat" where
  "bits_per_subcarrier mcs =
     [1 / 2, 1, 3 / 2, 2, 3, 4, 9 / 2, 5, 6, 20 / 3] ! mcs"

definition symbol_time :: "nat \<Rightarrow> rat" where
  "symbol_time gi = (if gi = 0 then 4 else 18 / 5)"

definition nominal_rate :: "nat \<Rightarrow> nat \<Rightarrow> nat \<Rightarrow> nat \<Rightarrow> rat" where
  "nominal_rate mcs nss gi bw =
     subcarriers bw * bits_per_subcarrier mcs * of_nat nss / symbol_time gi"

subsection \<open>Lemmas\<close>

text \<open>Row by row and column by column, so that the table is evaluated once.\<close>

definition near_nominal :: "nat \<Rightarrow> nat \<Rightarrow> rat option \<Rightarrow> bool" where
  "near_nominal r c e \<longleftrightarrow>
     (case e of
        None \<Rightarrow> True
      | Some v \<Rightarrow> 6 < v \<and> v < 7000 \<and>
          (20 * \<bar>v - nominal_rate (r mod 10) (r div 10 + 1) (c mod 2) (20 * 2 ^ (c div 2))\<bar> \<le> 1
           \<or> (r, c) = (16, 1)))"

lemma table_near:
  "list_all2 (\<lambda>r. list_all2 (near_nominal r) [0..<8]) [0..<80] vht_rate_table"
  unfolding vht_rate_table_def
  by (simp add: near_nominal_def nominal_rate_def subcarriers_def bits_per_subcarrier_def
      symbol_time_def upt_rec)

lemma length_vht_rate_table [simp]: "length vht_rate_table = 80"
  using list_all2_lengthD [OF table_near] by simp

lemma table_entry:
  assumes "r < 80" and "c < 8"
  shows "length (vht_rate_table ! r) = 8 \<and> near_nominal r c (vht_rate_table ! r ! c)"
proof -
  have row: "list_all2 (near_nominal r) [0..<8] (vht_rate_table ! r)"
    using list_all2_nthD [OF table_near, of r] assms by simp
  then show ?thesis
    using list_all2_nthD [OF row, of c] list_all2_lengthD [OF row] assms by simp
qed

lemma py_index_nat [simp]: "i < length xs \<Longrightarrow> py_index xs (int i) = Inr (xs ! i)"
  by (simp add: py_index_def)

text \<open>Where a combination of parameters is in the table: no streams at all count as eight.\<close>

definition bandwidth_column :: "nat \<Rightarrow> nat" where
  "bandwidth_column bw = (if bw = 20 then 0 else if bw = 40 then 2 else if bw = 80 then 4 else 6)"

lemma calculate_column [simp]:
  "bw \<in> {20, 40, 80, 160} \<Longrightarrow> calculate_column_index gi bw = Inr (bandwidth_column bw + gi)"
  by (auto simp: calculate_column_index_def column_offset_by_bwMHz_def bandwidth_column_def)

lemma column_bound: "gi < 2 \<Longrightarrow> bandwidth_column bw + gi < 8"
  by (simp add: bandwidth_column_def)

lemma vht_rate_entry:
  assumes "mcs < 10" and "1 \<le> nss" and "nss \<le> 8" and "gi < 2" and "bw \<in> {20, 40, 80, 160}"
  shows "vht_rate mcs nss gi bw =
    Inr (vht_rate_table ! (mcs + (nss - 1) * 10) ! (bandwidth_column bw + gi))"
proof -
  have "calculate_row_index mcs nss = int (mcs + (nss - 1) * 10)"
    using assms by (simp add: calculate_row_index_def of_nat_diff)
  moreover have "mcs + (nss - 1) * 10 < 80"
    using assms by linarith
  moreover have "length (vht_rate_table ! (mcs + (nss - 1) * 10)) = 8"
    using calculation(2) table_entry [of _ 0] by simp
  ultimately show ?thesis
    using column_bound [OF assms(4), of bw]
    by (simp add: vht_rate_def calculate_column [OF assms(5)] del: of_nat_add of_nat_mult)
qed

lemma vht_rate_no_stream:
  assumes "mcs < 10"
  shows "vht_rate mcs 0 gi bw = vht_rate mcs 8 gi bw"
proof -
  have "py_index vht_rate_table (calculate_row_index mcs 0) =
      py_index vht_rate_table (calculate_row_index mcs 8)"
    using assms by (simp add: calculate_row_index_def py_index_def add.commute)
  then show ?thesis
    by (simp add: vht_rate_def split: sum.splits)
qed

lemma vht_rate_too_many:
  assumes "8 < nss" and "bw \<in> {20, 40, 80, 160}"
  shows "vht_rate mcs nss gi bw = Inl IndexError"
  using assms by (simp add: vht_rate_def calculate_row_index_def py_index_def)

lemma map_of_mcs_by_vht_index:
  "(\<exists>descr. map_of mcs_by_vht_index mcs = Some descr) \<longleftrightarrow> mcs < 10"
  by (auto simp: mcs_by_vht_index_def)

lemma nominal_of_entry:
  assumes "near_nominal (mcs + (nss - 1) * 10) (bandwidth_column bw + gi) (Some v)"
    and "mcs < 10" and "1 \<le> nss" and "nss \<le> 8" and "gi < 2" and "bw \<in> {20, 40, 80, 160}"
  shows "\<bar>v - nominal_rate mcs nss gi bw\<bar> \<le> 1 / 20 \<or> (mcs, nss, gi, bw) = (6, 2, 1, 20)"
    and "6 < v" and "v < 7000"
proof -
  have r: "(mcs + (nss - 1) * 10) mod 10 = mcs" "(mcs + (nss - 1) * 10) div 10 + 1 = nss"
    using assms by auto
  have "gi = 0 \<or> gi = 1"
    using assms(5) by linarith
  then have c: "(bandwidth_column bw + gi) mod 2 = gi"
    "20 * 2 ^ ((bandwidth_column bw + gi) div 2) = bw"
    using assms(6) by (auto simp: bandwidth_column_def)
  have "mcs = 6 \<and> nss = 2" if "mcs + (nss - 1) * 10 = 16"
    using that assms(2,3) by presburger
  moreover have "bw = 20 \<and> gi = 1" if "bandwidth_column bw + gi = 1"
    using that assms(5,6) by (auto simp: bandwidth_column_def split: if_splits)
  ultimately show "\<bar>v - nominal_rate mcs nss gi bw\<bar> \<le> 1 / 20 \<or> (mcs, nss, gi, bw) = (6, 2, 1, 20)"
    using assms(1) unfolding near_nominal_def r c by auto
  show "6 < v" "v < 7000"
    using assms(1) by (simp_all add: near_nominal_def)
qed

lemma py_index_set: "py_index xs i = Inr x \<Longrightarrow> x \<in> set xs"
  by (auto simp: py_index_def split: if_splits)

lemma vht_description_bounds:
  assumes "vht_rate_description mcs nss gi bw = Inr d" and "gi < 2" and "bw \<in> {20, 40, 80, 160}"
  shows "vht_mcs_index d = mcs \<and> mcs < 10 \<and>
    (\<forall>r. vht_rate_mbps d = Some r \<longrightarrow> 6 < r \<and> r < 7000)"
proof -
  obtain descr where "map_of mcs_by_vht_index mcs = Some descr"
    and rate: "vht_rate mcs nss gi bw = Inr (vht_rate_mbps d)" and d: "vht_mcs_index d = mcs"
    using assms(1) by (auto simp: vht_rate_description_def split: option.splits sum.splits)
  then have mcs: "mcs < 10"
    using map_of_mcs_by_vht_index by blast
  have "nss \<le> 8"
    using vht_rate_too_many [of nss bw mcs gi] rate assms(3) by fastforce
  define n where "n = (if nss = 0 then 8 else nss)"
  have n: "1 \<le> n" "n \<le> 8"
    using \<open>nss \<le> 8\<close> by (auto simp: n_def)
  have "vht_rate mcs n gi bw = Inr (vht_rate_mbps d)"
    using rate vht_rate_no_stream [OF mcs, of gi bw] by (cases "nss = 0") (auto simp: n_def)
  then have entry: "vht_rate_mbps d =
      vht_rate_table ! (mcs + (n - 1) * 10) ! (bandwidth_column bw + gi)"
    using vht_rate_entry [OF mcs n assms(2,3)] by simp
  have "near_nominal (mcs + (n - 1) * 10) (bandwidth_column bw + gi) (vht_rate_mbps d)"
    unfolding entry using table_entry [OF _ column_bound [OF assms(2)]] mcs n by simp
  then show ?thesis
    using nominal_of_entry(2,3) [OF _ mcs n assms(2,3)] d mcs by auto
qed

subsection \<open>The table and the equation\<close>

text \<open>
  For every modulation index, number of streams, guard interval and bandwidth the table has, the
  description is found, and its rate, where there is one, is the equation's, rounded, but for one
  entry. A frame that claims no stream at all is described with the rate of eight, more than eight
  streams raise \<open>IndexError\<close>, and an index above 9 raises \<open>KeyError\<close>.
\<close>

theorem vht_rates_nominal:
  assumes "gi < 2" and "bw \<in> {20, 40, 80, 160}"
  shows "(mcs < 10 \<and> 1 \<le> nss \<and> nss \<le> 8 \<longrightarrow>
      (\<exists>d. vht_rate_description mcs nss gi bw = Inr d \<and> vht_mcs_index d = mcs \<and>
        (\<forall>r. vht_rate_mbps d = Some r \<and> (mcs, nss, gi, bw) \<noteq> (6, 2, 1, 20) \<longrightarrow>
          \<bar>r - nominal_rate mcs nss gi bw\<bar> \<le> 1 / 20)))
    \<and> (mcs < 10 \<longrightarrow> vht_rate_description mcs 0 gi bw = vht_rate_description mcs 8 gi bw)
    \<and> (mcs < 10 \<and> 8 < nss \<longrightarrow> vht_rate_description mcs nss gi bw = Inl IndexError)
    \<and> (10 \<le> mcs \<longrightarrow> vht_rate_description mcs nss gi bw = Inl KeyError)
    \<and> vht_rate 6 2 1 20 = Inr (Some 130.3) \<and> nominal_rate 6 2 1 20 = 130"
proof -
  obtain descr where descr: "map_of mcs_by_vht_index mcs = Some descr" if "mcs < 10"
    using map_of_mcs_by_vht_index by blast
  have unknown: "map_of mcs_by_vht_index mcs = None" if "10 \<le> mcs"
    using that map_of_mcs_by_vht_index [of mcs] by (cases "map_of mcs_by_vht_index mcs") auto
  have found: "\<exists>d. vht_rate_description mcs nss gi bw = Inr d \<and> vht_mcs_index d = mcs \<and>
      (\<forall>r. vht_rate_mbps d = Some r \<and> (mcs, nss, gi, bw) \<noteq> (6, 2, 1, 20) \<longrightarrow>
        \<bar>r - nominal_rate mcs nss gi bw\<bar> \<le> 1 / 20)"
    if n: "mcs < 10" "1 \<le> nss" "nss \<le> 8"
  proof -
    let ?e = "vht_rate_table ! (mcs + (nss - 1) * 10) ! (bandwidth_column bw + gi)"
    have "near_nominal (mcs + (nss - 1) * 10) (bandwidth_column bw + gi) ?e"
      using table_entry [OF _ column_bound [OF assms(1)]] n by simp
    then show ?thesis
      using nominal_of_entry(1) [OF _ n assms] descr [OF n(1)] vht_rate_entry [OF n assms]
      by (auto simp: vht_rate_description_def)
  qed
  have "vht_rate 6 2 1 20 = Inr (Some 130.3)"
    using vht_rate_entry [of 6 2 1 20] by (simp add: bandwidth_column_def vht_rate_table_def)
  then show ?thesis
    using found descr unknown vht_rate_no_stream [of mcs gi bw] vht_rate_too_many [of nss bw mcs gi] assms
    by (simp add: vht_rate_description_def nominal_rate_def subcarriers_def
        bits_per_subcarrier_def symbol_time_def)
qed

theorem vht_rates_nominal_witness:
  "\<exists>d. vht_rate_description 9 3 1 80 = Inr d \<and> vht_mcs_index d = 9 \<and>
     (\<forall>r. vht_rate_mbps d = Some r \<longrightarrow> \<bar>r - 1300\<bar> \<le> 1 / 20)"
proof -
  have "nominal_rate 9 3 1 80 = 1300"
    by (simp add: nominal_rate_def subcarriers_def bits_per_subcarrier_def symbol_time_def)
  then show ?thesis
    using vht_rates_nominal [of 1 80 9 3] by simp
qed

end
