(* ===== verification/Radiotap.thy ===== *)
theory Radiotap
  imports Vht "HOL-Library.AList"
begin

section \<open>The radiotap header\<close>

text \<open>
  Models \<open>external/python_radiotap/radiotap/radiotap.py\<close>: the parser of the header a monitor
  interface puts before a captured frame. A dictionary is an association list in insertion order, its
  keys are those of Python (text; bytes and \<open>None\<close> are used by one lookup), and its values are
  those the parsers put in. The generator of the presence bits is the list of what it yields, with
  the exception that ends it as the last element.
\<close>

unbundle bit_operations_syntax

subsection \<open>Values and bytes\<close>

datatype dict_key = KStr string | KBytes bytes | KNone

record vht_user_info =
  user_coding :: nat
  user_rate :: "vht_description option"

datatype rt_value =
    RInt int
  | RFloat rat
  | RBytes bytes
  | RText string
  | RNone
  | RUsers "(nat \<times> vht_user_info) list"

type_synonym dict = "(dict_key \<times> rt_value) list"

text \<open>\<open>struct.unpack_from\<close> with a little-endian format: the sizes of its unsigned fields.\<close>

fun le_value :: "bytes \<Rightarrow> nat" where
  "le_value [] = 0"
| "le_value (b # bs) = unat b + 256 * le_value bs"

fun le_fields :: "nat list \<Rightarrow> bytes \<Rightarrow> nat list" where
  "le_fields [] bs = []"
| "le_fields (n # ns) bs = le_value (take n bs) # le_fields ns (drop n bs)"

definition struct_unpack :: "nat list \<Rightarrow> bytes \<Rightarrow> nat \<Rightarrow> exn + nat list" where
  "struct_unpack sizes packet offset =
     (if offset + sum_list sizes \<le> length packet then Inr (le_fields sizes (drop offset packet))
      else Inl StructError)"

definition signed_byte :: "nat \<Rightarrow> int" where
  "signed_byte n = (if n < 128 then int n else int n - 256)"

definition align :: "nat \<Rightarrow> nat \<Rightarrow> nat" where
  "align val a = nat ((int val + int a - 1) AND NOT (int a - 1))"

definition mcs_rate_table :: "rat list list" where
  "mcs_rate_table = [
     [6.5, 7.2, 13.5, 15.0],
     [13.0, 14.4, 27.0, 30.0],
     [19.5, 21.7, 40.5, 45.0],
     [26.0, 28.9, 54.0, 60.0],
     [39.0, 43.3, 81.0, 90.0],
     [52.0, 57.8, 108.0, 120.0],
     [58.5, 65.0, 121.5, 135.0],
     [65.0, 72.2, 135.0, 150.0],
     [13.0, 14.4, 27.0, 30.0],
     [26.0, 28.9, 54.0, 60.0],
     [39.0, 43.3, 81.0, 90.0],
     [52.0, 57.8, 108.0, 120.0],
     [78.0, 86.7, 162.0, 180.0],
     [104.0, 115.6, 216.0, 240.0],
     [117.0, 130.0, 243.0, 270.0],
     [130.0, 144.4, 270.0, 300.0],
     [19.5, 21.7, 40.5, 45.0],
     [39.0, 43.3, 81.0, 90.0],
     [58.5, 65.0, 121.5, 135.0],
     [78.0, 86.7, 162.0, 180.0],
     [117.0, 130.0, 243.0, 270.0],
     [156.0, 173.3, 324.0, 360.0],
     [175.5, 195.0, 364.5, 405.0],
     [195.0, 216.7, 405.0, 450.0],
     [26.0, 28.8, 54.0, 60.0],
     [52.0, 57.6, 108.0, 120.0],
     [78.0, 86.8, 162.0, 180.0],
     [104.0, 115.6, 216.0, 240.0],
     [156.0, 173.2, 324.0, 360.0],
     [208.0, 231.2, 432.0, 480.0],
     [234.0, 260.0, 486.0, 540.0],
     [260.0, 288.8, 540.0, 600.0]]"

subsection \<open>The fields\<close>

definition parse_mactime :: "bytes \<Rightarrow> nat \<Rightarrow> exn + nat \<times> dict" where
  "parse_mactime packet offset0 =
     (let offset = align offset0 8
      in case struct_unpack [8] packet offset of
           Inl e \<Rightarrow> Inl e
         | Inr v \<Rightarrow> Inr (offset + 8, [(KStr ''TSFT'', RInt (int (v ! 0)))]))"

definition parse_flags :: "bytes \<Rightarrow> nat \<Rightarrow> exn + nat \<times> dict" where
  "parse_flags packet offset =
     (case struct_unpack [1] packet offset of
        Inl e \<Rightarrow> Inl e
      | Inr v \<Rightarrow> Inr (offset + 1, [(KStr ''flags'', RInt (int (v ! 0)))]))"

definition parse_rate :: "bytes \<Rightarrow> nat \<Rightarrow> exn + nat \<times> dict" where
  "parse_rate packet offset =
     (case struct_unpack [1] packet offset of
        Inl e \<Rightarrow> Inl e
      | Inr v \<Rightarrow> Inr (offset + 1, [(KStr ''rate'', RFloat (of_nat (v ! 0) / 2))]))"

definition parse_channel :: "bytes \<Rightarrow> nat \<Rightarrow> exn + nat \<times> dict" where
  "parse_channel packet offset0 =
     (let offset = align offset0 2
      in case struct_unpack [2, 2] packet offset of
           Inl e \<Rightarrow> Inl e
         | Inr v \<Rightarrow> Inr (offset + 4,
             [(KStr ''chan_freq'', RInt (int (v ! 0))), (KStr ''chan_flags'', RInt (int (v ! 1)))]))"

definition parse_fhss :: "bytes \<Rightarrow> nat \<Rightarrow> exn + nat \<times> dict" where
  "parse_fhss packet offset =
     (case struct_unpack [2] packet offset of
        Inl e \<Rightarrow> Inl e
      | Inr v \<Rightarrow> Inr (offset + 2, [(KStr ''fhss'', RInt (int (v ! 0)))]))"

definition parse_dbm_antsignal :: "bytes \<Rightarrow> nat \<Rightarrow> exn + nat \<times> dict" where
  "parse_dbm_antsignal packet offset =
     (case struct_unpack [1] packet offset of
        Inl e \<Rightarrow> Inl e
      | Inr v \<Rightarrow> Inr (offset + 1, [(KStr ''dbm_antsignal'', RInt (signed_byte (v ! 0)))]))"

definition parse_dbm_antnoise :: "bytes \<Rightarrow> nat \<Rightarrow> exn + nat \<times> dict" where
  "parse_dbm_antnoise packet offset =
     (case struct_unpack [1] packet offset of
        Inl e \<Rightarrow> Inl e
      | Inr v \<Rightarrow> Inr (offset + 1, [(KStr ''dbm_antnoise'', RInt (signed_byte (v ! 0)))]))"

definition parse_lock_quality :: "bytes \<Rightarrow> nat \<Rightarrow> exn + nat \<times> dict" where
  "parse_lock_quality packet offset0 =
     (let offset = align offset0 2
      in case struct_unpack [2] packet offset of
           Inl e \<Rightarrow> Inl e
         | Inr v \<Rightarrow> Inr (offset + 2, [(KStr ''lock_quality'', RInt (int (v ! 0)))]))"

definition parse_tx_attenuation :: "bytes \<Rightarrow> nat \<Rightarrow> exn + nat \<times> dict" where
  "parse_tx_attenuation packet offset0 =
     (let offset = align offset0 2
      in case struct_unpack [2] packet offset of
           Inl e \<Rightarrow> Inl e
         | Inr v \<Rightarrow> Inr (offset + 2, [(KStr ''tx_attenuation'', RInt (int (v ! 0)))]))"

definition parse_db_tx_attenuation :: "bytes \<Rightarrow> nat \<Rightarrow> exn + nat \<times> dict" where
  "parse_db_tx_attenuation packet offset0 =
     (let offset = align offset0 2
      in case struct_unpack [2] packet offset of
           Inl e \<Rightarrow> Inl e
         | Inr v \<Rightarrow> Inr (offset + 2, [(KStr ''db_tx_attenuation'', RInt (int (v ! 0)))]))"

definition parse_dbm_tx_power :: "bytes \<Rightarrow> nat \<Rightarrow> exn + nat \<times> dict" where
  "parse_dbm_tx_power packet offset =
     (case struct_unpack [1] packet offset of
        Inl e \<Rightarrow> Inl e
      | Inr v \<Rightarrow> Inr (offset + 1, [(KStr ''dbm_tx_power'', RInt (signed_byte (v ! 0)))]))"

definition parse_antenna :: "bytes \<Rightarrow> nat \<Rightarrow> exn + nat \<times> dict" where
  "parse_antenna packet offset =
     (case struct_unpack [1] packet offset of
        Inl e \<Rightarrow> Inl e
      | Inr v \<Rightarrow> Inr (offset + 1, [(KStr ''antenna'', RInt (int (v ! 0)))]))"

definition parse_db_antsignal :: "bytes \<Rightarrow> nat \<Rightarrow> exn + nat \<times> dict" where
  "parse_db_antsignal packet offset =
     (case struct_unpack [1] packet offset of
        Inl e \<Rightarrow> Inl e
      | Inr v \<Rightarrow> Inr (offset + 1, [(KStr ''db_antsignal'', RInt (int (v ! 0)))]))"

definition parse_db_antnoise :: "bytes \<Rightarrow> nat \<Rightarrow> exn + nat \<times> dict" where
  "parse_db_antnoise packet offset =
     (case struct_unpack [1] packet offset of
        Inl e \<Rightarrow> Inl e
      | Inr v \<Rightarrow> Inr (offset + 1, [(KStr ''db_antnoise'', RInt (int (v ! 0)))]))"

definition parse_rx_flags :: "bytes \<Rightarrow> nat \<Rightarrow> exn + nat \<times> dict" where
  "parse_rx_flags packet offset0 =
     (let offset = align offset0 2
      in case struct_unpack [2] packet offset of
           Inl e \<Rightarrow> Inl e
         | Inr v \<Rightarrow> Inr (offset + 2, [(KStr ''rx_flags'', RInt (int (v ! 0)))]))"

definition parse_tx_flags :: "bytes \<Rightarrow> nat \<Rightarrow> exn + nat \<times> dict" where
  "parse_tx_flags packet offset =
     (case struct_unpack [1] packet offset of
        Inl e \<Rightarrow> Inl e
      | Inr v \<Rightarrow> Inr (offset + 1, [(KStr ''tx_flags'', RInt (int (v ! 0)))]))"

definition parse_rts_retries :: "bytes \<Rightarrow> nat \<Rightarrow> exn + nat \<times> dict" where
  "parse_rts_retries packet offset =
     (case struct_unpack [1] packet offset of
        Inl e \<Rightarrow> Inl e
      | Inr v \<Rightarrow> Inr (offset + 1, [(KStr ''rts_retries'', RInt (int (v ! 0)))]))"

definition parse_data_retries :: "bytes \<Rightarrow> nat \<Rightarrow> exn + nat \<times> dict" where
  "parse_data_retries packet offset =
     (case struct_unpack [1] packet offset of
        Inl e \<Rightarrow> Inl e
      | Inr v \<Rightarrow> Inr (offset + 1, [(KStr ''data_retries'', RInt (int (v ! 0)))]))"

definition parse_xchannel :: "bytes \<Rightarrow> nat \<Rightarrow> exn + nat \<times> dict" where
  "parse_xchannel packet offset0 =
     (let offset = align offset0 4
      in case struct_unpack [4, 2, 1, 1] packet offset of
           Inl e \<Rightarrow> Inl e
         | Inr v \<Rightarrow> Inr (offset + 8,
             [(KStr ''xchannel_flags'', RInt (int (v ! 0))), (KStr ''xchannel_freq'', RInt (int (v ! 1))),
              (KStr ''xchannel_num'', RInt (int (v ! 2))),
              (KStr ''xchannel_maxpower'', RInt (int (v ! 3)))]))"

text \<open>A row of the table is indexed by two flags.\<close>

definition parse_mcs :: "bytes \<Rightarrow> nat \<Rightarrow> exn + nat \<times> dict" where
  "parse_mcs packet offset =
     (case struct_unpack [1, 1, 1] packet offset of
        Inl e \<Rightarrow> Inl e
      | Inr v \<Rightarrow>
          let mcs_known = v ! 0; mcs_flags = v ! 1; mcs_index = v ! 2;
              is_40 = (mcs_flags AND 0x3 = 1);
              short_gi = (mcs_flags AND 0x04 \<noteq> 0)
          in case py_index mcs_rate_table (int mcs_index) of
               Inl e \<Rightarrow> Inl e
             | Inr row \<Rightarrow>
                 (case py_index row (2 * of_bool is_40 + of_bool short_gi) of
                    Inl e \<Rightarrow> Inl e
                  | Inr mcs_rate \<Rightarrow> Inr (offset + 3,
                      [(KStr ''mcs_known'', RInt (int mcs_known)), (KStr ''mcs_flags'', RInt (int mcs_flags)),
                       (KStr ''mcs_index'', RInt (int mcs_index)), (KStr ''mcs_rate'', RFloat mcs_rate)])))"

definition parse_ampdu :: "bytes \<Rightarrow> nat \<Rightarrow> exn + nat \<times> dict" where
  "parse_ampdu packet offset =
     (case struct_unpack [4, 2, 1, 1] packet offset of
        Inl e \<Rightarrow> Inl e
      | Inr v \<Rightarrow> Inr (offset + 8,
          [(KStr ''ampdu_refnum'', RInt (int (v ! 0))), (KStr ''ampdu_flags'', RInt (int (v ! 1))),
           (KStr ''ampdu_delim_crc_val'', RInt (int (v ! 2))),
           (KStr ''ampdu_reserved'', RInt (int (v ! 3)))]))"

text \<open>\<open>>>\<close> binds tighter than \<open>&\<close>: the mask of the number of streams is \<open>0xf0 >> 4\<close>.\<close>

fun vht_users :: "nat \<Rightarrow> nat \<Rightarrow> nat option \<Rightarrow> nat option \<Rightarrow> nat list \<Rightarrow>
    exn + (nat \<times> vht_user_info) list" where
  "vht_users i vht_coding gi bandwidth [] = Inr []"
| "vht_users i vht_coding gi bandwidth (vht_user # us) =
     (if vht_user = 0 then vht_users (i + 1) vht_coding gi bandwidth us
      else
        let vht_nss_n = vht_user AND drop_bit 4 0xf0;
            vht_mcs_index_n = drop_bit 4 (vht_user AND 0xf0);
            coding = drop_bit i (vht_coding AND 2 ^ i);
            rate = (case (gi, bandwidth) of
                      (Some g, Some bw) \<Rightarrow>
                        (case vht_rate_description vht_mcs_index_n vht_nss_n g bw of
                           Inl e \<Rightarrow> Inl e
                         | Inr d \<Rightarrow> Inr (Some d))
                    | _ \<Rightarrow> Inr None)
        in case rate of
             Inl e \<Rightarrow> Inl e
           | Inr r \<Rightarrow>
               (case vht_users (i + 1) vht_coding gi bandwidth us of
                  Inl e \<Rightarrow> Inl e
                | Inr rest \<Rightarrow> Inr ((i, \<lparr>user_coding = coding, user_rate = r\<rparr>) # rest)))"

definition opt_int :: "nat option \<Rightarrow> rt_value" where
  "opt_int v = (case v of None \<Rightarrow> RNone | Some n \<Rightarrow> RInt (int n))"

text \<open>The guard interval and the bandwidth, where the frame says that they are known.\<close>

definition vht_gi :: "nat \<Rightarrow> nat \<Rightarrow> nat option" where
  "vht_gi vht_known vht_flags =
     (if vht_known AND 0x0004 \<noteq> 0 then Some (drop_bit 2 (vht_flags AND 0x04)) else None)"

definition vht_bandwidth :: "nat \<Rightarrow> nat \<Rightarrow> exn + nat option" where
  "vht_bandwidth vht_known vht_bw =
     (if vht_known AND 0x0040 \<noteq> 0
      then (case py_index vht_bandwidth_lut (int (0x1f AND vht_bw)) of
              Inl e \<Rightarrow> Inl e
            | Inr (mhz, _, _) \<Rightarrow> Inr (Some mhz))
      else Inr None)"

definition parse_vht :: "bytes \<Rightarrow> nat \<Rightarrow> exn + nat \<times> dict" where
  "parse_vht packet offset =
     (case struct_unpack [2, 1, 1, 1, 1, 1, 1, 1, 1, 2] packet offset of
        Inl e \<Rightarrow> Inl e
      | Inr v \<Rightarrow>
          let vht_known = v ! 0; vht_flags = v ! 1; vht_bw = v ! 2;
              vht_coding = v ! 7; vht_group_id = v ! 8; gi = vht_gi vht_known vht_flags
          in case vht_bandwidth vht_known vht_bw of
               Inl e \<Rightarrow> Inl e
             | Inr bandwidth \<Rightarrow>
                 (case vht_users 0 vht_coding gi bandwidth [v ! 3, v ! 4, v ! 5, v ! 6] of
                    Inl e \<Rightarrow> Inl e
                  | Inr vht_per_user \<Rightarrow> Inr (offset + 12,
                      [(KStr ''vht_known'', RInt (int vht_known)), (KStr ''vht_flags'', RInt (int vht_flags)),
                       (KStr ''vht_bw'', RInt (int vht_bw)), (KStr ''vht_coding'', RInt (int vht_coding)),
                       (KStr ''vht_group_id'', RInt (int vht_group_id)), (KStr ''vht_gi'', opt_int gi),
                       (KStr ''vht_bandwidth'', opt_int bandwidth),
                       (KStr ''vht_user'', RUsers vht_per_user)])))"

definition parse_vendor :: "bytes \<Rightarrow> nat \<Rightarrow> exn + nat \<times> dict" where
  "parse_vendor packet offset0 =
     (let start = align offset0 2
      in case struct_unpack [3, 1, 2] packet start of
           Inl e \<Rightarrow> Inl e
         | Inr v \<Rightarrow>
             let offset = start + 6; len = v ! 2
             in Inr (offset + len,
                  [(KStr ''oui'', RBytes (take 3 (drop start packet))), (KStr ''subns'', RInt (int (v ! 1))),
                   (KStr ''data'', RBytes (take len (drop offset packet))), (KStr ''present'', RInt 0)]))"

text \<open>The parsers in the order of their presence bits. Both parts of the result may be \<open>None\<close>.\<close>

definition dispatch_table :: "(bytes \<Rightarrow> nat \<Rightarrow> exn + nat \<times> dict) list" where
  "dispatch_table =
     [parse_mactime, parse_flags, parse_rate, parse_channel, parse_fhss, parse_dbm_antsignal,
      parse_dbm_antnoise, parse_lock_quality, parse_tx_attenuation, parse_db_tx_attenuation,
      parse_dbm_tx_power, parse_antenna, parse_db_antsignal, parse_db_antnoise, parse_rx_flags,
      parse_tx_flags, parse_rts_retries, parse_data_retries, parse_xchannel, parse_mcs, parse_ampdu,
      parse_vht]"

definition parse_radiotap_field ::
  "string \<Rightarrow> nat \<Rightarrow> bytes \<Rightarrow> nat \<Rightarrow> exn + nat option \<times> dict option" where
  "parse_radiotap_field namespace field_id packet offset =
     (if namespace \<noteq> '''' \<and> namespace \<noteq> ''radiotap'' then Inr (Some offset, None)
      else if field_id \<ge> length dispatch_table then Inr (None, Some [])
      else (case (dispatch_table ! field_id) packet offset of
              Inl e \<Rightarrow> Inl e
            | Inr (off, flds) \<Rightarrow> Inr (Some off, Some flds)))"

subsection \<open>The presence bits\<close>

text \<open>What the generator yields: the namespace, and a presence bit or \<open>None\<close> at a switch.\<close>

type_synonym rt_event = "string \<times> nat option"

fun bit_events :: "nat \<Rightarrow> nat \<Rightarrow> nat list \<Rightarrow> string \<Rightarrow> bool \<Rightarrow> rt_event list \<times> string \<times> bool" where
  "bit_events present cnt [] namespace reset_count = ([], namespace, reset_count)"
| "bit_events present cnt (i # bits) namespace reset_count =
     (if \<not> bit present i then bit_events present cnt bits namespace reset_count
      else if i = 29 then
        (let (evs, r) = bit_events present cnt bits ''radiotap'' True in ((''radiotap'', None) # evs, r))
      else if i = 30 then
        (let (evs, r) = bit_events present cnt bits ''vendor'' True in ((''vendor'', None) # evs, r))
      else if i = 31 then bit_events present cnt bits namespace reset_count
      else
        (let (evs, r) = bit_events present cnt bits namespace reset_count
         in ((namespace, Some (cnt + i)) # evs, r)))"

fun present_bits_loop :: "bytes \<Rightarrow> nat \<Rightarrow> string \<Rightarrow> (exn + rt_event) list" where
  "present_bits_loop [] cnt namespace = []"
| "present_bits_loop (b # bs) cnt namespace =
     (case struct_unpack [4] (b # bs) 0 of
        Inl e \<Rightarrow> [Inl e]
      | Inr v \<Rightarrow>
          (case bit_events (v ! 0) cnt [0..<32] namespace False of
             (evs, ns, reset_count) \<Rightarrow>
               map Inr evs @ present_bits_loop (drop 3 bs) (if reset_count then 0 else cnt + 32) ns))"

definition present_bits :: "bytes \<Rightarrow> (exn + rt_event) list" where
  "present_bits bitmap = present_bits_loop bitmap 0 ''radiotap''"

subsection \<open>Collecting the fields\<close>

text \<open>The result is a dictionary, or a list of dictionaries when \<open>valuelist\<close> is set.\<close>

datatype rt_values = RDict dict | RList "dict list"

definition dict_update :: "dict \<Rightarrow> dict \<Rightarrow> dict" where
  "dict_update d flds = foldl (\<lambda>acc (k, v). AList.update k v acc) d flds"

definition add_fields :: "rt_values \<Rightarrow> dict option \<Rightarrow> rt_values" where
  "add_fields d flds =
     (case flds of
        None \<Rightarrow> d
      | Some [] \<Rightarrow> d
      | Some fs \<Rightarrow> (case d of RList ds \<Rightarrow> RList (ds @ [fs]) | RDict d' \<Rightarrow> RDict (dict_update d' fs)))"

definition vendor_key :: "bytes option \<Rightarrow> dict_key" where
  "vendor_key oui = (case oui of None \<Rightarrow> KNone | Some b \<Rightarrow> KBytes b)"

text \<open>In a dictionary the target is a value of the dictionary, which has no \<open>''present''\<close>.\<close>

definition or_present :: "nat \<Rightarrow> dict \<Rightarrow> exn + dict" where
  "or_present b tgt =
     (case map_of tgt (KStr ''present'') of
        None \<Rightarrow> Inl KeyError
      | Some (RInt n) \<Rightarrow> Inr (AList.update (KStr ''present'') (RInt (n OR push_bit b 1)) tgt)
      | Some _ \<Rightarrow> Inl (TypeError ''unsupported operand''))"

definition add_vendor_presence_bit :: "rt_values \<Rightarrow> bytes option \<Rightarrow> nat \<Rightarrow> exn + rt_values" where
  "add_vendor_presence_bit d oui b =
     (case d of
        RList ds \<Rightarrow>
          if ds = [] then Inl IndexError
          else (case or_present b (last ds) of
                  Inl e \<Rightarrow> Inl e
                | Inr tgt \<Rightarrow> Inr (RList (butlast ds @ [tgt])))
      | RDict d' \<Rightarrow>
          (case map_of d' (vendor_key oui) of
             None \<Rightarrow> Inl KeyError
           | Some (RUsers _) \<Rightarrow> Inl KeyError
           | Some _ \<Rightarrow> Inl (TypeError ''not subscriptable'')))"

subsection \<open>The header\<close>

function skip_bitmaps :: "bytes \<Rightarrow> nat \<Rightarrow> nat \<Rightarrow> exn + nat" where
  "skip_bitmaps packet present offset =
     (if bit present 31
      then (case struct_unpack [4] (drop offset packet) 0 of
              Inl e \<Rightarrow> Inl e
            | Inr v \<Rightarrow> skip_bitmaps packet (v ! 0) (offset + 4))
      else Inr offset)"
  by pat_completeness auto
termination
  by (relation "measure (\<lambda>(packet, _, offset). length packet - offset)")
    (auto simp: struct_unpack_def split: if_splits)

declare skip_bitmaps.simps [simp del]

fun field_loop :: "(exn + rt_event) list \<Rightarrow> bytes \<Rightarrow> nat \<Rightarrow> nat \<Rightarrow> bytes option \<Rightarrow> rt_values \<Rightarrow>
    exn + rt_values" where
  "field_loop [] packet radiotap_len offset vendor_ns radiotap = Inr radiotap"
| "field_loop (Inl e # evs) packet radiotap_len offset vendor_ns radiotap = Inl e"
| "field_loop (Inr (namespace, None) # evs) packet radiotap_len offset vendor_ns radiotap =
     (if namespace = ''vendor''
      then (case parse_vendor packet offset of
              Inl e \<Rightarrow> Inl e
            | Inr (off, flds) \<Rightarrow>
                (case map_of flds (KStr ''oui'') of
                   Some (RBytes oui) \<Rightarrow>
                     field_loop evs packet radiotap_len off (Some oui) (add_fields radiotap (Some flds))
                 | _ \<Rightarrow> Inl KeyError))
      else field_loop evs packet radiotap_len offset vendor_ns radiotap)"
| "field_loop (Inr (namespace, Some i) # evs) packet radiotap_len offset vendor_ns radiotap =
     (case (if namespace = ''vendor'' then add_vendor_presence_bit radiotap vendor_ns i
            else Inr radiotap) of
        Inl e \<Rightarrow> Inl e
      | Inr r \<Rightarrow>
          (case parse_radiotap_field namespace i packet offset of
             Inl e \<Rightarrow> Inl e
           | Inr (off, flds) \<Rightarrow>
               let r' = add_fields r flds
               in case off of
                    None \<Rightarrow> Inr r'
                  | Some o' \<Rightarrow>
                      if o' = radiotap_len then Inr r'
                      else field_loop evs packet radiotap_len o' vendor_ns r'))"

definition radiotap_parse :: "bytes \<Rightarrow> bool \<Rightarrow> exn + nat \<times> rt_values" where
  "radiotap_parse packet valuelist =
     (if length packet < 8 then Inr (0, RDict [])
      else case struct_unpack [1, 1, 2, 4] packet 0 of
        Inl e \<Rightarrow> Inl e
      | Inr v \<Rightarrow>
          let version = v ! 0; pad = v ! 1; radiotap_len = v ! 2; present = v ! 3
          in if version \<noteq> 0 \<or> pad \<noteq> 0 \<or> radiotap_len > length packet then Inr (0, RDict [])
             else (case skip_bitmaps packet present 8 of
                     Inl e \<Rightarrow> Inl e
                   | Inr offset \<Rightarrow>
                       (case field_loop (present_bits (take (offset - 4) (drop 4 packet))) packet
                          radiotap_len offset None (if valuelist then RList [] else RDict []) of
                          Inl e \<Rightarrow> Inl e
                        | Inr radiotap \<Rightarrow> Inr (radiotap_len, radiotap))))"

subsection \<open>Little-endian numbers\<close>

fun le_bytes :: "nat \<Rightarrow> nat \<Rightarrow> bytes" where
  "le_bytes 0 n = []"
| "le_bytes (Suc k) n = word_of_nat n # le_bytes k (n div 256)"

lemma length_le_bytes [simp]: "length (le_bytes k n) = k"
  by (induction k arbitrary: n) auto

lemma le_value_bytes: "le_value (le_bytes k n) = n mod 256 ^ k"
proof (induction k arbitrary: n)
  case (Suc k)
  have "n mod (256 * 256 ^ k) = n mod 256 + 256 * (n div 256 mod 256 ^ k)"
    by (simp add: mod_mult2_eq)
  with Suc show ?case
    by (simp add: unsigned_of_nat take_bit_eq_mod)
qed simp

lemma le_value_bound: "le_value bs < 256 ^ length bs"
proof (induction bs)
  case (Cons b bs)
  have "256 * le_value bs + 256 \<le> 256 * 256 ^ length bs"
    using Cons by simp
  with unat_byte_less [of b] show ?case
    by (simp del: unat_byte_less)
qed simp

lemma le_fields_bound:
  "sum_list ns \<le> length bs \<Longrightarrow>
     list_all2 (\<lambda>n v. v < 256 ^ n) ns (le_fields ns bs)"
proof (induction ns arbitrary: bs)
  case (Cons n ns)
  then show ?case
    using le_value_bound [of "take n bs"] by (simp add: min_absorb2)
qed simp

lemma struct_unpack_bound:
  "struct_unpack sizes packet offset = Inr v \<Longrightarrow>
     offset + sum_list sizes \<le> length packet \<and> list_all2 (\<lambda>n x. x < 256 ^ n) sizes v"
  by (auto simp: struct_unpack_def le_fields_bound split: if_splits)

fun le_fields_bytes :: "nat list \<Rightarrow> nat list \<Rightarrow> bytes" where
  "le_fields_bytes (n # ns) (x # xs) = le_bytes n x @ le_fields_bytes ns xs"
| "le_fields_bytes _ _ = []"

lemma le_fields_inverse:
  "list_all2 (\<lambda>n x. x < 256 ^ n) ns xs \<Longrightarrow>
     length (le_fields_bytes ns xs) = sum_list ns \<and> le_fields ns (le_fields_bytes ns xs @ rest) = xs"
  by (induction rule: list_all2_induct) (auto simp: le_value_bytes)

lemma struct_unpack_bytes:
  assumes "list_all2 (\<lambda>n x. x < 256 ^ n) sizes v"
    and "drop offset packet = le_fields_bytes sizes v @ rest"
    and "offset \<le> length packet"
  shows "struct_unpack sizes packet offset = Inr v"
proof -
  have "length packet - offset = sum_list sizes + length rest"
    using le_fields_inverse [OF assms(1)] assms(2) by (metis length_append length_drop)
  then show ?thesis
    using le_fields_inverse [OF assms(1)] assms(2,3) by (simp add: struct_unpack_def)
qed

subsection \<open>Alignment\<close>

lemma align_power: "align v (2 ^ k) = (v + 2 ^ k - 1) div 2 ^ k * 2 ^ k"
proof -
  have cleared: "x AND NOT (mask k) = push_bit k (drop_bit k x)" for x :: int
    by (rule bit_eqI) (auto simp: bit_simps)
  have "1 \<le> v + (2::nat) ^ k"
    by (simp add: trans_le_add2)
  then have "int v + int (2 ^ k) - 1 = int (v + 2 ^ k - 1)"
    by (simp only: of_nat_diff of_nat_add of_nat_1)
  moreover have "int (2 ^ k) - 1 = mask k"
    by (simp add: mask_eq_exp_minus_1)
  ultimately have "align v (2 ^ k) = nat (push_bit k (drop_bit k (int (v + 2 ^ k - 1))))"
    unfolding align_def using cleared by metis
  also have "push_bit k (drop_bit k (int (v + 2 ^ k - 1))) = int ((v + 2 ^ k - 1) div 2 ^ k * 2 ^ k)"
    by (simp only: push_bit_eq_mult drop_bit_eq_div) (simp add: zdiv_int)
  finally show ?thesis
    by (simp only: nat_int)
qed

lemma align_values:
  "align v 1 = v" "align v (Suc 0) = v" "align v 2 = (v + 1) div 2 * 2" "align v 4 = (v + 3) div 4 * 4"
  "align v 8 = (v + 7) div 8 * 8"
  using align_power [of v 0] align_power [of v 1] align_power [of v 2] align_power [of v 3]
  by simp_all

lemma align_bounds:
  assumes "a \<in> {1, 2, 4, 8}"
  shows "v \<le> align v a" and "align v a < v + a"
  using assms by (auto simp: align_values)

subsection \<open>The layout of the fields\<close>

text \<open>For every presence bit: the alignment of its field, the sizes of its parts, and their names.\<close>

definition rt_layout :: "(nat \<times> nat list \<times> string list) list" where
  "rt_layout =
     [(8, [8], [''TSFT'']), (1, [1], [''flags'']), (1, [1], [''rate'']),
      (2, [2, 2], [''chan_freq'', ''chan_flags'']), (1, [2], [''fhss'']), (1, [1], [''dbm_antsignal'']),
      (1, [1], [''dbm_antnoise'']), (2, [2], [''lock_quality'']), (2, [2], [''tx_attenuation'']),
      (2, [2], [''db_tx_attenuation'']), (1, [1], [''dbm_tx_power'']), (1, [1], [''antenna'']),
      (1, [1], [''db_antsignal'']), (1, [1], [''db_antnoise'']), (2, [2], [''rx_flags'']),
      (1, [1], [''tx_flags'']), (1, [1], [''rts_retries'']), (1, [1], [''data_retries'']),
      (4, [4, 2, 1, 1], [''xchannel_flags'', ''xchannel_freq'', ''xchannel_num'', ''xchannel_maxpower'']),
      (1, [1, 1, 1], []),
      (1, [4, 2, 1, 1], [''ampdu_refnum'', ''ampdu_flags'', ''ampdu_delim_crc_val'', ''ampdu_reserved'']),
      (1, [2, 1, 1, 1, 1, 1, 1, 1, 1, 2], [])]"

definition rt_align :: "nat \<Rightarrow> nat" where
  "rt_align i = fst (rt_layout ! i)"

definition rt_sizes :: "nat \<Rightarrow> nat list" where
  "rt_sizes i = fst (snd (rt_layout ! i))"

definition rt_names :: "nat \<Rightarrow> string list" where
  "rt_names i = snd (snd (rt_layout ! i))"

text \<open>How the number in a part is read.\<close>

definition read_value :: "string \<Rightarrow> nat \<Rightarrow> rt_value" where
  "read_value k n =
     (if k = ''rate'' then RFloat (of_nat n / 2)
      else if k \<in> {''dbm_antsignal'', ''dbm_antnoise'', ''dbm_tx_power''} then RInt (signed_byte n)
      else RInt (int n))"

definition read_field :: "nat \<Rightarrow> nat list \<Rightarrow> dict" where
  "read_field i v = map2 (\<lambda>k n. (KStr k, read_value k n)) (rt_names i) v"

definition plain_ids :: "nat list" where
  "plain_ids = [0, 1, 2, 3, 4, 5, 6, 7, 8, 9, 10, 11, 12, 13, 14, 15, 16, 17, 18, 20]"

lemma plain_ids_cases:
  assumes "i \<in> set plain_ids"
    and "P 0" "P 1" "P 2" "P 3" "P 4" "P 5" "P 6" "P 7" "P 8" "P 9" "P 10" "P 11" "P 12" "P 13" "P 14"
      "P 15" "P 16" "P 17" "P 18" "P 20"
  shows "P i"
  using assms(1) unfolding plain_ids_def list.set
  by (elim insertE emptyE) (simp_all only: assms(2-))

lemmas rt_parsers = parse_mactime_def parse_flags_def parse_rate_def parse_channel_def parse_fhss_def
  parse_dbm_antsignal_def parse_dbm_antnoise_def parse_lock_quality_def parse_tx_attenuation_def
  parse_db_tx_attenuation_def parse_dbm_tx_power_def parse_antenna_def parse_db_antsignal_def
  parse_db_antnoise_def parse_rx_flags_def parse_tx_flags_def parse_rts_retries_def
  parse_data_retries_def parse_xchannel_def parse_ampdu_def

lemma struct_unpack_shape:
  "struct_unpack [a] p off = Inr v \<Longrightarrow> \<exists>x. v = [x]"
  "struct_unpack [a, b] p off = Inr v \<Longrightarrow> \<exists>x y. v = [x, y]"
  "struct_unpack [a, b, c] p off = Inr v \<Longrightarrow> \<exists>x y z. v = [x, y, z]"
  "struct_unpack [a, b, c, d] p off = Inr v \<Longrightarrow> \<exists>x y z w. v = [x, y, z, w]"
  by (auto simp: struct_unpack_def split: if_splits)

definition plain_field_ok :: "nat \<Rightarrow> bytes \<Rightarrow> nat \<Rightarrow> bool" where
  "plain_field_ok i packet offset \<longleftrightarrow>
     (dispatch_table ! i) packet offset =
       (case struct_unpack (rt_sizes i) packet (align offset (rt_align i)) of
          Inl e \<Rightarrow> Inl e
        | Inr v \<Rightarrow> Inr (align offset (rt_align i) + sum_list (rt_sizes i), read_field i v))"

lemma parse_plain_field:
  assumes "i \<in> set plain_ids"
  shows "plain_field_ok i packet offset"
  by (rule plain_ids_cases [OF assms];
      auto simp: plain_field_ok_def dispatch_table_def rt_sizes_def rt_align_def rt_layout_def
        rt_parsers read_field_def rt_names_def read_value_def align_values Let_def
      split: sum.splits dest!: struct_unpack_shape)

subsection \<open>Writing a header\<close>

text \<open>
  A writer of headers, as the standard describes them: the presence bits of the fields, then the
  fields in the order of their bits, each after the zeros that align it.
\<close>

fun build_fields :: "(nat \<times> nat list) list \<Rightarrow> nat \<Rightarrow> bytes" where
  "build_fields [] offset = []"
| "build_fields ((i, v) # fs) offset =
     (let start = align offset (rt_align i)
      in replicate (start - offset) 0 @ le_fields_bytes (rt_sizes i) v @
         build_fields fs (start + sum_list (rt_sizes i)))"

fun presence :: "nat list \<Rightarrow> nat" where
  "presence [] = 0"
| "presence (i # is) = push_bit i 1 OR presence is"

definition build_radiotap :: "(nat \<times> nat list) list \<Rightarrow> bytes" where
  "build_radiotap fs =
     (let body = build_fields fs 8
      in [0, 0] @ le_bytes 2 (8 + length body) @ le_bytes 4 (presence (map fst fs)) @ body)"

definition fields_ok :: "(nat \<times> nat list) list \<Rightarrow> bool" where
  "fields_ok fs \<longleftrightarrow> sorted_wrt (<) (map fst fs) \<and>
     (\<forall>(i, v)\<in>set fs. i \<in> set plain_ids \<and> list_all2 (\<lambda>n x. x < 256 ^ n) (rt_sizes i) v)"

lemma plain_layout:
  assumes "i \<in> set plain_ids"
  shows "rt_align i \<in> {1, 2, 4, 8} \<and> 0 < sum_list (rt_sizes i) \<and> sum_list (rt_sizes i) \<le> 8 \<and> i < 22"
  by (rule plain_ids_cases [OF assms]) (simp_all add: rt_align_def rt_sizes_def rt_layout_def)

lemma bit_presence [simp]: "bit (presence is) j \<longleftrightarrow> j \<in> set is"
  by (induction "is") (auto simp: bit_simps)

lemma bit_mod_word:
  "bit (n mod 256 ^ 4 :: nat) j \<longleftrightarrow> j < 32 \<and> bit n j"
  using bit_take_bit_iff [of 32 n j] by (simp add: take_bit_eq_mod)

lemma filter_sorted_upt:
  assumes "sorted_wrt (<) xs" and "\<forall>x\<in>set xs. x < n"
  shows "filter (\<lambda>i. i \<in> set xs) [0..<n] = xs"
proof (rule sorted_distinct_set_unique)
  show "sorted xs" "distinct xs"
    using assms(1) by (simp_all add: strict_sorted_iff)
qed (use assms(2) in \<open>auto intro: sorted_wrt_filter\<close>)

lemma bit_events_plain:
  "\<forall>i\<in>set bits. bit present i \<longrightarrow> i < 29 \<Longrightarrow>
     bit_events present cnt bits ns r =
       (map (\<lambda>i. (ns, Some (cnt + i))) (filter (bit present) bits), ns, r)"
  by (induction bits) auto

lemma present_bits_word:
  assumes "length w = 4" and "\<forall>i<32. bit (le_value w) i \<longrightarrow> i < 29"
  shows "present_bits w = map (\<lambda>i. Inr (''radiotap'', Some i)) (filter (bit (le_value w)) [0..<32])"
proof -
  obtain b bs where w: "w = b # bs" "length bs = 3"
    using assms(1) by (cases w) auto
  have "bit_events (le_value w) 0 [0..<32] ''radiotap'' False =
      (map (\<lambda>i. (''radiotap'', Some (0 + i))) (filter (bit (le_value w)) [0..<32]), ''radiotap'', False)"
    using assms(2) by (intro bit_events_plain) simp
  then show ?thesis
    using w by (simp add: present_bits_def struct_unpack_def del: upt_rec_numeral)
qed

lemma length_build_fields:
  "\<forall>(i, v)\<in>set fs. i \<in> set plain_ids \<and> list_all2 (\<lambda>n x. x < 256 ^ n) (rt_sizes i) v \<Longrightarrow>
     length (build_fields fs offset) \<le> 15 * length fs"
proof (induction fs arbitrary: offset)
  case (Cons f fs)
  obtain i v where f: "f = (i, v)"
    by fastforce
  let ?start = "align offset (rt_align i)"
  have i: "i \<in> set plain_ids" and v: "list_all2 (\<lambda>n x. x < 256 ^ n) (rt_sizes i) v"
    using Cons.prems f by auto
  have "rt_align i \<le> 8"
    using plain_layout [OF i] by auto
  then have "?start - offset \<le> 7"
    using align_bounds [of "rt_align i" offset] plain_layout [OF i] by auto
  moreover have "length (build_fields fs (?start + sum_list (rt_sizes i))) \<le> 15 * length fs"
    using Cons by auto
  ultimately show ?case
    using plain_layout [OF i] le_fields_inverse [OF v] f by (simp add: Let_def)
qed simp

lemma parse_written_field:
  assumes "i \<in> set plain_ids" and "list_all2 (\<lambda>n x. x < 256 ^ n) (rt_sizes i) v"
    and "drop (align offset (rt_align i)) packet = le_fields_bytes (rt_sizes i) v @ rest"
    and "align offset (rt_align i) \<le> length packet"
  shows "parse_radiotap_field ''radiotap'' i packet offset =
    Inr (Some (align offset (rt_align i) + sum_list (rt_sizes i)), Some (read_field i v))"
  using parse_plain_field [OF assms(1), of packet offset] struct_unpack_bytes [OF assms(2-4)]
    plain_layout [OF assms(1)]
  by (simp add: plain_field_ok_def parse_radiotap_field_def dispatch_table_def del: nth_Cons_numeral)

lemma read_field_Cons:
  assumes "i \<in> set plain_ids" and "list_all2 (\<lambda>n x. x < 256 ^ n) (rt_sizes i) v"
  shows "read_field i v \<noteq> [] \<and> map fst (read_field i v) = map KStr (rt_names i)"
proof -
  have "length (rt_names i) = length (rt_sizes i) \<and> 0 < length (rt_sizes i)"
    by (rule plain_ids_cases [OF assms(1)]) (simp_all add: rt_sizes_def rt_names_def rt_layout_def)
  moreover have "length v = length (rt_sizes i)"
    using list_all2_lengthD [OF assms(2)] by simp
  moreover have "map fst (map2 (\<lambda>k n. (KStr k, read_value k n)) ks ns) = map KStr ks"
    if "length ks = length ns" for ks ns
    using that by (induction ks ns rule: list_induct2) auto
  ultimately have keys: "map fst (read_field i v) = map KStr (rt_names i)" and "rt_names i \<noteq> []"
    unfolding read_field_def by auto
  then have "map fst (read_field i v) \<noteq> []"
    by simp
  with keys show ?thesis
    by blast
qed

lemma field_loop_written:
  assumes "\<forall>(i, v)\<in>set fs. i \<in> set plain_ids \<and> list_all2 (\<lambda>n x. x < 256 ^ n) (rt_sizes i) v"
    and "drop offset packet = build_fields fs offset @ rest" and "offset \<le> length packet"
  shows "field_loop (map (\<lambda>i. Inr (''radiotap'', Some i)) (map fst fs)) packet
      (offset + length (build_fields fs offset)) offset vns r =
    Inr (foldl (\<lambda>r (i, v). add_fields r (Some (read_field i v))) r fs)"
  using assms
proof (induction fs arbitrary: offset r)
  case (Cons f fs)
  obtain i v where f: "f = (i, v)"
    by fastforce
  let ?start = "align offset (rt_align i)"
  let ?next = "?start + sum_list (rt_sizes i)"
  have i: "i \<in> set plain_ids" and v: "list_all2 (\<lambda>n x. x < 256 ^ n) (rt_sizes i) v"
    using Cons.prems f by auto
  have start: "offset \<le> ?start"
    using align_bounds(1) plain_layout [OF i] by blast
  have size: "length (le_fields_bytes (rt_sizes i) v) = sum_list (rt_sizes i)"
    using le_fields_inverse [OF v] by blast
  have whole: "drop offset packet = replicate (?start - offset) 0 @ le_fields_bytes (rt_sizes i) v @
      build_fields fs ?next @ rest"
    using Cons.prems(2) f by (simp add: Let_def)
  have at_start: "drop ?start packet = le_fields_bytes (rt_sizes i) v @ build_fields fs ?next @ rest"
    using arg_cong [OF whole, of "drop (?start - offset)"] start by simp
  have at_next: "drop ?next packet = build_fields fs ?next @ rest"
    using arg_cong [OF at_start, of "drop (sum_list (rt_sizes i))"] size by (simp add: add.commute)
  have lens: "length packet = ?next + length (build_fields fs ?next @ rest)"
    using arg_cong [OF whole, of length] start size Cons.prems(3) by simp
  have total: "offset + length (build_fields (f # fs) offset) = ?next + length (build_fields fs ?next)"
    using f start size by (simp add: Let_def)
  have parsed: "parse_radiotap_field ''radiotap'' i packet offset =
      Inr (Some ?next, Some (read_field i v))"
    using parse_written_field [OF i v at_start] lens by simp
  show ?case
  proof (cases fs)
    case Nil
    then show ?thesis
      unfolding total using f parsed by simp
  next
    case (Cons f' fs')
    obtain j w where f': "f' = (j, w)"
      by fastforce
    have "j \<in> set plain_ids" "list_all2 (\<lambda>n x. x < 256 ^ n) (rt_sizes j) w"
      using Cons.prems(1) Cons f' by auto
    then have "0 < length (build_fields fs ?next)"
      using plain_layout [of j] le_fields_inverse [of "rt_sizes j" w] Cons f' by (simp add: Let_def)
    then show ?thesis
      unfolding total
      using f parsed Cons.IH [of ?next "add_fields r (Some (read_field i v))"] Cons.prems(1) at_next lens
      by simp
  qed
qed simp

subsection \<open>Types of the values\<close>

text \<open>What type, and which range, the value of each key has.\<close>

definition int_ranges :: "(string \<times> int \<times> int) list" where
  "int_ranges =
     [(''TSFT'', 0, 2 ^ 64), (''flags'', 0, 256), (''chan_freq'', 0, 65536), (''chan_flags'', 0, 65536),
      (''fhss'', 0, 65536), (''dbm_antsignal'', -128, 128), (''dbm_antnoise'', -128, 128),
      (''lock_quality'', 0, 65536), (''tx_attenuation'', 0, 65536), (''db_tx_attenuation'', 0, 65536),
      (''dbm_tx_power'', -128, 128), (''antenna'', 0, 256), (''db_antsignal'', 0, 256),
      (''db_antnoise'', 0, 256), (''rx_flags'', 0, 65536), (''tx_flags'', 0, 256),
      (''rts_retries'', 0, 256), (''data_retries'', 0, 256), (''xchannel_flags'', 0, 2 ^ 32),
      (''xchannel_freq'', 0, 65536), (''xchannel_num'', 0, 256), (''xchannel_maxpower'', 0, 256),
      (''mcs_known'', 0, 256), (''mcs_flags'', 0, 256), (''mcs_index'', 0, 32),
      (''ampdu_refnum'', 0, 2 ^ 32), (''ampdu_flags'', 0, 65536), (''ampdu_delim_crc_val'', 0, 256),
      (''ampdu_reserved'', 0, 256), (''vht_known'', 0, 65536), (''vht_flags'', 0, 256),
      (''vht_bw'', 0, 256), (''vht_coding'', 0, 256), (''vht_group_id'', 0, 256), (''vht_gi'', 0, 2),
      (''subns'', 0, 256)]"

definition user_typed :: "vht_user_info \<Rightarrow> bool" where
  "user_typed u \<longleftrightarrow> user_coding u \<le> 1 \<and>
     (case user_rate u of
        None \<Rightarrow> True
      | Some d \<Rightarrow> vht_mcs_index d < 10 \<and>
          (case vht_rate_mbps d of None \<Rightarrow> True | Some r \<Rightarrow> 6 < r \<and> r < 7000))"

fun rt_typed :: "dict_key \<times> rt_value \<Rightarrow> bool" where
  "rt_typed (KStr k, RInt n) =
     (case map_of int_ranges k of
        Some (lo, hi) \<Rightarrow> lo \<le> n \<and> n < hi
      | None \<Rightarrow> k = ''present'' \<and> 0 \<le> n \<or> k = ''vht_bandwidth'' \<and> n \<in> {20, 40, 80, 160})"
| "rt_typed (KStr k, RFloat r) =
     (k = ''rate'' \<and> 0 \<le> r \<and> r < 128 \<or> k = ''mcs_rate'' \<and> 6 < r \<and> r \<le> 600)"
| "rt_typed (KStr k, RBytes b) = (k = ''oui'' \<and> length b = 3 \<or> k = ''data'' \<and> length b < 65536)"
| "rt_typed (KStr k, RNone) = (k \<in> {''vht_gi'', ''vht_bandwidth''})"
| "rt_typed (KStr k, RUsers us) =
     (k = ''vht_user'' \<and> sorted_wrt (<) (map fst us) \<and> (\<forall>(i, u)\<in>set us. i < 4 \<and> user_typed u))"
| "rt_typed _ = False"

definition dict_typed :: "dict \<Rightarrow> bool" where
  "dict_typed d \<longleftrightarrow> (\<forall>kv\<in>set d. rt_typed kv)"

definition values_typed :: "rt_values \<Rightarrow> bool" where
  "values_typed r \<longleftrightarrow> (case r of RDict d \<Rightarrow> dict_typed d | RList ds \<Rightarrow> (\<forall>d\<in>set ds. dict_typed d))"

lemma dict_typed_simps [simp]:
  "dict_typed []"
  "dict_typed (kv # d) \<longleftrightarrow> rt_typed kv \<and> dict_typed d"
  by (auto simp: dict_typed_def)

lemma signed_byte_range: "n < 256 \<Longrightarrow> - 128 \<le> signed_byte n \<and> signed_byte n < 128"
  by (auto simp: signed_byte_def)

lemma read_field_typed:
  assumes "i \<in> set plain_ids" and "list_all2 (\<lambda>n x. x < 256 ^ n) (rt_sizes i) v"
  shows "dict_typed (read_field i v)"
proof -
  have "list_all2 (\<lambda>n x. x < 256 ^ n) (rt_sizes i) v \<longrightarrow> dict_typed (read_field i v)"
    by (rule plain_ids_cases [OF assms(1)];
        auto simp: rt_sizes_def rt_names_def rt_layout_def read_field_def list_all2_Cons1 read_value_def
          int_ranges_def signed_byte_range)
  with assms(2) show ?thesis
    by blast
qed

lemma drop_bit_and_exp: "drop_bit i (n AND 2 ^ i) = (of_bool (bit n i) :: nat)"
  by (rule bit_eqI) (auto simp: bit_simps)

lemma mcs_rate_table_range: "\<forall>row\<in>set mcs_rate_table. \<forall>r\<in>set row. 6 < r \<and> r \<le> 600"
  by (simp add: mcs_rate_table_def)

lemma bandwidth_range: "\<forall>(mhz, rest)\<in>set vht_bandwidth_lut. mhz \<in> {20, 40, 80, 160}"
  by (simp add: vht_bandwidth_lut_def)

lemma parse_mcs_typed:
  assumes "parse_mcs packet offset = Inr (off, d)"
  shows "off = offset + 3 \<and> off \<le> length packet \<and> dict_typed d"
proof -
  obtain v row r where v: "struct_unpack [1, 1, 1] packet offset = Inr v"
    and row: "py_index mcs_rate_table (int (v ! 2)) = Inr row"
    and r: "r \<in> set row"
    and d: "off = offset + 3" "d = [(KStr ''mcs_known'', RInt (int (v ! 0))),
      (KStr ''mcs_flags'', RInt (int (v ! 1))), (KStr ''mcs_index'', RInt (int (v ! 2))),
      (KStr ''mcs_rate'', RFloat r)]"
    using assms by (auto simp: parse_mcs_def Let_def split: sum.splits dest: py_index_set)
  have "6 < r \<and> r \<le> 600"
    using py_index_set [OF row] r mcs_rate_table_range by blast
  moreover have "v ! 2 < 32"
    using row by (simp add: py_index_def mcs_rate_table_def split: if_splits)
  moreover have "v ! 0 < 256 \<and> v ! 1 < 256 \<and> off \<le> length packet"
    using struct_unpack_bound [OF v] d(1) by (auto simp: list_all2_Cons1)
  ultimately show ?thesis
    using d by (simp add: int_ranges_def)
qed

lemma vht_users_typed:
  assumes "vht_users i coding gi bw us = Inr users"
    and "\<And>g. gi = Some g \<Longrightarrow> g < 2" and "\<And>b. bw = Some b \<Longrightarrow> b \<in> {20, 40, 80, 160}"
  shows "sorted_wrt (<) (map fst users) \<and>
    (\<forall>(j, u)\<in>set users. i \<le> j \<and> j < i + length us \<and> user_typed u)"
  using assms(1)
proof (induction us arbitrary: i users)
  case (Cons u us)
  show ?case
  proof (cases "u = 0")
    case True
    then show ?thesis
      using Cons.IH [of "i + 1" users] Cons.prems by auto
  next
    case False
    have coding: "drop_bit i (coding AND 2 ^ i) \<le> 1"
      by (simp only: drop_bit_and_exp) simp
    obtain c r rest where users: "users = (i, \<lparr>user_coding = c, user_rate = r\<rparr>) # rest"
      and c: "c \<le> 1" and rest: "vht_users (i + 1) coding gi bw us = Inr rest"
      and r: "\<And>d. r = Some d \<Longrightarrow> \<exists>g b. gi = Some g \<and> bw = Some b \<and>
        vht_rate_description (drop_bit 4 (u AND 0xf0)) (u AND drop_bit 4 0xf0) g b = Inr d"
      using Cons.prems False coding by (auto simp: Let_def split: sum.splits option.splits)
    have "user_typed \<lparr>user_coding = c, user_rate = r\<rparr>"
    proof (cases r)
      case (Some d)
      obtain g b where g: "gi = Some g" "bw = Some b"
        "vht_rate_description (drop_bit 4 (u AND 0xf0)) (u AND drop_bit 4 0xf0) g b = Inr d"
        using r [OF Some] by blast
      then show ?thesis
        using vht_description_bounds [OF g(3) assms(2) assms(3)] Some c
        by (auto simp: user_typed_def split: option.splits)
    qed (use c in \<open>simp add: user_typed_def\<close>)
    then show ?thesis
      using Cons.IH [OF rest] users by fastforce
  qed
qed auto

lemma vht_gi_range: "vht_gi known flags = Some g \<Longrightarrow> g < 2"
proof -
  have "drop_bit 2 (flags AND 4) < 2"
    using drop_bit_and_exp [of 2 flags] by (cases "bit flags 2") (simp_all del: drop_bit_and)
  then show "vht_gi known flags = Some g \<Longrightarrow> g < 2"
    by (auto simp: vht_gi_def split: if_splits)
qed

lemma vht_bandwidth_range:
  assumes "vht_bandwidth known bw = Inr (Some b)"
  shows "b \<in> {20, 40, 80, 160}"
proof -
  obtain rest where "py_index vht_bandwidth_lut (int (0x1f AND bw)) = Inr (b, rest)"
    using assms by (auto simp: vht_bandwidth_def split: if_splits sum.splits)
  then have "(b, rest) \<in> set vht_bandwidth_lut"
    by (rule py_index_set)
  with bandwidth_range show ?thesis
    by auto
qed

lemma opt_int_typed:
  "(\<And>g. gi = Some g \<Longrightarrow> g < 2) \<Longrightarrow> rt_typed (KStr ''vht_gi'', opt_int gi)"
  "(\<And>b. bw = Some b \<Longrightarrow> b \<in> {20, 40, 80, 160}) \<Longrightarrow> rt_typed (KStr ''vht_bandwidth'', opt_int bw)"
  by (cases gi; fastforce simp: opt_int_def int_ranges_def)
    (cases bw; fastforce simp: opt_int_def int_ranges_def)

lemma parse_vht_typed:
  assumes "parse_vht packet offset = Inr (off, d)"
  shows "off = offset + 12 \<and> off \<le> length packet \<and> dict_typed d"
proof -
  obtain v where v: "struct_unpack [2, 1, 1, 1, 1, 1, 1, 1, 1, 2] packet offset = Inr v"
    using assms by (auto simp: parse_vht_def split: sum.splits)
  obtain bw where bw: "vht_bandwidth (v ! 0) (v ! 2) = Inr bw"
    using assms v by (auto simp: parse_vht_def Let_def split: sum.splits)
  let ?gi = "vht_gi (v ! 0) (v ! 1)"
  obtain users where users: "vht_users 0 (v ! 7) ?gi bw [v ! 3, v ! 4, v ! 5, v ! 6] = Inr users"
    using assms v bw by (auto simp: parse_vht_def Let_def split: sum.splits)
  have b: "\<And>b. bw = Some b \<Longrightarrow> b \<in> {20, 40, 80, 160}"
    using bw vht_bandwidth_range by blast
  have "sorted_wrt (<) (map fst users) \<and> (\<forall>(j, u)\<in>set users. j < 4 \<and> user_typed u)"
  proof -
    have gi: "\<And>g. ?gi = Some g \<Longrightarrow> g < 2"
      by (rule vht_gi_range)
    show ?thesis
      using vht_users_typed [OF users gi b] by auto
  qed
  moreover have "v ! 0 < 65536 \<and> v ! 1 < 256 \<and> v ! 2 < 256 \<and> v ! 7 < 256 \<and> v ! 8 < 256"
    and "offset + 12 \<le> length packet"
    using struct_unpack_bound [OF v] by (auto simp: list_all2_Cons1)
  moreover have "off = offset + 12"
    "d = [(KStr ''vht_known'', RInt (int (v ! 0))), (KStr ''vht_flags'', RInt (int (v ! 1))),
       (KStr ''vht_bw'', RInt (int (v ! 2))), (KStr ''vht_coding'', RInt (int (v ! 7))),
       (KStr ''vht_group_id'', RInt (int (v ! 8))), (KStr ''vht_gi'', opt_int ?gi),
       (KStr ''vht_bandwidth'', opt_int bw), (KStr ''vht_user'', RUsers users)]"
    using assms v bw users by (simp_all add: parse_vht_def Let_def del: vht_users.simps)
  ultimately show ?thesis
    using opt_int_typed(1) [OF vht_gi_range, of ?gi] opt_int_typed(2) [OF b]
    by (simp add: int_ranges_def)
qed

lemma length_dispatch_table [simp]: "length dispatch_table = 22"
  by (simp add: dispatch_table_def)

lemma plain_or_special: "i < 22 \<Longrightarrow> i \<in> set plain_ids \<or> i = 19 \<or> i = 21"
  unfolding plain_ids_def list.set insert_iff empty_iff by presburger

lemma parse_field_typed:
  assumes "i < 22" and "(dispatch_table ! i) packet offset = Inr (off, d)"
  shows "off \<le> length packet \<and> offset < off \<and> dict_typed d"
proof -
  have mcs: "dispatch_table ! 19 = parse_mcs" and vht: "dispatch_table ! 21 = parse_vht"
    by (simp_all add: dispatch_table_def)
  consider "i \<in> set plain_ids" | "i = 19" | "i = 21"
    using plain_or_special [OF assms(1)] by blast
  then show ?thesis
  proof cases
    case 1
    obtain v where v: "struct_unpack (rt_sizes i) packet (align offset (rt_align i)) = Inr v"
      and d: "off = align offset (rt_align i) + sum_list (rt_sizes i)" "d = read_field i v"
      using assms(2) parse_plain_field [OF 1, of packet offset]
      by (auto simp: plain_field_ok_def split: sum.splits)
    moreover have "offset \<le> align offset (rt_align i)"
      using align_bounds(1) plain_layout [OF 1] by blast
    ultimately show ?thesis
      using struct_unpack_bound [OF v] read_field_typed [OF 1] plain_layout [OF 1] by simp
  next
    case 2
    then show ?thesis
      using parse_mcs_typed [of packet offset off d] assms(2) mcs by simp
  next
    case 3
    then show ?thesis
      using parse_vht_typed [of packet offset off d] assms(2) vht by simp
  qed
qed

lemma parse_vendor_typed:
  assumes "parse_vendor packet offset = Inr (off, d)"
  shows "dict_typed d \<and> offset < off \<and> (\<exists>oui. map_of d (KStr ''oui'') = Some (RBytes oui))"
proof -
  let ?start = "align offset 2"
  obtain v where v: "struct_unpack [3, 1, 2] packet ?start = Inr v"
    and d: "off = ?start + 6 + v ! 2"
      "d = [(KStr ''oui'', RBytes (take 3 (drop ?start packet))), (KStr ''subns'', RInt (int (v ! 1))),
         (KStr ''data'', RBytes (take (v ! 2) (drop (?start + 6) packet))), (KStr ''present'', RInt 0)]"
    using assms by (auto simp: parse_vendor_def Let_def split: sum.splits)
  have "v ! 1 < 256 \<and> v ! 2 < 65536 \<and> ?start + 6 \<le> length packet"
    using struct_unpack_bound [OF v] by (auto simp: list_all2_Cons1)
  then have "rt_typed (KStr ''oui'', RBytes (take 3 (drop ?start packet)))"
    and "rt_typed (KStr ''data'', RBytes (take (v ! 2) (drop (?start + 6) packet)))"
    and "rt_typed (KStr ''subns'', RInt (int (v ! 1)))"
    by (auto simp: int_ranges_def)
  then show ?thesis
    using d align_bounds(1) [of 2 offset] by (simp add: int_ranges_def)
qed

lemma set_update_subset: "set (AList.update k v d) \<subseteq> insert (k, v) (set d)"
  by (induction d) auto

lemma dict_update_typed: "dict_typed d \<Longrightarrow> dict_typed flds \<Longrightarrow> dict_typed (dict_update d flds)"
proof (induction flds arbitrary: d)
  case (Cons kv flds)
  obtain k v where kv: "kv = (k, v)"
    by fastforce
  have "dict_typed (AList.update k v d)"
    using Cons.prems set_update_subset [of k v d] kv by (auto simp: dict_typed_def)
  then show ?case
    using Cons kv by (simp add: dict_update_def)
qed (simp add: dict_update_def)

lemma add_fields_typed:
  "values_typed r \<Longrightarrow> (\<And>d. flds = Some d \<Longrightarrow> dict_typed d) \<Longrightarrow> values_typed (add_fields r flds)"
  by (cases flds; cases r)
    (auto simp: add_fields_def values_typed_def dict_update_typed split: list.splits)

lemma or_present_typed:
  assumes "dict_typed d" and "or_present b d = Inr d'"
  shows "dict_typed d'"
proof -
  obtain n where n: "map_of d (KStr ''present'') = Some (RInt n)"
    and d': "d' = AList.update (KStr ''present'') (RInt (n OR push_bit b 1)) d"
    using assms(2) by (auto simp: or_present_def split: option.splits rt_value.splits)
  have "rt_typed (KStr ''present'', RInt n)"
    using assms(1) n map_of_SomeD by (fastforce simp: dict_typed_def)
  then have "rt_typed (KStr ''present'', RInt (n OR push_bit b 1))"
    by (simp add: int_ranges_def)
  then show ?thesis
    using assms(1) set_update_subset d' by (fastforce simp: dict_typed_def)
qed

text \<open>No key of a typed dictionary is a vendor's: the lookup of one always fails.\<close>

lemma vendor_key_missing: "dict_typed d \<Longrightarrow> map_of d (vendor_key oui) = None"
  by (induction d) (auto simp: vendor_key_def dict_typed_def split: option.splits)

lemma add_vendor_presence_typed:
  assumes "values_typed r" and "add_vendor_presence_bit r oui b = Inr r'"
  shows "values_typed r'"
proof (cases r)
  case (RDict d)
  then show ?thesis
    using assms vendor_key_missing [of d oui] by (simp add: add_vendor_presence_bit_def values_typed_def)
next
  case (RList ds)
  then obtain tgt where "ds \<noteq> []" "or_present b (last ds) = Inr tgt" "r' = RList (butlast ds @ [tgt])"
    using assms(2) by (auto simp: add_vendor_presence_bit_def split: if_splits sum.splits)
  then show ?thesis
    using assms(1) RList or_present_typed [of "last ds" b tgt]
    by (auto simp: values_typed_def dest: in_set_butlastD)
qed

lemma parse_radiotap_field_typed:
  assumes "parse_radiotap_field ns i packet offset = Inr (off, flds)"
  shows "flds = Some d \<Longrightarrow> dict_typed d"
  using assms parse_field_typed [of i packet offset]
  by (auto simp: parse_radiotap_field_def split: if_splits sum.splits)

lemma field_loop_typed:
  assumes "field_loop evs packet len offset vns r = Inr r'" and "values_typed r"
  shows "values_typed r'"
  using assms
proof (induction evs packet len offset vns r rule: field_loop.induct)
  case (3 ns evs packet len offset vns r)
  then show ?case
    using parse_vendor_typed
    by (fastforce split: if_splits sum.splits option.splits rt_value.splits intro: add_fields_typed)
next
  case (4 ns i evs packet len offset vns r)
  obtain r1 off flds where r1: "(if ns = ''vendor'' then add_vendor_presence_bit r vns i else Inr r) = Inr r1"
    and parsed: "parse_radiotap_field ns i packet offset = Inr (off, flds)"
    using 4(2) by (auto split: sum.splits)
  have "values_typed r1"
    using r1 4(3) add_vendor_presence_typed by (auto split: if_splits)
  then have t: "values_typed (add_fields r1 flds)"
    using parse_radiotap_field_typed [OF parsed] by (intro add_fields_typed)
  show ?case
  proof (cases off)
    case None
    then show ?thesis
      using 4(2) r1 parsed t by simp
  next
    case (Some o')
    then show ?thesis
      using 4(1) [OF r1 parsed refl refl Some] 4(2) r1 parsed t
      by (auto simp: Let_def split: if_splits)
  qed
qed auto

lemma radiotap_parse_cases:
  assumes "radiotap_parse packet valuelist = Inr (n, r)"
  obtains "n = 0" and "\<And>vl. radiotap_parse packet vl = Inr (0, RDict [])" and "r = RDict []"
  | evs offset where "n \<le> length packet" and "n < 65536"
      and "field_loop evs packet n offset None (if valuelist then RList [] else RDict []) = Inr r"
      and "\<And>vl. radiotap_parse packet vl =
        (case field_loop evs packet n offset None (if vl then RList [] else RDict []) of
           Inl e \<Rightarrow> Inl e
         | Inr r' \<Rightarrow> Inr (n, r'))"
proof (cases "length packet < 8 \<or> (\<exists>v. struct_unpack [1, 1, 2, 4] packet 0 = Inr v \<and>
    (v ! 0 \<noteq> 0 \<or> v ! 1 \<noteq> 0 \<or> v ! 2 > length packet))")
  case True
  then have "radiotap_parse packet vl = Inr (0, RDict [])" for vl
    by (auto simp: radiotap_parse_def Let_def)
  then show ?thesis
    using that(1) assms by simp
next
  case False
  then obtain v where v: "struct_unpack [1, 1, 2, 4] packet 0 = Inr v"
    and ok: "v ! 0 = 0" "v ! 1 = 0" "v ! 2 \<le> length packet" "\<not> length packet < 8"
    by (auto simp: struct_unpack_def)
  have parse: "radiotap_parse packet vl =
      (case skip_bitmaps packet (v ! 3) 8 of
         Inl e \<Rightarrow> Inl e
       | Inr offset \<Rightarrow>
           (case field_loop (present_bits (take (offset - 4) (drop 4 packet))) packet (v ! 2) offset
              None (if vl then RList [] else RDict []) of
              Inl e \<Rightarrow> Inl e
            | Inr radiotap \<Rightarrow> Inr (v ! 2, radiotap)))" for vl
    using v ok by (simp add: radiotap_parse_def Let_def)
  have n: "v ! 2 < 65536"
    using struct_unpack_bound [OF v] by (auto simp: list_all2_Cons1)
  obtain offset where o': "skip_bitmaps packet (v ! 3) 8 = Inr offset"
    using assms parse by (auto split: sum.splits)
  let ?loop = "\<lambda>vl. field_loop (present_bits (take (offset - 4) (drop 4 packet))) packet (v ! 2)
      offset None (if vl then RList [] else RDict [])"
  obtain r' where r': "?loop valuelist = Inr r'" and nr: "n = v ! 2" "r' = r"
    using assms unfolding parse o' by (auto split: sum.splits)
  have eq: "radiotap_parse packet vl = (case ?loop vl of Inl e \<Rightarrow> Inl e | Inr r' \<Rightarrow> Inr (v ! 2, r'))" for vl
    unfolding parse o' by simp
  show ?thesis
    using that(2) [OF _ _ _ eq [folded nr(1)]] n ok(3) r' nr by simp
qed

subsection \<open>Every value has its type\<close>

text \<open>
  C34. Whatever bytes arrive: when the parser returns, the length it reports is one of a slice of the
  packet, and every value of the result is one its key allows. Integers are in the range of their
  field, rates are those the tables have, a bandwidth is one of four, users are at most four in
  order, and only text is a key.
\<close>

theorem radiotap_values_typed:
  assumes "radiotap_parse packet valuelist = Inr (n, r)"
  shows "n \<le> length packet \<and> n < 65536 \<and> values_typed r"
proof (rule radiotap_parse_cases [OF assms])
  fix evs offset
  assume "field_loop evs packet n offset None (if valuelist then RList [] else RDict []) = Inr r"
  then have "values_typed r"
    by (rule field_loop_typed) (simp add: values_typed_def)
  moreover assume "n \<le> length packet" "n < 65536"
  ultimately show ?thesis
    by blast
qed (simp add: values_typed_def)

subsection \<open>The dictionary and the list\<close>

lemma add_fields_merge:
  "\<exists>ds'. add_fields (RList ds) flds = RList ds' \<and>
     add_fields (RDict (foldl dict_update [] ds)) flds = RDict (foldl dict_update [] ds')"
  by (cases flds) (auto simp: add_fields_def split: list.splits)

lemma field_loop_merges:
  assumes "field_loop evs packet len offset vns (RDict (foldl dict_update [] ds)) = Inr r"
    and "values_typed (RDict (foldl dict_update [] ds))"
  shows "\<exists>ds'. field_loop evs packet len offset vns (RList ds) = Inr (RList ds') \<and>
    r = RDict (foldl dict_update [] ds')"
  using assms
proof (induction evs arbitrary: offset vns ds)
  case (Cons ev evs)
  consider (stop) e where "ev = Inl e" | (switch) ns where "ev = Inr (ns, None)"
    | (bit) ns i where "ev = Inr (ns, Some i)"
    by (metis old.prod.exhaust option.exhaust sum.exhaust)
  then show ?case
  proof cases
    case stop
    then show ?thesis
      using Cons.prems by simp
  next
    case switch
    show ?thesis
    proof (cases "ns = ''vendor''")
      case True
      obtain off flds oui where v: "parse_vendor packet offset = Inr (off, flds)"
          "map_of flds (KStr ''oui'') = Some (RBytes oui)"
        and go: "field_loop evs packet len off (Some oui)
          (add_fields (RDict (foldl dict_update [] ds)) (Some flds)) = Inr r"
        using Cons.prems(1) switch True
        by (auto split: sum.splits option.splits rt_value.splits)
      obtain ds1 where ds1: "add_fields (RList ds) (Some flds) = RList ds1"
        "add_fields (RDict (foldl dict_update [] ds)) (Some flds) = RDict (foldl dict_update [] ds1)"
        using add_fields_merge by blast
      have "values_typed (RDict (foldl dict_update [] ds1))"
        using add_fields_typed [OF Cons.prems(2), of "Some flds"] parse_vendor_typed [OF v(1)] ds1 by simp
      then show ?thesis
        using Cons.IH [of off "Some oui" ds1] go switch True v ds1 by simp
    next
      case False
      then show ?thesis
        using Cons.IH [of offset vns ds] Cons.prems switch by simp
    qed
  next
    case bit
    have ns: "ns \<noteq> ''vendor''"
      using Cons.prems bit vendor_key_missing by (auto simp: add_vendor_presence_bit_def values_typed_def)
    then obtain off flds where p: "parse_radiotap_field ns i packet offset = Inr (off, flds)"
      using Cons.prems(1) bit by (auto split: sum.splits)
    obtain ds1 where ds1: "add_fields (RList ds) flds = RList ds1"
      "add_fields (RDict (foldl dict_update [] ds)) flds = RDict (foldl dict_update [] ds1)"
      using add_fields_merge by blast
    have t: "values_typed (RDict (foldl dict_update [] ds1))"
      using add_fields_typed [OF Cons.prems(2), of flds] parse_radiotap_field_typed [OF p] ds1 by simp
    show ?thesis
      using Cons.prems(1) Cons.IH [OF _ t] bit ns p ds1
      by (cases off) (auto simp: Let_def split: if_splits)
  qed
qed auto

text \<open>
  The dictionary is the list of fields merged in file order: whenever the parser returns a
  dictionary, it returns the list too, and updating an empty dictionary with its items one after
  the other gives the dictionary; with a header that is too short or not valid both are empty.
\<close>

theorem radiotap_dict_merges_list:
  assumes "radiotap_parse packet False = Inr (n, r)"
  shows "(\<exists>ds. radiotap_parse packet True = Inr (n, RList ds) \<and> r = RDict (foldl dict_update [] ds)) \<or>
    (n = 0 \<and> r = RDict [] \<and> radiotap_parse packet True = Inr (0, RDict []))"
proof (rule radiotap_parse_cases [OF assms])
  fix evs offset
  assume loop: "field_loop evs packet n offset None (if False then RList [] else RDict []) = Inr r"
    and parse: "\<And>vl. radiotap_parse packet vl =
      (case field_loop evs packet n offset None (if vl then RList [] else RDict []) of
         Inl e \<Rightarrow> Inl e | Inr r' \<Rightarrow> Inr (n, r'))"
  have "\<exists>ds'. field_loop evs packet n offset None (RList []) = Inr (RList ds') \<and>
      r = RDict (foldl dict_update [] ds')"
    using field_loop_merges [of evs packet n offset None "[]"] loop by (simp add: values_typed_def)
  then show ?thesis
    using parse [of True] by auto
qed auto

subsection \<open>Reading a written header\<close>

lemma presence_bound: "\<forall>i\<in>set is. i < 29 \<Longrightarrow> presence is < 2 ^ 29"
proof -
  assume small: "\<forall>i\<in>set is. i < 29"
  have "take_bit 29 (presence is) = presence is"
    using small by (intro bit_eqI) (auto simp: bit_take_bit_iff)
  then show ?thesis
    by (metis take_bit_nat_less_exp)
qed

lemma fields_ok_few: "fields_ok fs \<Longrightarrow> length fs \<le> 20"
proof -
  assume ok: "fields_ok fs"
  have "distinct (map fst fs)"
    using ok by (simp add: fields_ok_def strict_sorted_iff)
  moreover have "set (map fst fs) \<subseteq> set plain_ids"
    using ok by (auto simp: fields_ok_def)
  ultimately have "length (map fst fs) \<le> card (set plain_ids)"
    by (metis List.finite_set card_mono distinct_card)
  also have "card (set plain_ids) \<le> length plain_ids"
    by (rule card_length)
  finally show ?thesis
    by (simp add: plain_ids_def)
qed

lemma length_build_radiotap:
  "fields_ok fs \<Longrightarrow> length (build_radiotap fs) = 8 + length (build_fields fs 8) \<and>
     length (build_radiotap fs) < 65536"
  using length_build_fields [of fs 8] fields_ok_few [of fs]
  by (auto simp: build_radiotap_def Let_def fields_ok_def)

lemma header_numbers:
  assumes "n < 65536" and "p < 2 ^ 32"
  shows "struct_unpack [1, 1, 2, 4] ([0, 0] @ le_bytes 2 n @ le_bytes 4 p @ rest) 0 = Inr [0, 0, n, p]"
    and "take 4 (drop 4 ([0, 0] @ le_bytes 2 n @ le_bytes 4 p @ rest)) = le_bytes 4 p"
  using assms by (simp_all add: struct_unpack_def le_value_bytes drop_Cons')

lemma foldl_add_list:
  "\<forall>(i, v)\<in>set fs. i \<in> set plain_ids \<and> list_all2 (\<lambda>n x. x < 256 ^ n) (rt_sizes i) v \<Longrightarrow>
     foldl (\<lambda>r (i, v). add_fields r (Some (read_field i v))) (RList ds) fs =
     RList (ds @ map (\<lambda>(i, v). read_field i v) fs)"
proof (induction fs arbitrary: ds)
  case (Cons f fs)
  obtain i v where f: "f = (i, v)"
    by fastforce
  have "add_fields (RList ds) (Some (read_field i v)) = RList (ds @ [read_field i v])"
    using read_field_Cons [of i v] Cons.prems f by (cases "read_field i v") (auto simp: add_fields_def)
  with Cons f show ?case
    by simp
qed simp

lemma foldl_add_dict:
  "foldl (\<lambda>r (i, v). add_fields r (Some (read_field i v))) (RDict d) fs =
     RDict (foldl dict_update d (map (\<lambda>(i, v). read_field i v) fs))"
proof (induction fs arbitrary: d)
  case (Cons f fs)
  obtain i v where f: "f = (i, v)"
    by fastforce
  have "add_fields (RDict d) (Some (read_field i v)) = RDict (dict_update d (read_field i v))"
    by (cases "read_field i v") (auto simp: add_fields_def dict_update_def)
  with Cons f show ?case
    by simp
qed simp

lemma update_fresh: "k \<notin> fst ` set d \<Longrightarrow> AList.update k v d = d @ [(k, v)]"
  by (induction d) auto

lemma dict_update_fresh: "distinct (map fst (d @ flds)) \<Longrightarrow> dict_update d flds = d @ flds"
proof (induction flds arbitrary: d)
  case (Cons kv flds)
  obtain k v where kv: "kv = (k, v)"
    by fastforce
  have "AList.update k v d = d @ [(k, v)]"
    using Cons.prems kv by (intro update_fresh) auto
  then show ?case
    using Cons.IH [of "d @ [(k, v)]"] Cons.prems kv by (simp add: dict_update_def)
qed (simp add: dict_update_def)

lemma dict_updates_fresh:
  "distinct (map fst (d @ concat fss)) \<Longrightarrow> foldl dict_update d fss = d @ concat fss"
proof (induction fss arbitrary: d)
  case (Cons flds fss)
  then have "distinct (map fst (d @ flds))"
    by auto
  then show ?case
    using Cons.IH [of "d @ flds"] Cons.prems dict_update_fresh [of d flds] by simp
qed simp

lemma distinct_concat_filter:
  "distinct (concat (map f xs)) \<Longrightarrow> distinct (concat (map f (filter P xs)))"
  by (induction xs) auto

lemma plain_names_distinct: "distinct (concat (map rt_names plain_ids))"
  by (simp add: plain_ids_def rt_names_def rt_layout_def)

lemma written_keys:
  assumes "fields_ok fs"
  shows "distinct (map fst (concat (map (\<lambda>(i, v). read_field i v) fs)))"
proof -
  have "map fst fs = filter (\<lambda>i. i \<in> set (map fst fs)) plain_ids"
  proof (rule sorted_distinct_set_unique)
    show "sorted (map fst fs)" "distinct (map fst fs)"
      using assms by (simp_all add: fields_ok_def strict_sorted_iff)
    have "sorted plain_ids" "distinct plain_ids"
      by (simp_all add: plain_ids_def)
    then show "sorted (filter (\<lambda>i. i \<in> set (map fst fs)) plain_ids)"
      "distinct (filter (\<lambda>i. i \<in> set (map fst fs)) plain_ids)"
      by (simp_all add: sorted_wrt_filter)
  qed (use assms in \<open>auto simp: fields_ok_def\<close>)
  then have names: "distinct (concat (map rt_names (map fst fs)))"
    using distinct_concat_filter [OF plain_names_distinct] by metis
  have "map fst (concat (map (\<lambda>(i, v). read_field i v) fs)) =
      concat (map (\<lambda>f. map fst (read_field (fst f) (snd f))) fs)"
    by (simp add: map_concat comp_def case_prod_beta)
  also have "\<dots> = concat (map (\<lambda>f. map KStr (rt_names (fst f))) fs)"
    using assms read_field_Cons by (intro arg_cong [where f = concat] map_cong) (auto simp: fields_ok_def)
  also have "\<dots> = map KStr (concat (map rt_names (map fst fs)))"
    by (simp add: map_concat comp_def)
  finally show ?thesis
    using names by (simp add: distinct_map inj_on_def)
qed

lemma radiotap_parse_written:
  assumes ok: "fields_ok fs"
  shows "radiotap_parse (build_radiotap fs @ frame) valuelist =
    Inr (length (build_radiotap fs),
      if valuelist then RList (map (\<lambda>(i, v). read_field i v) fs)
      else RDict (concat (map (\<lambda>(i, v). read_field i v) fs)))"
proof -
  let ?packet = "build_radiotap fs @ frame"
  let ?n = "8 + length (build_fields fs 8)" and ?p = "presence (map fst fs)"
  have n: "length (build_radiotap fs) = ?n" "?n < 65536"
    using length_build_radiotap [OF ok] by simp_all
  have ids: "\<forall>i\<in>set (map fst fs). i < 29"
    using ok plain_layout by (fastforce simp: fields_ok_def)
  have p: "?p < 2 ^ 32"
    using presence_bound [OF ids] by simp
  have packet: "?packet = [0, 0] @ le_bytes 2 ?n @ le_bytes 4 ?p @ build_fields fs 8 @ frame"
    by (simp add: build_radiotap_def Let_def)
  have header: "struct_unpack [1, 1, 2, 4] ?packet 0 = Inr [0, 0, ?n, ?p]"
    unfolding packet using n p by (intro header_numbers)
  have skip: "skip_bitmaps ?packet ?p 8 = Inr 8"
    using ids by (subst skip_bitmaps.simps) auto
  have num: "le_value (le_bytes 4 ?p) = ?p"
    using p by (simp add: le_value_bytes)
  have bits: "present_bits (take 4 (drop 4 ?packet)) =
      map (\<lambda>i. Inr (''radiotap'', Some i)) (map fst fs)"
  proof -
    have "filter (\<lambda>i. i \<in> set (map fst fs)) [0..<32] = map fst fs"
      using ok ids by (intro filter_sorted_upt) (auto simp: fields_ok_def)
    moreover have "bit ?p = (\<lambda>i. i \<in> set (map fst fs))"
      by (simp add: fun_eq_iff)
    ultimately have "filter (bit ?p) [0..<32] = map fst fs"
      by simp
    moreover have "take 4 (drop 4 ?packet) = le_bytes 4 ?p"
      unfolding packet using n p by (intro header_numbers)
    ultimately show ?thesis
      using ids present_bits_word [of "le_bytes 4 ?p"] num by auto
  qed
  have loop: "field_loop (map (\<lambda>i. Inr (''radiotap'', Some i)) (map fst fs)) ?packet ?n 8 None r =
      Inr (foldl (\<lambda>r (i, v). add_fields r (Some (read_field i v))) r fs)" for r
    using field_loop_written [of fs 8 ?packet frame None r] ok packet
    by (simp add: fields_ok_def)
  have result: "foldl (\<lambda>r (i, v). add_fields r (Some (read_field i v)))
      (if valuelist then RList [] else RDict []) fs =
    (if valuelist then RList (map (\<lambda>(i, v). read_field i v) fs)
     else RDict (concat (map (\<lambda>(i, v). read_field i v) fs)))"
    using foldl_add_list [of fs "[]"] foldl_add_dict [of "[]" fs] written_keys [OF ok] ok
      dict_updates_fresh [of "[]" "map (\<lambda>(i, v). read_field i v) fs"]
    by (simp add: fields_ok_def)
  show ?thesis
    using n header skip bits loop result by (simp add: radiotap_parse_def)
qed


definition demo_fields :: "(nat \<times> nat list) list" where
  "demo_fields = [(1, [0x10]), (3, [2437, 0xA0]), (5, [0xB4])]"

lemma demo_fields_ok: "fields_ok demo_fields"
  by (simp add: demo_fields_def fields_ok_def plain_ids_def rt_sizes_def rt_layout_def)

lemma le_bytes_numeral:
  "le_bytes 2 n = [word_of_nat n, word_of_nat (n div 256)]"
  "le_bytes 4 n = [word_of_nat n, word_of_nat (n div 256), word_of_nat (n div 65536),
     word_of_nat (n div 16777216)]"
proof -
  have two: "(2::nat) = Suc (Suc 0)" and four: "(4::nat) = Suc (Suc (Suc (Suc 0)))"
    by simp_all
  show "le_bytes 2 n = [word_of_nat n, word_of_nat (n div 256)]"
    unfolding two le_bytes.simps by simp
  show "le_bytes 4 n = [word_of_nat n, word_of_nat (n div 256), word_of_nat (n div 65536),
     word_of_nat (n div 16777216)]"
    unfolding four le_bytes.simps by (simp flip: div_mult2_eq)
qed

lemma demo_header: "build_radiotap demo_fields = [0, 0, 15, 0, 0x2A, 0, 0, 0, 0x10, 0, 0x85, 9, 0xA0, 0, 0xB4]"
  by (simp add: demo_fields_def build_radiotap_def Let_def rt_sizes_def rt_align_def rt_layout_def
      align_values le_bytes_numeral)

lemma demo_read: "concat (map (\<lambda>(i, v). read_field i v) demo_fields) =
    [(KStr ''flags'', RInt 16), (KStr ''chan_freq'', RInt 2437), (KStr ''chan_flags'', RInt 160),
     (KStr ''dbm_antsignal'', RInt (- 76))]"
  by (simp add: demo_fields_def read_field_def rt_names_def rt_layout_def read_value_def signed_byte_def)


theorem radiotap_values_typed_witness:
  "radiotap_parse (build_radiotap demo_fields) False =
     Inr (15, RDict (concat (map (\<lambda>(i, v). read_field i v) demo_fields))) \<and>
   values_typed (RDict (concat (map (\<lambda>(i, v). read_field i v) demo_fields)))"
proof -
  have parse: "radiotap_parse (build_radiotap demo_fields) False =
      Inr (15, RDict (concat (map (\<lambda>(i, v). read_field i v) demo_fields)))"
    using radiotap_parse_written [OF demo_fields_ok, of "[]" False] by (simp add: demo_header)
  with radiotap_values_typed [OF parse] show ?thesis
    by blast
qed

theorem radiotap_dict_merges_list_witness:
  "\<exists>ds. radiotap_parse (build_radiotap demo_fields) True = Inr (15, RList ds) \<and>
     foldl dict_update [] ds = concat (map (\<lambda>(i, v). read_field i v) demo_fields)"
proof -
  have "radiotap_parse (build_radiotap demo_fields) False =
      Inr (15, RDict (concat (map (\<lambda>(i, v). read_field i v) demo_fields)))"
    using radiotap_parse_written [OF demo_fields_ok, of "[]" False] by (simp add: demo_header)
  from radiotap_dict_merges_list [OF this] show ?thesis
    by auto
qed

subsection \<open>Vendor namespaces\<close>

text \<open>A header whose only field is a vendor's, with the presence bits \<open>w\<close> of the vendor's namespace.\<close>

definition vendor_block :: "bytes \<Rightarrow> byte \<Rightarrow> bytes \<Rightarrow> bytes" where
  "vendor_block oui subns payload = oui @ [subns] @ le_bytes 2 (length payload) @ payload"

definition vendor_header :: "bytes \<Rightarrow> byte \<Rightarrow> bytes \<Rightarrow> nat \<Rightarrow> bytes" where
  "vendor_header oui subns payload w =
     (let block = vendor_block oui subns payload
      in [0, 0] @ le_bytes 2 (12 + length block) @ le_bytes 4 0xC0000000 @ le_bytes 4 w @ block)"

lemma parse_vendor_block:
  assumes "length oui = 3" and "length payload < 65536"
    and "drop offset packet = vendor_block oui subns payload @ rest" and "even offset"
    and "offset \<le> length packet"
  shows "parse_vendor packet offset = Inr (offset + length (vendor_block oui subns payload),
    [(KStr ''oui'', RBytes oui), (KStr ''subns'', RInt (uint subns)), (KStr ''data'', RBytes payload),
     (KStr ''present'', RInt 0)])"
proof -
  have start: "align offset 2 = offset"
    using assms(4) by (simp add: align_values)
  have len: "length packet = offset + length (vendor_block oui subns payload @ rest)"
    using arg_cong [OF assms(3), of length] assms(5) by simp
  have num: "le_value (le_bytes 2 (length payload)) = length payload"
    using assms(2) by (simp add: le_value_bytes)
  have unpack: "struct_unpack [3, 1, 2] packet offset = Inr [le_value oui, unat subns, length payload]"
    using len assms(1) num by (simp add: struct_unpack_def assms(3) vendor_block_def)
  have "drop (offset + 6) packet = payload @ rest"
    using arg_cong [OF assms(3), of "drop 6"] assms(1) by (simp add: vendor_block_def add.commute)
  then show ?thesis
    using unpack assms(1,3) start len
    by (simp add: parse_vendor_def Let_def vendor_block_def)
qed

lemma present_bits_vendor:
  assumes "w < 2 ^ 29"
  shows "present_bits (le_bytes 4 0xC0000000 @ le_bytes 4 w) =
    Inr (''vendor'', None) # map (\<lambda>i. Inr (''vendor'', Some i)) (filter (bit w) [0..<32])"
proof -
  have first: "bit_events 0xC0000000 0 [0..<32] ''radiotap'' False = ([(''vendor'', None)], ''vendor'', True)"
    by (simp add: upt_rec)
  have small: "i < 29" if "bit w i" for i
    using that assms by (metis bit_take_bit_iff take_bit_nat_eq_self_iff)
  then have second: "bit_events w 0 [0..<32] ''vendor'' False =
      (map (\<lambda>i. (''vendor'', Some i)) (filter (bit w) [0..<32]), ''vendor'', False)"
    using bit_events_plain [of "[0..<32]" w 0 "''vendor''" False] by simp
  have nums: "le_value (le_bytes 4 0xC0000000) = 0xC0000000" "le_value (le_bytes 4 w) = w"
    using assms by (simp_all add: le_value_bytes)
  have step: "present_bits_loop (le_bytes 4 v @ rest) c ns =
      (case bit_events (le_value (le_bytes 4 v)) c [0..<32] ns False of
         (evs, ns', reset) \<Rightarrow> map Inr evs @ present_bits_loop rest (if reset then 0 else c + 32) ns')"
    for v rest c ns
    by (simp add: le_bytes_numeral struct_unpack_def)
  show ?thesis
    using step [where v = "0xC0000000" and rest = "le_bytes 4 w" and c = 0 and ns = "''radiotap''"]
      step [where v = w and rest = "[]" and c = 0 and ns = "''vendor''"] first second
    by (simp add: present_bits_def nums del: upt_rec_numeral)
qed

lemma filter_bit_Cons:
  assumes "0 < (w :: nat)" and "w < 2 ^ 29"
  shows "\<exists>is. filter (bit w) [0..<32] = (LEAST i. bit w i) # is \<and> (LEAST i. bit w i) < 29"
proof -
  have "\<exists>j. bit w j"
  proof (rule ccontr)
    assume "\<not> (\<exists>j. bit w j)"
    then have "w = 0"
      by (intro bit_eqI) simp
    with assms(1) show False
      by simp
  qed
  then obtain j where j: "bit w j"
    by blast
  let ?l = "LEAST i. bit w i"
  have l: "bit w ?l"
    using j by (rule LeastI)
  have small: "?l < 29"
    using l assms(2) by (metis bit_take_bit_iff take_bit_nat_eq_self_iff)
  have "[0..<32] = [0..<?l] @ ?l # [Suc ?l..<32]"
    using small upt_add_eq_append [of 0 ?l "32 - ?l"] upt_conv_Cons [of ?l 32] by simp
  moreover have "\<forall>x\<in>set [0..<?l]. \<not> bit w x"
  proof
    fix x
    assume "x \<in> set [0..<?l]"
    then have "x < ?l"
      by (simp only: set_upt atLeastLessThan_iff)
    then show "\<not> bit w x"
      by (rule not_less_Least)
  qed
  then have "filter (bit w) [0..<?l] = []"
    by (rule filter_False)
  ultimately show ?thesis
    using l small by (metis append_Nil filter.simps(2) filter_append)
qed

lemma vendor_header_numbers:
  assumes "length oui = 3" and "length payload < 65000" and "w < 2 ^ 29"
  shows "struct_unpack [1, 1, 2, 4] (vendor_header oui subns payload w @ frame) 0 =
      Inr [0, 0, 18 + length payload, 0xC0000000]"
    and "skip_bitmaps (vendor_header oui subns payload w @ frame) 0xC0000000 8 = Inr 12"
    and "take (12 - 4) (drop 4 (vendor_header oui subns payload w @ frame)) =
      le_bytes 4 0xC0000000 @ le_bytes 4 w"
    and "drop 12 (vendor_header oui subns payload w @ frame) = vendor_block oui subns payload @ frame"
    and "length (vendor_header oui subns payload w) = 18 + length payload"
proof -
  let ?packet = "vendor_header oui subns payload w @ frame"
  have len: "length (vendor_block oui subns payload) = 6 + length payload"
    using assms(1) by (simp add: vendor_block_def)
  have packet: "?packet = [0, 0] @ le_bytes 2 (18 + length payload) @ le_bytes 4 0xC0000000 @
      le_bytes 4 w @ vendor_block oui subns payload @ frame"
    using len by (simp add: vendor_header_def Let_def)
  show "struct_unpack [1, 1, 2, 4] ?packet 0 = Inr [0, 0, 18 + length payload, 0xC0000000]"
    unfolding packet using assms(2) by (intro header_numbers) simp_all
  have at8: "drop 8 ?packet = le_bytes 4 w @ vendor_block oui subns payload @ frame"
    unfolding packet by (simp add: le_bytes_numeral)
  have "struct_unpack [4] (le_bytes 4 w @ vendor_block oui subns payload @ frame) 0 = Inr [w]"
    using struct_unpack_bytes [of "[4]" "[w]" 0] assms(3) by (simp add: le_value_bytes)
  moreover have "\<not> bit w 31"
    using assms(3) by (metis bit_take_bit_iff numeral_less_iff semiring_norm(76,78,80,81) take_bit_nat_eq_self_iff not_less_iff_gr_or_eq)
  ultimately show "skip_bitmaps ?packet 0xC0000000 8 = Inr 12"
    using at8 by (subst skip_bitmaps.simps) (simp add: skip_bitmaps.simps [of _ w] bit_0)
  show "take (12 - 4) (drop 4 ?packet) = le_bytes 4 0xC0000000 @ le_bytes 4 w"
    unfolding packet by (simp add: le_bytes_numeral)
  show "drop 12 ?packet = vendor_block oui subns payload @ frame"
    unfolding packet by (simp add: le_bytes_numeral)
  show "length (vendor_header oui subns payload w) = 18 + length payload"
    using len by (simp add: vendor_header_def Let_def)
qed

subsection \<open>Presence bits of a vendor\<close>

text \<open>
  A field of a vendor's namespace cannot be read into a dictionary: where its presence bits are not
  all clear, the parser raises \<open>KeyError\<close>, because the vendor's fields are merged into the dictionary
  and not stored under the vendor. As a list the field is read with its data; when it ends the header,
  only the lowest of its presence bits is recorded.
\<close>

theorem radiotap_vendor_dict_fails:
  assumes "length oui = 3" and "length payload < 65000" and "0 < w" and "w < 2 ^ 29"
  shows "radiotap_parse (vendor_header oui subns payload w @ frame) False = Inl KeyError \<and>
    radiotap_parse (vendor_header oui subns payload w @ frame) True =
      Inr (18 + length payload, RList [[(KStr ''oui'', RBytes oui), (KStr ''subns'', RInt (uint subns)),
        (KStr ''data'', RBytes payload), (KStr ''present'', RInt (2 ^ (LEAST i. bit w i)))]])"
proof -
  let ?packet = "vendor_header oui subns payload w @ frame" and ?n = "18 + length payload"
  let ?block = "[(KStr ''oui'', RBytes oui), (KStr ''subns'', RInt (uint subns)),
    (KStr ''data'', RBytes payload), (KStr ''present'', RInt 0)]"
  obtain rest where bits: "filter (bit w) [0..<32] = (LEAST i. bit w i) # rest"
    using filter_bit_Cons [OF assms(3,4)] by blast
  note head = vendor_header_numbers [OF assms(1,2,4)]
  have start: "12 + length (vendor_block oui subns payload) = ?n"
    using assms(1) by (simp add: vendor_block_def)
  have vendor: "parse_vendor ?packet 12 = Inr (?n, ?block)"
    unfolding start [symmetric]
    by (intro parse_vendor_block [OF assms(1) _ head(4)]) (use assms(2) head(5) in simp_all)
  have parse: "radiotap_parse ?packet vl =
      (case field_loop (Inr (''vendor'', None) # map (\<lambda>i. Inr (''vendor'', Some i))
          ((LEAST i. bit w i) # rest)) ?packet ?n 12 None (if vl then RList [] else RDict []) of
         Inl e \<Rightarrow> Inl e
       | Inr r \<Rightarrow> Inr (?n, r))" for vl
    using head present_bits_vendor [OF assms(4)] bits by (simp add: radiotap_parse_def Let_def)
  have dict: "add_fields (RDict []) (Some ?block) = RDict ?block"
    "add_fields (RList []) (Some ?block) = RList [?block]"
    by (simp_all add: add_fields_def dict_update_def)
  have none: "add_fields r None = r" for r
    by (simp add: add_fields_def)
  show ?thesis
    unfolding parse
    using vendor dict none
    by (simp add: add_vendor_presence_bit_def vendor_key_def or_present_def parse_radiotap_field_def
        push_bit_eq_mult)
qed

theorem radiotap_vendor_dict_fails_witness:
  "radiotap_parse (vendor_header [0xAA, 0xBB, 0xCC] 1 [7, 9] 6 @ [8]) False = Inl KeyError"
  using radiotap_vendor_dict_fails [of "[0xAA, 0xBB, 0xCC]" "[7, 9]" 6 1 "[8]"] by simp

end
