(* ===== verification/Wlan_Radiotap.thy ===== *)
theory Wlan_Radiotap
  imports Wlan_Sockets Radiotap
begin

section \<open>From captured bytes to the channel\<close>

text \<open>
  The composition of \<open>communication/wlan/radiotap_prasing.py\<close> with the radiotap parser it calls: the
  parser's dictionary, asked for the two entries by which the channel is found.
\<close>

definition header_int :: "dict \<Rightarrow> string \<Rightarrow> int option" where
  "header_int d k = (case map_of d (KStr k) of Some (RInt n) \<Rightarrow> Some n | _ \<Rightarrow> None)"

definition radiotap_of :: "bytes \<Rightarrow> exn + nat \<times> radiotap_header" where
  "radiotap_of raw_packet =
     (case radiotap_parse raw_packet False of
        Inl e \<Rightarrow> Inl e
      | Inr (header_length, RList _) \<Rightarrow> Inl (AttributeError ''get'')
      | Inr (header_length, RDict d) \<Rightarrow>
          Inr (header_length, \<lparr>chan_freq = header_int d ''chan_freq'',
            chan_flags = header_int d ''chan_flags'', rt_channel = None\<rparr>))"

text \<open>The vendored parser is a parser of headers in the sense of the interface.\<close>

lemma radiotap_of_cases:
  assumes "radiotap_of data = Inr (n, h)"
  obtains d where "radiotap_parse data False = Inr (n, RDict d)" and "rt_channel h = None"
  using assms by (auto simp: radiotap_of_def split: sum.splits rt_values.splits)

lemma radiotap_of_within: "radiotap_of data = Inr (n, h) \<Longrightarrow> n \<le> length data"
  by (elim radiotap_of_cases radiotap_parse_cases) simp_all

interpretation vendored: header_parser radiotap_of
  by unfold_locales (blast intro: radiotap_of_within, blast elim: radiotap_of_cases)

lemma header_int_written:
  assumes "fields_ok fs" and "(i, v) \<in> set fs" and "(KStr k, RInt n) \<in> set (read_field i v)"
  shows "header_int (concat (map (\<lambda>(i, v). read_field i v) fs)) k = Some n"
proof -
  have "(KStr k, RInt n) \<in> set (concat (map (\<lambda>(i, v). read_field i v) fs))"
    using assms(2,3) by force
  then show ?thesis
    using map_of_is_SomeI [OF written_keys [OF assms(1)]] by (simp add: header_int_def)
qed

lemma radiotap_of_written:
  assumes "fields_ok fs" and "(3, [freq, flags]) \<in> set fs"
  shows "radiotap_of (build_radiotap fs @ frame) =
    Inr (length (build_radiotap fs),
      \<lparr>chan_freq = Some (int freq), chan_flags = Some (int flags), rt_channel = None\<rparr>)"
proof -
  have "read_field 3 [freq, flags] =
      [(KStr ''chan_freq'', RInt (int freq)), (KStr ''chan_flags'', RInt (int flags))]"
    by (simp add: read_field_def rt_names_def rt_layout_def read_value_def)
  then show ?thesis
    using radiotap_parse_written [OF assms(1), of frame False]
      header_int_written [OF assms, of "''chan_freq''" "int freq"]
      header_int_written [OF assms, of "''chan_flags''" "int flags"]
    by (simp add: radiotap_of_def)
qed

lemma channel_of_freq:
  "convert_channel_to_freq c = Inr f \<Longrightarrow> convert_freq_to_channel f = Inr c \<and> 0 \<le> f"
  by (auto simp: convert_channel_to_freq_def convert_freq_to_channel_def split: if_splits)

text \<open>
  From the bytes of a capture to its channel: with a header that holds the frequency of a channel of
  the 2.4 GHz band among any other fields, \<open>parse_radiotap\<close> returns that channel and exactly the frame
  that follows the header; with any other frequency the whole capture is refused with \<open>ValueError\<close>.
  And whatever capture is read, what it returns is an end of the capture, and its channel is at most 15.
\<close>

theorem radiotap_channel_found:
  assumes "fields_ok fs" and "(3, [freq, flags]) \<in> set fs"
  shows "(\<forall>c. convert_channel_to_freq c = Inr (int freq) \<longrightarrow>
      parse_radiotap radiotap_of (build_radiotap fs @ frame) =
        Inr (\<lparr>chan_freq = Some (int freq), chan_flags = Some (int flags), rt_channel = Some c\<rparr>, frame)) \<and>
    (freq < 2407 \<or> 2484 < freq \<longrightarrow>
      parse_radiotap radiotap_of (build_radiotap fs @ frame) = Inl out_of_range) \<and>
    (\<forall>data h rest. parse_radiotap radiotap_of data = Inr (h, rest) \<longrightarrow>
      (\<exists>n \<le> length data. rest = drop n data) \<and>
      (\<forall>c. rt_channel h = Some c \<longrightarrow> 0 \<le> c \<and> c \<le> 15))"
proof -
  have "convert_freq_to_channel (int freq) = Inl out_of_range" if "freq < 2407 \<or> 2484 < freq"
    using that by (auto simp: convert_freq_to_channel_def)
  then show ?thesis
    using radiotap_of_written [OF assms, of frame] channel_of_freq vendored.capture_cut vendored.channel_range
    by (auto simp: parse_radiotap_def [of _ "build_radiotap fs @ frame"]) blast
qed

theorem radiotap_channel_found_witness:
  "\<exists>h. parse_radiotap radiotap_of (build_radiotap demo_fields @ [8, 1]) = Inr (h, [8, 1]) \<and>
     rt_channel h = Some 6"
proof -
  have "(3, [2437, 0xA0]) \<in> set demo_fields"
    by (simp add: demo_fields_def)
  moreover have "convert_channel_to_freq 6 = Inr (int 2437)"
    by (simp add: convert_channel_to_freq_def)
  ultimately show ?thesis
    using radiotap_channel_found [OF demo_fields_ok, of 2437 "0xA0" "[8, 1]"] by simp
qed

section \<open>Receiving captures\<close>

text \<open>
  A monitor socket whose packets are parsed by the vendored parser: \<open>header_of\<close> and \<open>build\<close> are what
  construct does with the frame.
\<close>

definition capture_parsers :: "(bytes \<Rightarrow> exn + frame) \<Rightarrow> (frame \<Rightarrow> exn + bytes) \<Rightarrow> parsers" where
  "capture_parsers header_of build = parsers.make radiotap_of header_of build"

lemma capture_parsers_simps [simp]:
  "parsers.radiotap_parse (capture_parsers header_of build) = radiotap_of"
  "header_parse (capture_parsers header_of build) = header_of"
  "header_build (capture_parsers header_of build) = build"
  by (simp_all add: capture_parsers_def parsers.defs)

lemma receive_first:
  assumes "has_socket w" and "arrivals w = pre @ Some (capture, if_name w) # post"
    and "\<forall>x\<in>set pre. \<forall>d. x \<noteq> Some (d, if_name w)"
  shows "wlan_receive P t w =
    (case receive_frame P capture of Inl e \<Rightarrow> Exn e | Inr r \<Rightarrow> Val r, w\<lparr>arrivals := post\<rparr>)"
  using assms by (simp add: wlan_receive_def wlan_receive_loop_skips)

lemma receive_parsed:
  assumes "parse_radiotap radiotap_of capture = Inr (h, frame)"
  shows "receive_frame (capture_parsers header_of build) capture =
    (case header_of frame of
       Inl e \<Rightarrow> if is_construct_error e then Inl no_parsed_data else Inl e
     | Inr f \<Rightarrow>
         (case build f of
            Inl e \<Rightarrow> if is_construct_error e then Inr (Some (f, parse_ie_elements f)) else Inl e
          | Inr _ \<Rightarrow> Inr (Some (f, parse_ie_elements f))))"
  using assms
  by (auto simp: receive_frame_def wifi_packet_def is_construct_error_def construct_error_def stream_error_def
      no_parsed_data_def split: sum.splits)

lemma short_capture: "length capture < 8 \<Longrightarrow> \<exists>h. parse_radiotap radiotap_of capture = Inr (h, capture)"
  by (simp add: parse_radiotap_def radiotap_of_def radiotap_parse_def header_int_def)

text \<open>
  C36. From the air to the packet: the first capture that comes in by the socket's own interface is
  received, whatever came in by others before it. When its radiotap header holds the frequency of a
  channel of the 2.4 GHz band, the packet has the frame that follows the header and its elements; a
  frame that construct cannot read raises \<open>AttributeError\<close> and is not skipped. When the frequency is of
  any other band, \<open>ValueError\<close> is raised though the frame is sound. A capture too short for a header is
  read as a frame. In each case the capture is consumed.
\<close>

theorem capture_received:
  assumes "has_socket w" and "arrivals w = pre @ Some (capture, if_name w) # post"
    and "\<forall>x\<in>set pre. \<forall>d. x \<noteq> Some (d, if_name w)"
  shows "(\<forall>fs freq flags frame. capture = build_radiotap fs @ frame \<and> fields_ok fs \<and> (3, [freq, flags]) \<in> set fs \<longrightarrow>
      (\<forall>c f. convert_channel_to_freq c = Inr (int freq) \<and> header_of frame = Inr f \<and> build f = Inr frame \<longrightarrow>
         wlan_receive (capture_parsers header_of build) t w =
           (Val (Some (f, parse_ie_elements f)), w\<lparr>arrivals := post\<rparr>)) \<and>
      (\<forall>c. convert_channel_to_freq c = Inr (int freq) \<and> header_of frame = Inl stream_error \<longrightarrow>
         wlan_receive (capture_parsers header_of build) t w = (Exn no_parsed_data, w\<lparr>arrivals := post\<rparr>)) \<and>
      (freq < 2407 \<or> 2484 < freq \<longrightarrow>
         wlan_receive (capture_parsers header_of build) t w = (Exn out_of_range, w\<lparr>arrivals := post\<rparr>))) \<and>
    (\<forall>f. length capture < 8 \<and> header_of capture = Inr f \<and> build f = Inr capture \<longrightarrow>
       wlan_receive (capture_parsers header_of build) t w =
         (Val (Some (f, parse_ie_elements f)), w\<lparr>arrivals := post\<rparr>))"
proof (intro conjI allI impI; (elim conjE)?)
  fix fs freq flags frame c f
  assume cap: "capture = build_radiotap fs @ frame" "fields_ok fs" "(3, [freq, flags]) \<in> set fs"
    and c: "convert_channel_to_freq c = Inr (int freq)"
  have parsed: "\<exists>h. parse_radiotap radiotap_of capture = Inr (h, frame)"
    unfolding cap(1) using radiotap_channel_found [OF cap(2,3), of frame] c by blast
  show "wlan_receive (capture_parsers header_of build) t w =
      (Val (Some (f, parse_ie_elements f)), w\<lparr>arrivals := post\<rparr>)"
    if "header_of frame = Inr f" "build f = Inr frame"
    using parsed that by (auto simp: receive_first [OF assms] receive_parsed)
  show "wlan_receive (capture_parsers header_of build) t w = (Exn no_parsed_data, w\<lparr>arrivals := post\<rparr>)"
    if "header_of frame = Inl stream_error"
    using parsed that by (auto simp: receive_first [OF assms] receive_parsed is_construct_error_def)
next
  fix fs freq flags frame
  assume cap: "capture = build_radiotap fs @ frame" "fields_ok fs" "(3, [freq, flags]) \<in> set fs"
    and "freq < 2407 \<or> 2484 < freq"
  then have "parse_radiotap radiotap_of capture = Inl out_of_range"
    using radiotap_channel_found [OF cap(2,3), of frame] by blast
  moreover have "out_of_range \<noteq> stream_error"
    by (simp add: out_of_range_def stream_error_def)
  ultimately show "wlan_receive (capture_parsers header_of build) t w = (Exn out_of_range, w\<lparr>arrivals := post\<rparr>)"
    by (simp add: receive_first [OF assms] receive_frame_def wifi_packet_def)
next
  fix f
  assume "length capture < 8" "header_of capture = Inr f" "build f = Inr capture"
  then show "wlan_receive (capture_parsers header_of build) t w =
      (Val (Some (f, parse_ie_elements f)), w\<lparr>arrivals := post\<rparr>)"
    using short_capture [of capture] by (auto simp: receive_first [OF assms] receive_parsed)
qed

text \<open>A 5 GHz capture among others.\<close>

theorem capture_received_witness:
  "\<exists>w. wlan_receive (capture_parsers (\<lambda>_. Inl stream_error) (\<lambda>_. Inr [])) 2
       (demo_wlan\<lparr>has_socket := True,
          arrivals := [None, Some ([1], ''eth0''), Some (build_radiotap [(3, [5180, 0x140])] @ [8, 1], ''wlan0'')]\<rparr>) =
     (Exn out_of_range, w) \<and> arrivals w = []"
proof -
  have "fields_ok [(3, [5180, 0x140])]"
    by (simp add: fields_ok_def plain_ids_def rt_sizes_def rt_layout_def)
  then show ?thesis
    using capture_received [of "demo_wlan\<lparr>has_socket := True,
        arrivals := [None, Some ([1], ''eth0''), Some (build_radiotap [(3, [5180, 0x140])] @ [8, 1], ''wlan0'')]\<rparr>"
        "[None, Some ([1], ''eth0'')]" "build_radiotap [(3, [5180, 0x140])] @ [8, 1]" "[]"
        "\<lambda>_. Inl stream_error" "\<lambda>_. Inr []" 2]
    by (force simp: demo_wlan_def)
qed

end
