(* ===== verification/Ieee80211.thy ===== *)
theory Ieee80211
  imports Mac_Parsing Radiotap
begin

section \<open>The header of an 802.11 frame\<close>

text \<open>
  Models the second parser of \<open>external/python_radiotap/radiotap/radiotap.py\<close>, the one of the frame's
  own header. How addresses are printed is a parameter of \<open>ieee80211_parse_with\<close>;
  \<open>ieee80211_parse\<close> is the code's choice, whose \<open>macstr\<close> takes the code point of every item of a
  \<open>bytes\<close>, which in Python 3 are integers.
\<close>

unbundle bit_operations_syntax

datatype py_item = IntItem nat | CharItem char

definition iter_bytes :: "bytes \<Rightarrow> py_item list" where
  "iter_bytes bs = map (\<lambda>b. IntItem (unat b)) bs"

definition not_a_character :: exn where
  "not_a_character = TypeError ''ord() expected string of length 1, but int found''"

fun py_ord :: "py_item \<Rightarrow> exn + nat" where
  "py_ord (CharItem c) = Inr (of_char c)"
| "py_ord (IntItem n) = Inl not_a_character"

fun mac_parts :: "py_item list \<Rightarrow> exn + string list" where
  "mac_parts [] = Inr []"
| "mac_parts (k # ks) =
     (case py_ord k of
        Inl e \<Rightarrow> Inl e
      | Inr n \<Rightarrow> (case mac_parts ks of Inl e \<Rightarrow> Inl e | Inr ss \<Rightarrow> Inr (hex_byte (word_of_nat n) # ss)))"

definition macstr :: "bytes \<Rightarrow> exn + string" where
  "macstr macbytes =
     (case mac_parts (iter_bytes macbytes) of Inl e \<Rightarrow> Inl e | Inr ss \<Rightarrow> Inr (join_with (CHR '':'') ss))"

subsection \<open>Kinds of frames\<close>

definition mac_fc :: "dict \<Rightarrow> nat" where
  "mac_fc mac = (case map_of mac (KStr ''fc'') of Some (RInt n) \<Rightarrow> nat n | _ \<Rightarrow> 0)"

definition is_blkack :: "dict \<Rightarrow> bool" where
  "is_blkack mac \<longleftrightarrow> drop_bit 2 (mac_fc mac) AND 0x3 = 1 \<and> drop_bit 4 (mac_fc mac) AND 0x0f = 0x9"

definition is_qos_data :: "dict \<Rightarrow> bool" where
  "is_qos_data mac \<longleftrightarrow> drop_bit 2 (mac_fc mac) AND 0x3 = 2 \<and> drop_bit 4 (mac_fc mac) AND 0x0f = 0x8"

definition is_qos_null :: "dict \<Rightarrow> bool" where
  "is_qos_null mac \<longleftrightarrow> drop_bit 2 (mac_fc mac) AND 0x3 = 2 \<and> drop_bit 4 (mac_fc mac) AND 0x0f = 0xc"

definition is_qos :: "dict \<Rightarrow> bool" where
  "is_qos mac \<longleftrightarrow> is_qos_null mac \<or> is_qos_data mac"

subsection \<open>The parser\<close>

text \<open>
  Its sections, each with the part of the code that follows it. \<open>offset\<close> is where the section starts;
  a section for which there are not enough bytes ends the parse with what was read before.
\<close>

definition parse_qos :: "(bytes \<Rightarrow> exn + string) \<Rightarrow> bytes \<Rightarrow> nat \<Rightarrow> dict \<Rightarrow> exn + nat \<times> dict" where
  "parse_qos mac_text packet offset mac =
     (if length packet < offset + 6 then Inr (offset, mac)
      else case mac_text (take 6 (drop offset packet)) of
        Inl e \<Rightarrow> Inl e
      | Inr addr4 \<Rightarrow>
          let mac4 = dict_update mac [(KStr ''addr4'', RText addr4)]
          in if length packet < offset + 6 + 2 then Inr (offset + 6, mac4)
             else (case struct_unpack [2] packet (offset + 6) of
                     Inl e \<Rightarrow> Inl e
                   | Inr v \<Rightarrow>
                       let qos_ctrl = v ! 0
                       in Inr (offset + 6, dict_update mac4
                            [(KStr ''tid'', RInt (int (qos_ctrl AND 0xf))),
                             (KStr ''eosp'', RInt (int (drop_bit 4 qos_ctrl AND 1))),
                             (KStr ''rspi'', RInt (int (drop_bit 10 qos_ctrl AND 1))),
                             (KStr ''mesh_ps'', RInt (int (drop_bit 9 qos_ctrl AND 1)))])))"

definition parse_three_addr ::
  "(bytes \<Rightarrow> exn + string) \<Rightarrow> bytes \<Rightarrow> nat \<Rightarrow> dict \<Rightarrow> exn + nat \<times> dict" where
  "parse_three_addr mac_text packet offset mac =
     (if length packet < offset + 14 then Inr (offset, mac)
      else case struct_unpack [6, 6, 2] packet offset of
        Inl e \<Rightarrow> Inl e
      | Inr v \<Rightarrow>
          (case mac_text (take 6 (drop offset packet)) of
             Inl e \<Rightarrow> Inl e
           | Inr addr2 \<Rightarrow>
               (case mac_text (take 6 (drop (offset + 6) packet)) of
                  Inl e \<Rightarrow> Inl e
                | Inr addr3 \<Rightarrow>
                    let sq = v ! 2;
                        mac' = dict_update mac
                          [(KStr ''addr2'', RText addr2), (KStr ''addr3'', RText addr3),
                           (KStr ''seq'', RInt (int (drop_bit 4 sq))), (KStr ''frag'', RInt (int (sq AND 0x0f)))]
                    in if is_qos mac' then parse_qos mac_text packet (offset + 14) mac'
                       else Inr (offset + 14, mac'))))"

definition parse_blkack ::
  "(bytes \<Rightarrow> exn + string) \<Rightarrow> bytes \<Rightarrow> nat \<Rightarrow> dict \<Rightarrow> exn + nat \<times> dict" where
  "parse_blkack mac_text packet offset mac =
     (if length packet < offset + 18 then Inr (offset, mac)
      else case struct_unpack [6, 2, 2, 8] packet offset of
        Inl e \<Rightarrow> Inl e
      | Inr v \<Rightarrow>
          (case mac_text (take 6 (drop offset packet)) of
             Inl e \<Rightarrow> Inl e
           | Inr addr2 \<Rightarrow> Inr (offset + 18, dict_update mac
               [(KStr ''addr2'', RText addr2), (KStr ''ba_ctrl'', RInt (int (v ! 1))),
                (KStr ''ba_ssc'', RInt (int (v ! 2))),
                (KStr ''ba_bitmap'', RBytes (take 8 (drop (offset + 10) packet)))])))"

definition ieee80211_parse_with ::
  "(bytes \<Rightarrow> exn + string) \<Rightarrow> bytes \<Rightarrow> nat \<Rightarrow> exn + nat \<times> dict" where
  "ieee80211_parse_with mac_text packet offset =
     (if length packet < offset + 10 then Inr (0, [])
      else case struct_unpack [2, 2, 6] packet offset of
        Inl e \<Rightarrow> Inl e
      | Inr v \<Rightarrow>
          (case mac_text (take 6 (drop (offset + 4) packet)) of
             Inl e \<Rightarrow> Inl e
           | Inr addr1 \<Rightarrow>
               let mac = [(KStr ''fc'', RInt (int (v ! 0))),
                          (KStr ''duration'', RFloat (of_nat (v ! 1) * 0.001024)),
                          (KStr ''addr1'', RText addr1)]
               in if is_blkack mac then parse_blkack mac_text packet (offset + 10) mac
                  else parse_three_addr mac_text packet (offset + 10) mac))"

definition ieee80211_parse :: "bytes \<Rightarrow> nat \<Rightarrow> exn + nat \<times> dict" where
  "ieee80211_parse packet offset = ieee80211_parse_with macstr packet offset"

subsection \<open>Lemmas\<close>

lemma macstr_fails: "macbytes \<noteq> [] \<Longrightarrow> macstr macbytes = Inl not_a_character"
  by (cases macbytes) (auto simp: macstr_def iter_bytes_def)

lemma struct_unpack_enough:
  "offset + sum_list sizes \<le> length packet \<Longrightarrow> \<exists>v. struct_unpack sizes packet offset = Inr v"
  by (simp add: struct_unpack_def)

lemma parse_qos_returns:
  assumes "\<And>bs. \<exists>s. mac_text bs = Inr s" and "offset \<le> length packet"
  shows "\<exists>n d. parse_qos mac_text packet offset mac = Inr (n, d) \<and> n \<in> {offset, offset + 6} \<and>
    n \<le> length packet"
proof -
  obtain s where "mac_text (take 6 (drop offset packet)) = Inr s"
    using assms(1) by blast
  moreover have "\<exists>v. struct_unpack [2] packet (offset + 6) = Inr v" if "\<not> length packet < offset + 6 + 2"
    using struct_unpack_enough [of "offset + 6" "[2]" packet] that by simp
  ultimately show ?thesis
    using assms(2) by (auto simp: parse_qos_def Let_def not_less)
qed

lemma parse_three_addr_returns:
  assumes "\<And>bs. \<exists>s. mac_text bs = Inr s" and "offset \<le> length packet"
  shows "\<exists>n d. parse_three_addr mac_text packet offset mac = Inr (n, d) \<and>
    n \<in> {offset, offset + 14, offset + 20} \<and> n \<le> length packet"
proof (cases "length packet < offset + 14")
  case False
  obtain s2 s3 where "mac_text (take 6 (drop offset packet)) = Inr s2"
    "mac_text (take 6 (drop (offset + 6) packet)) = Inr s3"
    using assms(1) by meson
  moreover obtain v where "struct_unpack [6, 6, 2] packet offset = Inr v"
    using struct_unpack_enough [of offset "[6, 6, 2]" packet] False by auto
  moreover have "\<exists>n d. parse_qos mac_text packet (offset + 14) mac' = Inr (n, d) \<and>
      n \<in> {offset, offset + 14, offset + 20} \<and> n \<le> length packet" for mac'
    using parse_qos_returns [of mac_text "offset + 14" packet mac', OF assms(1)] False
    by (auto simp: add.commute)
  ultimately show ?thesis
    using False by (simp add: parse_three_addr_def Let_def)
qed (use assms(2) in \<open>simp add: parse_three_addr_def\<close>)

lemma parse_blkack_returns:
  assumes "\<And>bs. \<exists>s. mac_text bs = Inr s" and "offset \<le> length packet"
  shows "\<exists>n d. parse_blkack mac_text packet offset mac = Inr (n, d) \<and>
    n \<in> {offset, offset + 18} \<and> n \<le> length packet"
proof (cases "length packet < offset + 18")
  case False
  obtain s where "mac_text (take 6 (drop offset packet)) = Inr s"
    using assms(1) by blast
  moreover obtain v where "struct_unpack [6, 2, 2, 8] packet offset = Inr v"
    using struct_unpack_enough [of offset "[6, 2, 2, 8]" packet] False by auto
  ultimately show ?thesis
    using False by (simp add: parse_blkack_def)
qed (use assms(2) in \<open>simp add: parse_blkack_def\<close>)

lemma ieee80211_returns:
  assumes "\<And>bs. \<exists>s. mac_text bs = Inr s" and "offset + 10 \<le> length packet"
  shows "\<exists>n d. ieee80211_parse_with mac_text packet offset = Inr (n, d) \<and>
    n \<in> {offset + 10, offset + 24, offset + 28, offset + 30} \<and> n \<le> length packet"
proof -
  obtain s where "mac_text (take 6 (drop (offset + 4) packet)) = Inr s"
    using assms(1) by blast
  moreover obtain v where "struct_unpack [2, 2, 6] packet offset = Inr v"
    using struct_unpack_enough [of offset "[2, 2, 6]" packet] assms(2) by auto
  ultimately show ?thesis
    using parse_blkack_returns [of mac_text "offset + 10" packet, OF assms(1)]
      parse_three_addr_returns [of mac_text "offset + 10" packet, OF assms(1)] assms(2)
    by (simp add: ieee80211_parse_with_def Let_def) fastforce
qed

subsection \<open>Frames cannot be parsed\<close>

text \<open>
  Every frame with at least a whole header makes the parser raise \<open>TypeError\<close>, since \<open>macstr\<close>
  asks for the code points of integers. That is its only fault of this kind: with addresses printed as
  \<open>mac_parsing.py\<close> does, it returns for every frame, and the offset it gives is after one of the four
  layouts it knows and inside the packet.
\<close>

theorem ieee80211_parse_fails:
  "ieee80211_parse packet offset =
     (if offset + 10 \<le> length packet then Inl not_a_character else Inr (0, [])) \<and>
   (\<exists>n mac. ieee80211_parse_with (\<lambda>b. Inr (mac_decode b)) packet offset = Inr (n, mac) \<and>
     (n = 0 \<and> mac = [] \<or>
      n \<in> {offset + 10, offset + 24, offset + 28, offset + 30} \<and> n \<le> length packet))"
proof (cases "offset + 10 \<le> length packet")
  case True
  then have "take 6 (drop (offset + 4) packet) \<noteq> []"
    by simp
  moreover obtain v where "struct_unpack [2, 2, 6] packet offset = Inr v"
    using struct_unpack_enough [of offset "[2, 2, 6]" packet] True by auto
  ultimately have "ieee80211_parse packet offset = Inl not_a_character"
    using True macstr_fails by (simp add: ieee80211_parse_def ieee80211_parse_with_def)
  moreover have "\<exists>n mac. ieee80211_parse_with (\<lambda>b. Inr (mac_decode b)) packet offset = Inr (n, mac) \<and>
      n \<in> {offset + 10, offset + 24, offset + 28, offset + 30} \<and> n \<le> length packet"
    using True by (intro ieee80211_returns) simp_all
  ultimately show ?thesis
    using True by auto
qed (simp add: ieee80211_parse_def ieee80211_parse_with_def)

end
