(* ===== verification/Wlan_Layouts.thy ===== *)
theory Wlan_Layouts
  imports Mac_Parsing "HOL-Library.Char_ord" "HOL-Library.List_Lexorder"
begin

section \<open>The layouts of 802.11 frames\<close>

text \<open>
  Models what the structure declarations of \<open>communication/wlan/mac_parsing.py\<close> say: which fields a frame
  or an element has, in order, how many bytes (in a \<open>BitStruct\<close>: bits) each takes, under which
  conditions a field is there and by what it is counted. A layout is the list of these; reading the
  bytes is the package construct's. Expressions over \<open>this\<close> are evaluated in the chain of the
  enclosing structures: \<open>this.f\<close> looks a field up in the innermost, \<open>this._.f\<close> in the one around it.
\<close>

type_synonym layout = "(string \<times> nat) list"
type_synonym scope = "(string \<times> nat) list"

definition layout_size :: "layout \<Rightarrow> nat" where
  "layout_size l = sum_list (map snd l)"

definition flag_bits :: "string list \<Rightarrow> layout" where
  "flag_bits names = map (\<lambda>n. (n, 1)) names"

text \<open>\<open>this\<close>, with as many \<open>_\<close> as the first argument says.\<close>

definition this :: "nat \<Rightarrow> string \<Rightarrow> scope list \<Rightarrow> exn + nat" where
  "this up f chain =
     (if up < length chain
      then (case map_of (chain ! up) f of None \<Rightarrow> Inl KeyError | Some n \<Rightarrow> Inr n)
      else Inl KeyError)"

text \<open>A count or a length below zero is an error of construct.\<close>

definition range_error :: exn where
  "range_error = LibraryError ''ConstructError: invalid count''"

definition less_by :: "nat \<Rightarrow> nat \<Rightarrow> exn + nat" where
  "less_by n k = (if k \<le> n then Inr (n - k) else Inl range_error)"

subsection \<open>Subtypes of frames\<close>

text \<open>
  The constructors carry a letter for their type, since the four share names. The value of a subtype is
  its position; its name, by which construct compares, is the one of the source.
\<close>

datatype ManagementSubtype =
    M_ASSOCIATION_REQUEST | M_ASSOCIATION_RESPONSE | M_REASSOCIATION_REQUEST |
    M_REASSOCIATION_RESPONSE | M_PROBE_REQUEST | M_PROBE_RESPONSE | M_TIMING_ADVERTISEMENT |
    M_RESERVED1 | M_BEACON | M_ATIM | M_DISASSOCIATION | M_AUTHENTICATION | M_DEAUTHENTICATION |
    M_ACTION | M_ACTION_NO_ACK | M_RESERVED2

definition ManagementSubtypes :: "ManagementSubtype list" where
  "ManagementSubtypes =
     [M_ASSOCIATION_REQUEST, M_ASSOCIATION_RESPONSE, M_REASSOCIATION_REQUEST,
     M_REASSOCIATION_RESPONSE, M_PROBE_REQUEST, M_PROBE_RESPONSE, M_TIMING_ADVERTISEMENT,
     M_RESERVED1, M_BEACON, M_ATIM, M_DISASSOCIATION, M_AUTHENTICATION, M_DEAUTHENTICATION,
     M_ACTION, M_ACTION_NO_ACK, M_RESERVED2]"

datatype ControlSubtype =
    C_RESERVED0 | C_RESERVED1 | C_TRIGGER | C_TACK | C_BEAMFORMING_REPORT_POLL |
    C_VHT_NDP_ANNOUNCEMENT | C_CONTROL_FRAME_EXTENSION | C_CONTROL_WRAPPER | C_BLOCK_ACK_REQUEST |
    C_BLOCK_ACK | C_PS_POLL | C_RTS | C_CTS | C_ACK | C_CF_END | C_CF_END_CF_ACK

definition ControlSubtypes :: "ControlSubtype list" where
  "ControlSubtypes =
     [C_RESERVED0, C_RESERVED1, C_TRIGGER, C_TACK, C_BEAMFORMING_REPORT_POLL,
     C_VHT_NDP_ANNOUNCEMENT, C_CONTROL_FRAME_EXTENSION, C_CONTROL_WRAPPER, C_BLOCK_ACK_REQUEST,
     C_BLOCK_ACK, C_PS_POLL, C_RTS, C_CTS, C_ACK, C_CF_END, C_CF_END_CF_ACK]"

datatype DataSubtype =
    D_DATA | D_DATA_CF_ACK | D_DATA_CF_POLL | D_DATA_CF_ACK_CF_POLL | D_NULL_FUNCTION | D_CF_ACK |
    D_CF_POLL | D_CF_ACK_CF_POLL | D_QOS_DATA | D_QOS_DATA_CF_ACK | D_QOS_DATA_CF_POLL |
    D_QOS_DATA_CF_ACK_CF_POLL | D_QOS_NULL | D_RESERVED_13 | D_QOS_CF_POLL_NO_DATA |
    D_QOS_CF_ACK_CF_POLL_NO_DATA

definition DataSubtypes :: "DataSubtype list" where
  "DataSubtypes =
     [D_DATA, D_DATA_CF_ACK, D_DATA_CF_POLL, D_DATA_CF_ACK_CF_POLL, D_NULL_FUNCTION, D_CF_ACK,
     D_CF_POLL, D_CF_ACK_CF_POLL, D_QOS_DATA, D_QOS_DATA_CF_ACK, D_QOS_DATA_CF_POLL,
     D_QOS_DATA_CF_ACK_CF_POLL, D_QOS_NULL, D_RESERVED_13, D_QOS_CF_POLL_NO_DATA,
     D_QOS_CF_ACK_CF_POLL_NO_DATA]"

datatype ExtensionSubtype =
    E_DMG_BEACON | E_S1G_BEACON | E_RESERVED_2 | E_RESERVED_3 | E_RESERVED_4 | E_RESERVED_5 |
    E_RESERVED_6 | E_RESERVED_7 | E_RESERVED_8 | E_RESERVED_9 | E_RESERVED_10 | E_RESERVED_11 |
    E_RESERVED_12 | E_RESERVED_13 | E_RESERVED_14 | E_RESERVED_15

definition ExtensionSubtypes :: "ExtensionSubtype list" where
  "ExtensionSubtypes =
     [E_DMG_BEACON, E_S1G_BEACON, E_RESERVED_2, E_RESERVED_3, E_RESERVED_4, E_RESERVED_5,
     E_RESERVED_6, E_RESERVED_7, E_RESERVED_8, E_RESERVED_9, E_RESERVED_10, E_RESERVED_11,
     E_RESERVED_12, E_RESERVED_13, E_RESERVED_14, E_RESERVED_15]"

fun DataSubtype_name :: "DataSubtype \<Rightarrow> string" where
  "DataSubtype_name D_DATA = ''DATA''"
| "DataSubtype_name D_DATA_CF_ACK = ''DATA_CF_ACK''"
| "DataSubtype_name D_DATA_CF_POLL = ''DATA_CF_POLL''"
| "DataSubtype_name D_DATA_CF_ACK_CF_POLL = ''DATA_CF_ACK_CF_POLL''"
| "DataSubtype_name D_NULL_FUNCTION = ''NULL_FUNCTION''"
| "DataSubtype_name D_CF_ACK = ''CF_ACK''"
| "DataSubtype_name D_CF_POLL = ''CF_POLL''"
| "DataSubtype_name D_CF_ACK_CF_POLL = ''CF_ACK_CF_POLL''"
| "DataSubtype_name D_QOS_DATA = ''QOS_DATA''"
| "DataSubtype_name D_QOS_DATA_CF_ACK = ''QOS_DATA_CF_ACK''"
| "DataSubtype_name D_QOS_DATA_CF_POLL = ''QOS_DATA_CF_POLL''"
| "DataSubtype_name D_QOS_DATA_CF_ACK_CF_POLL = ''QOS_DATA_CF_ACK_CF_POLL''"
| "DataSubtype_name D_QOS_NULL = ''QOS_NULL''"
| "DataSubtype_name D_RESERVED_13 = ''RESERVED_13''"
| "DataSubtype_name D_QOS_CF_POLL_NO_DATA = ''QOS_CF_POLL_NO_DATA''"
| "DataSubtype_name D_QOS_CF_ACK_CF_POLL_NO_DATA = ''QOS_CF_ACK_CF_POLL_NO_DATA''"

text \<open>The value of a member of an enumeration whose members are listed by value.\<close>

fun position :: "'a list \<Rightarrow> 'a \<Rightarrow> nat" where
  "position [] x = 0"
| "position (y # ys) x = (if x = y then 0 else Suc (position ys x))"

definition data_value :: "DataSubtype \<Rightarrow> nat" where
  "data_value s = position DataSubtypes s"

text \<open>
  construct compares the members of an enumeration by their names, and Python compares names by the
  code point of the first character that differs: that is the order of the type.
\<close>

lemma DataSubtype_name_inject: "DataSubtype_name a = DataSubtype_name b \<longleftrightarrow> a = b"
  by (cases a; cases b) simp_all

instantiation DataSubtype :: linorder
begin

definition less_eq_DataSubtype :: "DataSubtype \<Rightarrow> DataSubtype \<Rightarrow> bool" where
  "less_eq_DataSubtype a b \<longleftrightarrow> DataSubtype_name a \<le> DataSubtype_name b"

definition less_DataSubtype :: "DataSubtype \<Rightarrow> DataSubtype \<Rightarrow> bool" where
  "less_DataSubtype a b \<longleftrightarrow> DataSubtype_name a < DataSubtype_name b"

instance
  by standard
    (auto simp: less_eq_DataSubtype_def less_DataSubtype_def DataSubtype_name_inject [symmetric])

end

subsection \<open>Headers\<close>

text \<open>Bits:\<close>

definition FrameControl :: layout where
  "FrameControl = [(''protocol_version'', 2), (''type'', 2), (''subtype'', 4)] @
     flag_bits [''to_ds'', ''from_ds'', ''more_fragments'', ''retry'', ''power_management'', ''more_data'',
       ''protected_frame'', ''order_or_pHTC'']"

definition CapabilityInfo :: layout where
  "CapabilityInfo = flag_bits [''ess'', ''ibss'', ''cf_pollable'', ''cf_poll_request'', ''privacy'',
     ''short_preamble'', ''pbcc'', ''channel_agility'', ''spectrum_management'', ''qos'', ''short_slot_time'',
     ''apsd'', ''radio_measurement'', ''dsss_ofdm'', ''delayed_block_ack'', ''immediate_block_ack'']"

definition sequence_control :: layout where
  "sequence_control = [(''fragment_number'', 4), (''sequence_number'', 12)]"

definition QoSControl :: layout where
  "QoSControl = [(''tid'', 4), (''eos'', 1), (''ack_policy'', 2), (''amsdu_present'', 1), (''txop_dur_req'', 8)]"

definition rsn_capabilities :: layout where
  "rsn_capabilities = flag_bits [''PreAuthentication'', ''NoPairwise''] @
     [(''PTKSAReplayCounter'', 2), (''GTKSAReplayCounter'', 2)] @
     flag_bits [''ManagementFrameProtectionRequired'', ''ManagementFrameProtectionCapable'',
       ''JointMultiBandRSNA'', ''PeerKeyEnabled'', ''SPPAMSDUCapable'', ''SPPAMSDURequired'', ''PBAC'',
       ''ExtendedKeyIDForUnicast'', ''OCVC'', ''Resurved'']"

definition ht_capabilities_info :: layout where
  "ht_capabilities_info = flag_bits [''ldpc_coding_capability'', ''supported_channel_width_set''] @
     [(''sm_power_save'', 2)] @
     flag_bits [''ht_greenfield'', ''short_gi_for_20mhz'', ''short_gi_for_40mhz'', ''tx_stbc''] @
     [(''rx_stbc'', 2)] @
     flag_bits [''ht_delayed_block_ack'', ''max_amsdu_length'', ''dsss_cck_mode_40mhz'', ''psmp_support'',
       ''forty_mhz_intolerant'', ''lsig_txop_protection'']"

text \<open>Bytes: a field of bits takes an eighth of its bits.\<close>

definition bit_struct :: "layout \<Rightarrow> nat" where
  "bit_struct l = layout_size l div 8"

definition wifi_frame_header :: "FrameType \<Rightarrow> layout" where
  "wifi_frame_header type =
     [(''frame_control'', bit_struct FrameControl), (''duration_id'', 2), (''address1'', 6)] @
     (if type \<noteq> CONTROL then [(''address2'', 6), (''address3'', 6),
        (''sequence_control'', bit_struct sequence_control)] else [])"

text \<open>
  The header of a data frame. The subtype is compared by name; and Python's \<open>and\<close> of two expressions
  over \<open>this\<close> is its second operand, since the first is an object, which counts as true.
\<close>

definition DataFrameHeader :: "bool \<Rightarrow> bool \<Rightarrow> DataSubtype \<Rightarrow> bool \<Rightarrow> layout" where
  "DataFrameHeader to_ds from_ds subtype order_or_pHTC =
     (if to_ds \<and> from_ds then [(''address4'', 6)] else []) @
     (if subtype \<ge> D_QOS_DATA
      then [(''qos_control'', bit_struct QoSControl)] else []) @
     (if order_or_pHTC then [(''ht_control'', 4)] else [])"

text \<open>What follows the header of a data frame.\<close>

datatype data_body = WithBody | WithoutBody | GreedyBytes

fun data_subtype_parsers :: "DataSubtype \<Rightarrow> data_body" where
  "data_subtype_parsers D_DATA = WithBody"
| "data_subtype_parsers D_DATA_CF_ACK = WithBody"
| "data_subtype_parsers D_DATA_CF_POLL = WithBody"
| "data_subtype_parsers D_DATA_CF_ACK_CF_POLL = WithBody"
| "data_subtype_parsers D_NULL_FUNCTION = WithoutBody"
| "data_subtype_parsers D_CF_ACK = WithoutBody"
| "data_subtype_parsers D_CF_POLL = WithoutBody"
| "data_subtype_parsers D_CF_ACK_CF_POLL = WithoutBody"
| "data_subtype_parsers D_QOS_DATA = WithBody"
| "data_subtype_parsers D_QOS_DATA_CF_ACK = WithBody"
| "data_subtype_parsers D_QOS_DATA_CF_POLL = WithBody"
| "data_subtype_parsers D_QOS_DATA_CF_ACK_CF_POLL = WithBody"
| "data_subtype_parsers D_QOS_NULL = WithoutBody"
| "data_subtype_parsers D_RESERVED_13 = GreedyBytes"
| "data_subtype_parsers D_QOS_CF_POLL_NO_DATA = WithoutBody"
| "data_subtype_parsers D_QOS_CF_ACK_CF_POLL_NO_DATA = WithoutBody"

text \<open>The fields of a management frame: those of fixed size, then what the rest is read as.\<close>

datatype frame_tail = NoTail | Elements | ElementsMME | VendorElementsMME | ChallengeText | ActionDetails

fun management_subtype_parsers :: "ManagementSubtype \<Rightarrow> (layout \<times> frame_tail) option" where
  "management_subtype_parsers M_ASSOCIATION_REQUEST =
     Some ([(''capability_info'', bit_struct CapabilityInfo), (''listen_interval'', 2)], Elements)"
| "management_subtype_parsers M_ASSOCIATION_RESPONSE =
     Some ([(''capability_info'', bit_struct CapabilityInfo), (''status_code'', 2), (''association_id'', 2)],
       Elements)"
| "management_subtype_parsers M_REASSOCIATION_REQUEST =
     Some ([(''capability_info'', bit_struct CapabilityInfo), (''listen_interval'', 2),
       (''current_ap_address'', 6)], Elements)"
| "management_subtype_parsers M_REASSOCIATION_RESPONSE =
     Some ([(''capability_info'', bit_struct CapabilityInfo), (''status_code'', 2), (''association_id'', 2)],
       Elements)"
| "management_subtype_parsers M_PROBE_REQUEST = Some ([], Elements)"
| "management_subtype_parsers M_PROBE_RESPONSE =
     Some ([(''timestamp'', 8), (''beacon_interval'', 2), (''capability_info'', bit_struct CapabilityInfo)],
       Elements)"
| "management_subtype_parsers M_BEACON =
     Some ([(''timestamp'', 8), (''beacon_interval'', 2), (''capability_info'', bit_struct CapabilityInfo)],
       ElementsMME)"
| "management_subtype_parsers M_DISASSOCIATION = Some ([(''reason_code'', 2)], VendorElementsMME)"
| "management_subtype_parsers M_AUTHENTICATION =
     Some ([(''auth_algorithm_number'', 2), (''auth_transaction_sequence_number'', 2), (''status_code'', 2)],
       ChallengeText)"
| "management_subtype_parsers M_DEAUTHENTICATION = Some ([(''reason_code'', 2)], VendorElementsMME)"
| "management_subtype_parsers M_ACTION = Some ([(''category'', 1)], ActionDetails)"
| "management_subtype_parsers M_ACTION_NO_ACK = Some ([(''category'', 1)], ActionDetails)"
| "management_subtype_parsers M_TIMING_ADVERTISEMENT = None"
| "management_subtype_parsers M_RESERVED1 = None"
| "management_subtype_parsers M_ATIM = None"
| "management_subtype_parsers M_RESERVED2 = None"

subsection \<open>Elements\<close>

text \<open>
  The layout of each element's content. \<open>outer\<close> is the chain around it: the element, with its \<open>id\<close>
  and \<open>len\<close>, and the frame. Its own fields come first in the chain when an expression is evaluated.
\<close>

definition ssid_element :: "scope list \<Rightarrow> exn + layout" where
  "ssid_element outer =
     (case this 1 ''len'' ([] # outer) of Inl e \<Rightarrow> Inl e | Inr n \<Rightarrow> Inr [(''ssid'', n)])"

definition supported_rates_element :: "scope list \<Rightarrow> exn + layout" where
  "supported_rates_element outer =
     (case this 1 ''len'' ([] # outer) of Inl e \<Rightarrow> Inl e | Inr n \<Rightarrow> Inr [(''rates'', n)])"

definition fh_parameter_set_element :: "scope list \<Rightarrow> exn + layout" where
  "fh_parameter_set_element outer =
     Inr [(''dwell_time'', 2), (''hop_set'', 1), (''hop_pattern'', 1), (''hop_index'', 1)]"

definition ds_parameter_set_element :: "scope list \<Rightarrow> exn + layout" where
  "ds_parameter_set_element outer = Inr [(''current_channel'', 1)]"

definition cf_parameter_set_element :: "scope list \<Rightarrow> exn + layout" where
  "cf_parameter_set_element outer =
     Inr [(''cfp_count'', 1), (''cfp_period'', 1), (''cfp_max_duration'', 2), (''cfp_dur_remaining'', 2)]"

definition ibss_parameter_set_element :: "scope list \<Rightarrow> exn + layout" where
  "ibss_parameter_set_element outer = Inr [(''atim_window'', 2)]"

text \<open>One entry of the list of a country's channels.\<close>

definition country_triplet :: layout where
  "country_triplet =
     [(''first_channel_number'', 1), (''number_of_channels'', 1), (''max_transmit_power_level'', 1)]"

definition country_element :: "scope list \<Rightarrow> exn + layout" where
  "country_element outer =
     (case this 1 ''len'' ([(''country_string'', 3)] # outer) of
        Inl e \<Rightarrow> Inl e
      | Inr n \<Rightarrow>
          (case less_by n 3 of
             Inl e \<Rightarrow> Inl e
           | Inr m \<Rightarrow> Inr [(''country_string'', 3), (''country_info'', m div 3 * layout_size country_triplet)]))"

definition request_element :: "scope list \<Rightarrow> exn + layout" where
  "request_element outer =
     (case this 0 ''len'' ([] # outer) of Inl e \<Rightarrow> Inl e | Inr n \<Rightarrow> Inr [(''requested_info_elems'', n)])"

definition bss_load_element :: "scope list \<Rightarrow> exn + layout" where
  "bss_load_element outer =
     Inr [(''station_count'', 2), (''channel_utilization'', 1), (''available_admission_capacity'', 2)]"

text \<open>The counts of the lists of an RSN element, as the bytes give them where they are there.\<close>

record rsn_counts =
  pairwise_count :: nat
  akm_count :: nat
  pmkid_count :: nat

definition rsn_element :: "rsn_counts \<Rightarrow> scope list \<Rightarrow> exn + layout" where
  "rsn_element cs outer =
     (case this 1 ''len'' ([] # outer) of
        Inl e \<Rightarrow> Inl e
      | Inr len \<Rightarrow>
          let PairwiseCipherSuiteCount = (if len \<ge> 8 then pairwise_count cs else 0);
              p = PairwiseCipherSuiteCount * 4;
              AKMSuiteCount = (if len \<ge> 10 + p then akm_count cs else 0);
              a = AKMSuiteCount * 4;
              PMKIDCount = (if len \<ge> 14 + p + a then pmkid_count cs else 0);
              k = PMKIDCount * 16
          in Inr [(''Version'', 2), (''GroupCipherSuite'', 4),
               (''PairwiseCipherSuiteCount'', if len \<ge> 8 then 2 else 0), (''PairwiseCipherSuites'', p),
               (''AKMSuiteCount'', if len \<ge> 10 + p then 2 else 0), (''AKMSuites'', a),
               (''RSNCapabilities'', if len \<ge> 12 + p + a then bit_struct rsn_capabilities else 0),
               (''PMKIDCount'', if len \<ge> 14 + p + a then 2 else 0), (''PMKIDs'', k),
               (''GroupManagmentCipherSuite'', if len \<ge> 18 + p + a + k then 4 else 0)])"

definition rsni_element :: "scope list \<Rightarrow> exn + layout" where
  "rsni_element outer = Inr [(''rsni'', 1)]"

text \<open>The last field's count is looked up from inside the structure of bits.\<close>

definition rsn_extension_element :: "scope list \<Rightarrow> exn + layout" where
  "rsn_extension_element outer =
     (let bits = [(''len'', 4), (''protected_twt_operation_support'', 1), (''sae_hash_to_element'', 1),
        (''resurved_6'', 1), (''resurved_7'', 1)]
      in case this 1 ''len'' (bits # [] # outer) of
           Inl e \<Rightarrow> Inl e
         | Inr n \<Rightarrow>
             (case less_by n 1 of
                Inl e \<Rightarrow> Inl e
              | Inr m \<Rightarrow> Inr [(''rsn_extended_capabilities'', bit_struct (bits @ [(''resurved_8'', 8 * m)]))]))"

definition vendor_specific_element :: "VendorOui \<Rightarrow> scope list \<Rightarrow> exn + layout" where
  "vendor_specific_element oui outer =
     (if oui = MICROSOFT_CORP
      then (case this 2 ''len'' ([(''type'', 1)] # [(''oui'', 3)] # outer) of
              Inl e \<Rightarrow> Inl e
            | Inr n \<Rightarrow>
                (case less_by n 4 of
                   Inl e \<Rightarrow> Inl e
                 | Inr m \<Rightarrow> Inr [(''oui'', 3), (''type'', 1), (''other_fields'', m)]))
      else (case this 1 ''len'' ([(''oui'', 3)] # outer) of
              Inl e \<Rightarrow> Inl e
            | Inr n \<Rightarrow>
                (case less_by n 3 of
                   Inl e \<Rightarrow> Inl e
                 | Inr m \<Rightarrow> Inr [(''oui'', 3), (''vendor_specific_content'', m)])))"

definition ie_elements ::
  "VendorOui \<Rightarrow> rsn_counts \<Rightarrow> (IEType \<times> (scope list \<Rightarrow> exn + layout)) list" where
  "ie_elements oui cs =
     [(SSID, ssid_element), (SUPPORTED_RATES, supported_rates_element),
      (FH_PARAMETER_SET, fh_parameter_set_element), (DS_PARAMETER_SET, ds_parameter_set_element),
      (CF_PARAMETER_SET, cf_parameter_set_element), (IBSS_PARAMETER_SET, ibss_parameter_set_element),
      (COUNTRY, country_element), (IE_REQUEST, request_element), (BSS_LOAD, bss_load_element),
      (RSN, rsn_element cs), (RSNI, rsni_element), (EXTENDED_SUPPORTED_RATES, supported_rates_element),
      (RSN_EXTENSION, rsn_extension_element), (VENDOR_SPECIFIC, vendor_specific_element oui)]"

text \<open>An element as a whole, of type \<open>ty\<close> and with the length \<open>len\<close> its second byte says.\<close>

definition InformationElement ::
  "VendorOui \<Rightarrow> rsn_counts \<Rightarrow> IEType \<Rightarrow> nat \<Rightarrow> exn + layout" where
  "InformationElement oui cs ty len =
     (let chain = [[(''id'', 1), (''len'', len)]];
          head = [(''id'', 1), (''len'', 1)] @ (if ty = EXTENDED_ID then [(''id_extension'', 1)] else [])
      in if len = 0 then Inr head
         else case (if ty = EXTENDED_ID
                    then (case less_by len 1 of Inl e \<Rightarrow> Inl e | Inr m \<Rightarrow> Inr [(''info'', m)])
                    else case map_of (ie_elements oui cs) ty of
                      Some content \<Rightarrow> content chain
                    | None \<Rightarrow>
                        (case this 0 ''len'' chain of Inl e \<Rightarrow> Inl e | Inr n \<Rightarrow> Inr [(''info'', n)])) of
                Inl e \<Rightarrow> Inl e
              | Inr info \<Rightarrow> Inr (head @ info))"

subsection \<open>Lemmas\<close>

lemma layout_size_simps [simp]:
  "layout_size [] = 0"
  "layout_size (f # l) = snd f + layout_size l"
  "layout_size (l @ m) = layout_size l + layout_size m"
  "layout_size (flag_bits ns) = length ns"
  by (simp_all add: layout_size_def flag_bits_def comp_def sum_list_triv)

lemmas element_layouts = ssid_element_def supported_rates_element_def fh_parameter_set_element_def
  ds_parameter_set_element_def cf_parameter_set_element_def ibss_parameter_set_element_def
  country_element_def request_element_def bss_load_element_def rsni_element_def
  rsn_extension_element_def vendor_specific_element_def country_triplet_def

lemma this_len [simp]:
  "this 0 f (s # chain) = (case map_of s f of None \<Rightarrow> Inl KeyError | Some n \<Rightarrow> Inr n)"
  "this (Suc up) f (s # chain) = this up f chain"
  by (simp_all add: this_def)

lemma this_numeral [simp]: "this 2 f (s # chain) = this 1 f chain"
  by (simp add: this_def numeral_2_eq_2)

lemma element_size:
  assumes "0 < len" and "ty \<noteq> EXTENDED_ID" and "map_of (ie_elements oui cs) ty = Some content"
    and "content [[(''id'', 1), (''len'', len)]] = Inr l"
  shows "\<exists>whole. InformationElement oui cs ty len = Inr whole \<and> layout_size whole = 2 + layout_size l"
  using assms by (simp add: InformationElement_def)

lemma plain_element:
  assumes "0 < len" and "map_of (ie_elements oui cs) ty = None"
  shows "\<exists>whole. InformationElement oui cs ty len = Inr whole \<and> layout_size whole = 2 + len"
  using assms by (simp add: InformationElement_def less_by_def)

lemma rsn_fits:
  assumes "6 \<le> len"
    and "len \<ge> 8 \<longrightarrow> 8 + p \<le> len" and "len \<ge> 10 + p \<longrightarrow> 10 + p + a \<le> len"
    and "len \<ge> 14 + p + a \<longrightarrow> 14 + p + a + k \<le> len"
    and "len < 8 \<longrightarrow> p = 0" and "len < 10 + p \<longrightarrow> a = 0" and "len < 14 + p + a \<longrightarrow> k = 0"
  shows "6 + (if len \<ge> 8 then 2 else 0) + p + (if len \<ge> 10 + p then 2 else 0) + a +
      (if len \<ge> 12 + p + a then 2 else 0) + (if len \<ge> 14 + p + a then 2 else 0) + k +
      (if len \<ge> 18 + p + a + k then 4 else 0) \<le> (len :: nat)"
  using assms by (auto split: if_splits)

text \<open>The counts of an RSN element fit its length, where they are read.\<close>

definition rsn_counts_fit :: "rsn_counts \<Rightarrow> nat \<Rightarrow> bool" where
  "rsn_counts_fit cs len \<longleftrightarrow>
     (let p = (if len \<ge> 8 then pairwise_count cs * 4 else 0);
          a = (if len \<ge> 10 + p then akm_count cs * 4 else 0);
          k = (if len \<ge> 14 + p + a then pmkid_count cs * 16 else 0)
      in 6 \<le> len \<and> (8 \<le> len \<longrightarrow> 8 + p \<le> len) \<and> (10 + p \<le> len \<longrightarrow> 10 + p + a \<le> len) \<and>
         (14 + p + a \<le> len \<longrightarrow> 14 + p + a + k \<le> len))"

lemma rsn_element_size:
  assumes "rsn_counts_fit cs len"
  shows "\<exists>l. rsn_element cs [[(''id'', 1), (''len'', len)]] = Inr l \<and> layout_size l \<le> len"
proof -
  define p a k where "p = (if len \<ge> 8 then pairwise_count cs * 4 else 0)"
    and "a = (if len \<ge> 10 + p then akm_count cs * 4 else 0)"
    and "k = (if len \<ge> 14 + p + a then pmkid_count cs * 16 else 0)"
  have bits: "bit_struct rsn_capabilities = 2"
    by (simp add: bit_struct_def rsn_capabilities_def)
  have "(if 8 \<le> len then pairwise_count cs else 0) * 4 = p"
    "(if 10 + p \<le> len then akm_count cs else 0) * 4 = a"
    "(if 14 + p + a \<le> len then pmkid_count cs else 0) * 16 = k"
    by (simp_all add: p_def a_def k_def)
  then obtain l where l: "rsn_element cs [[(''id'', 1), (''len'', len)]] = Inr l"
    "layout_size l = 6 + (if len \<ge> 8 then 2 else 0) + p + (if len \<ge> 10 + p then 2 else 0) + a +
      (if len \<ge> 12 + p + a then 2 else 0) + (if len \<ge> 14 + p + a then 2 else 0) + k +
      (if len \<ge> 18 + p + a + k then 4 else 0)"
    by (simp add: rsn_element_def Let_def bits)
  have "6 \<le> len \<and> (8 \<le> len \<longrightarrow> 8 + p \<le> len) \<and> (10 + p \<le> len \<longrightarrow> 10 + p + a \<le> len) \<and>
      (14 + p + a \<le> len \<longrightarrow> 14 + p + a + k \<le> len)"
    using assms unfolding rsn_counts_fit_def Let_def p_def a_def k_def by blast
  moreover have "len < 8 \<longrightarrow> p = 0" "len < 10 + p \<longrightarrow> a = 0" "len < 14 + p + a \<longrightarrow> k = 0"
    unfolding p_def a_def k_def by simp_all
  ultimately have "layout_size l \<le> len"
    unfolding l(2) by (intro rsn_fits) blast+
  with l(1) show ?thesis
    by blast
qed

subsection \<open>Elements and their lengths\<close>

text \<open>
  C31. Whether the parser of an element stays inside the element, for every element that says it has
  content. Names, rates, extended and unknown elements take exactly the bytes they claim, and so do
  vendors' where they are long enough; a country's leaves the one or two bytes of its padding to be
  read as the next element; the parameter sets take their fixed size whatever they claim; an RSN
  element takes no more than it claims if its counts fit; and a request and an RSN extension are never
  read, because their counts are looked up where no length is.
\<close>

theorem element_takes_its_length:
  assumes "0 < len"
  shows "(ty \<in> {SSID, SUPPORTED_RATES, EXTENDED_SUPPORTED_RATES, EXTENDED_ID} \<or>
        map_of (ie_elements oui cs) ty = None \<or> ty = VENDOR_SPECIFIC \<and> 4 \<le> len \<longrightarrow>
      (\<exists>l. InformationElement oui cs ty len = Inr l \<and> layout_size l = 2 + len)) \<and>
    (3 \<le> len \<longrightarrow> (\<exists>l. InformationElement oui cs COUNTRY len = Inr l \<and>
      layout_size l = 2 + (len - len mod 3))) \<and>
    (\<forall>(set_type, n) \<in> {(FH_PARAMETER_SET, 5), (DS_PARAMETER_SET, 1), (CF_PARAMETER_SET, 6),
        (IBSS_PARAMETER_SET, 2), (BSS_LOAD, 5), (RSNI, 1)}.
      \<exists>l. InformationElement oui cs set_type len = Inr l \<and> layout_size l = 2 + n) \<and>
    (rsn_counts_fit cs len \<longrightarrow>
      (\<exists>l. InformationElement oui cs RSN len = Inr l \<and> layout_size l \<le> 2 + len)) \<and>
    InformationElement oui cs IE_REQUEST len = Inl KeyError \<and>
    InformationElement oui cs RSN_EXTENSION len = Inl KeyError"
proof (intro conjI impI)
  assume "ty \<in> {SSID, SUPPORTED_RATES, EXTENDED_SUPPORTED_RATES, EXTENDED_ID} \<or>
    map_of (ie_elements oui cs) ty = None \<or> ty = VENDOR_SPECIFIC \<and> 4 \<le> len"
  then show "\<exists>l. InformationElement oui cs ty len = Inr l \<and> layout_size l = 2 + len"
    using assms plain_element [OF assms, of oui cs ty]
    by (auto simp: InformationElement_def ie_elements_def element_layouts less_by_def Let_def)
next
  assume "3 \<le> len"
  then show "\<exists>l. InformationElement oui cs COUNTRY len = Inr l \<and> layout_size l = 2 + (len - len mod 3)"
  proof -
    have "3 + (len - 3) div 3 * 3 = len - len mod 3"
      using \<open>3 \<le> len\<close> by presburger
    then show ?thesis
      using assms \<open>3 \<le> len\<close>
      by (simp add: InformationElement_def ie_elements_def element_layouts less_by_def)
  qed
next
  assume "rsn_counts_fit cs len"
  then obtain l where "rsn_element cs [[(''id'', 1), (''len'', len)]] = Inr l" "layout_size l \<le> len"
    using rsn_element_size by blast
  then show "\<exists>l. InformationElement oui cs RSN len = Inr l \<and> layout_size l \<le> 2 + len"
    using element_size [OF assms, of RSN oui cs "rsn_element cs" l] by (auto simp: ie_elements_def)
qed (use assms in \<open>auto simp: InformationElement_def ie_elements_def element_layouts\<close>)

theorem element_takes_its_length_witness:
  "\<exists>l. InformationElement IEEE \<lparr>pairwise_count = 0, akm_count = 0, pmkid_count = 0\<rparr> COUNTRY 10 = Inr l \<and>
     layout_size l = 11"
  using element_takes_its_length [of 10 COUNTRY IEEE "\<lparr>pairwise_count = 0, akm_count = 0, pmkid_count = 0\<rparr>"]
  by simp

subsection \<open>Frame headers\<close>

text \<open>The header of a data frame in the standard: quality of service is the fourth bit of the subtype.\<close>

definition standard_data_header :: "bool \<Rightarrow> bool \<Rightarrow> DataSubtype \<Rightarrow> bool \<Rightarrow> nat" where
  "standard_data_header to_ds from_ds s order =
     6 * of_bool (to_ds \<and> from_ds) + 2 * of_bool (8 \<le> data_value s) +
     4 * of_bool (8 \<le> data_value s \<and> order)"

lemma qos_by_name: "D_QOS_DATA \<le> s \<longleftrightarrow> 8 \<le> data_value s \<and> data_value s < 14"
  by (cases s) (simp_all add: less_eq_DataSubtype_def data_value_def DataSubtypes_def less_char_def)

text \<open>
  C32. How the header of a data frame compares with the standard's: it is as long exactly when the frame is
  not one of the two polls without data, whose names sort before that of a quality-of-service frame,
  and when a set order bit means a control field, that is in quality-of-service frames. A body is
  expected exactly when the standard's no-data bit is clear; every structure of bits fills whole
  bytes; and the header common to all frames has 24 bytes, or 10 in a control frame.
\<close>

theorem data_header_layout:
  "(layout_size (DataFrameHeader to_ds from_ds s order) = standard_data_header to_ds from_ds s order \<longleftrightarrow>
      s \<notin> {D_QOS_CF_POLL_NO_DATA, D_QOS_CF_ACK_CF_POLL_NO_DATA} \<and> (order \<longrightarrow> 8 \<le> data_value s)) \<and>
   (s \<noteq> D_RESERVED_13 \<longrightarrow> (data_subtype_parsers s = WithBody \<longleftrightarrow> data_value s mod 8 < 4)) \<and>
   (\<forall>l\<in>{FrameControl, CapabilityInfo, sequence_control, QoSControl, rsn_capabilities,
      ht_capabilities_info}. layout_size l = 16) \<and>
   layout_size (wifi_frame_header type) = (if type = CONTROL then 10 else 24)"
proof -
  have bits: "bit_struct QoSControl = 2" "bit_struct FrameControl = 2" "bit_struct sequence_control = 2"
    by (simp_all add: bit_struct_def QoSControl_def FrameControl_def sequence_control_def)
  have "layout_size (DataFrameHeader to_ds from_ds s order) = 6 * of_bool (to_ds \<and> from_ds) +
      2 * of_bool (8 \<le> data_value s \<and> data_value s < 14) + 4 * of_bool order"
    by (simp add: DataFrameHeader_def qos_by_name bits)
  moreover have "s \<in> {D_QOS_CF_POLL_NO_DATA, D_QOS_CF_ACK_CF_POLL_NO_DATA} \<longleftrightarrow> 14 \<le> data_value s"
    by (cases s) (simp_all add: data_value_def DataSubtypes_def)
  ultimately have "layout_size (DataFrameHeader to_ds from_ds s order) = standard_data_header to_ds from_ds s order
      \<longleftrightarrow> s \<notin> {D_QOS_CF_POLL_NO_DATA, D_QOS_CF_ACK_CF_POLL_NO_DATA} \<and> (order \<longrightarrow> 8 \<le> data_value s)"
    by (auto simp: standard_data_header_def of_bool_def)
  moreover have "s \<noteq> D_RESERVED_13 \<longrightarrow> (data_subtype_parsers s = WithBody \<longleftrightarrow> data_value s mod 8 < 4)"
    by (cases s) (simp_all add: data_value_def DataSubtypes_def)
  moreover have "\<forall>l\<in>{FrameControl, CapabilityInfo, sequence_control, QoSControl, rsn_capabilities,
      ht_capabilities_info}. layout_size l = 16"
    by (simp add: FrameControl_def CapabilityInfo_def sequence_control_def QoSControl_def
        rsn_capabilities_def ht_capabilities_info_def)
  ultimately show ?thesis
    by (simp add: wifi_frame_header_def bits)
qed

theorem data_header_layout_witness:
  "layout_size (DataFrameHeader True True D_QOS_DATA False) = 8 \<and>
   layout_size (DataFrameHeader True False D_QOS_CF_POLL_NO_DATA False) \<noteq> 2 \<and>
   data_subtype_parsers D_NULL_FUNCTION \<noteq> WithBody"
  using data_header_layout [of True True D_QOS_DATA False CONTROL]
    data_header_layout [of True False D_QOS_CF_POLL_NO_DATA False CONTROL]
    data_header_layout [of True True D_NULL_FUNCTION False CONTROL]
  by (simp add: standard_data_header_def data_value_def DataSubtypes_def)

end
