(* ===== verification/Wlan_Frames.thy ===== *)
theory Wlan_Frames
  imports Wlan_Layouts
begin

section \<open>Which body a frame has\<close>

text \<open>
  Models the dispatch of \<open>communication/wlan/mac_parsing.py\<close>: how the type and the subtype in the frame
  control field select the layout of a frame's body, and the structures that are declared but that no
  parser uses.
\<close>

subsection \<open>The subtype\<close>

datatype subtype =
    Management ManagementSubtype | Control ControlSubtype | DataSub DataSubtype | Extension ExtensionSubtype

text \<open>Four bits, read by the enumeration of the type.\<close>

definition subtype_of :: "FrameType \<Rightarrow> nat \<Rightarrow> subtype" where
  "subtype_of type v =
     (case type of
        MANAGEMENT \<Rightarrow> Management (ManagementSubtypes ! v)
      | CONTROL \<Rightarrow> Control (ControlSubtypes ! v)
      | DATA \<Rightarrow> DataSub (DataSubtypes ! v)
      | EXTENSION \<Rightarrow> Extension (ExtensionSubtypes ! v))"

fun subtype_value :: "subtype \<Rightarrow> nat" where
  "subtype_value (Management s) = position ManagementSubtypes s"
| "subtype_value (Control s) = position ControlSubtypes s"
| "subtype_value (DataSub s) = position DataSubtypes s"
| "subtype_value (Extension s) = position ExtensionSubtypes s"

subsection \<open>The body\<close>

text \<open>
  \<open>Fields\<close>: fields of fixed size and what the rest is read as. \<open>DataPart\<close>: a data frame's header and
  whether data follow. \<open>Rest\<close>: the bytes as they are.
\<close>

datatype frame_content =
    Fields layout frame_tail
  | DataPart layout bool
  | ControlFrame
  | Rest

definition management_content :: "ManagementSubtype \<Rightarrow> frame_content" where
  "management_content s =
     (case management_subtype_parsers s of Some (l, tail) \<Rightarrow> Fields l tail | None \<Rightarrow> Rest)"

definition data_content :: "bool \<Rightarrow> bool \<Rightarrow> bool \<Rightarrow> DataSubtype \<Rightarrow> frame_content" where
  "data_content to_ds from_ds order_or_pHTC s =
     (case data_subtype_parsers s of
        WithBody \<Rightarrow> DataPart (DataFrameHeader to_ds from_ds s order_or_pHTC) True
      | WithoutBody \<Rightarrow> DataPart (DataFrameHeader to_ds from_ds s order_or_pHTC) False
      | GreedyBytes \<Rightarrow> Rest)"

text \<open>The table has no entry for the extension frames: the switch that uses it then takes the rest.\<close>

definition frame_type_parsers :: "bool \<Rightarrow> bool \<Rightarrow> bool \<Rightarrow> (FrameType \<times> (subtype \<Rightarrow> frame_content)) list" where
  "frame_type_parsers to_ds from_ds order_or_pHTC =
     [(MANAGEMENT, \<lambda>st. case st of Management s \<Rightarrow> management_content s | _ \<Rightarrow> Rest),
      (CONTROL, \<lambda>st. ControlFrame),
      (DATA, \<lambda>st. case st of DataSub s \<Rightarrow> data_content to_ds from_ds order_or_pHTC s | _ \<Rightarrow> Rest)]"

text \<open>A control frame has no body: the rest of it is the field \<open>control_data\<close> of the header.\<close>

definition frame_content_of :: "bool \<Rightarrow> bool \<Rightarrow> bool \<Rightarrow> FrameType \<Rightarrow> nat \<Rightarrow> frame_content option" where
  "frame_content_of to_ds from_ds order_or_pHTC type v =
     (if type = CONTROL then None
      else Some (case map_of (frame_type_parsers to_ds from_ds order_or_pHTC) type of
          Some parser \<Rightarrow> parser (subtype_of type v)
        | None \<Rightarrow> Rest))"

text \<open>Where what is not of fixed size begins.\<close>

definition content_offset :: "bool \<Rightarrow> bool \<Rightarrow> bool \<Rightarrow> FrameType \<Rightarrow> nat \<Rightarrow> nat" where
  "content_offset to_ds from_ds order_or_pHTC type v =
     layout_size (wifi_frame_header type) +
     (case frame_content_of to_ds from_ds order_or_pHTC type v of
        Some (Fields l tail) \<Rightarrow> layout_size l
      | Some (DataPart l data) \<Rightarrow> layout_size l
      | _ \<Rightarrow> 0)"

subsection \<open>Structures without use\<close>

definition SsidElement :: "nat \<Rightarrow> layout" where
  "SsidElement len = [(''id'', 1), (''len'', 1), (''ssid'', len)]"

definition ssid_list_element :: "nat list \<Rightarrow> layout" where
  "ssid_list_element lens = [(''ssid_list'', sum_list (map (\<lambda>n. layout_size (SsidElement n)) lens))]"

definition VendorSpecificElement :: "nat \<Rightarrow> layout" where
  "VendorSpecificElement len = [(''id'', 1), (''len'', 1), (''content'', len)]"

text \<open>A \<open>Struct\<close>, not a \<open>BitStruct\<close>: outside of one, \<open>BitsInteger(n)\<close> takes n bytes.\<close>

definition a_mpdu_parameters :: layout where
  "a_mpdu_parameters =
     [(''max_ampdu_length_exponent'', 2), (''min_mpdu_start_spacing'', 3), (''resurved'', 3)]"

definition ht_capabilities_element :: layout where
  "ht_capabilities_element =
     [(''ht_capabilities_info'', bit_struct ht_capabilities_info),
      (''a_mpdu_parameters'', layout_size a_mpdu_parameters), (''supported_mcs_set'', 16)]"

text \<open>
  \<open>communication/wlan/types.py\<close>: the cipher suites as an enumeration of its own, with the numbers of
  the first, and what is told of a probe.
\<close>

definition RSNCipherSuiteType :: "(Cipher \<times> 32 word) list" where
  "RSNCipherSuiteType = filter (\<lambda>(c, _). c \<in> {IEEE_WEP40, IEEE_TKIP, IEEE_CCMP, IEEE_WEP104,
     IEEE_BIP_CMAC_128, IEEE_GCMP_128, IEEE_GCMP_256, IEEE_CCMP_256, IEEE_BIP_GMAC_128, IEEE_BIP_GMAC_256,
     IEEE_BIP_CMAC_256}) RSNCipherSuites"

record probe_info =
  probe_ssid :: string
  probe_src_mac :: string

lemma all_ciphers_listed: "RSNCipherSuiteType = RSNCipherSuites"
  by (simp add: RSNCipherSuiteType_def RSNCipherSuites_def)

subsection \<open>The dispatch is the standard's\<close>

text \<open>
  The fixed fields of a management frame by the value of its subtype, and what follows them: true for
  information elements.
\<close>

definition standard_management :: "nat \<Rightarrow> (nat \<times> bool) option" where
  "standard_management v =
     map_of [(0, 4, True), (1, 6, True), (2, 10, True), (3, 6, True), (4, 0, True), (5, 12, True),
       (8, 12, True), (10, 2, False), (11, 6, False), (12, 2, False), (13, 1, False), (14, 1, False)] v"

definition has_elements :: "frame_tail \<Rightarrow> bool" where
  "has_elements tail \<longleftrightarrow> tail \<in> {Elements, ElementsMME}"

lemma nat_less_16: "(v :: nat) < 16 \<longleftrightarrow> v \<in> {0, 1, 2, 3, 4, 5, 6, 7, 8, 9, 10, 11, 12, 13, 14, 15}"
proof -
  have "v < 16 \<longleftrightarrow> v \<in> set [0..<16]"
    by simp
  moreover have "[0..<16] = [0, 1, 2, 3, 4, 5, 6, 7, 8, 9, 10, 11, 12, 13, 14, 15 :: nat]"
    by (simp add: upt_rec)
  ultimately show ?thesis
    by (simp only: list.set)
qed

lemma position_nth: "distinct xs \<Longrightarrow> i < length xs \<Longrightarrow> position xs (xs ! i) = i"
  by (induction xs arbitrary: i) (auto simp: less_Suc_eq_0_disj in_set_conv_nth)

lemma subtype_value_of:
  assumes "v < 16"
  shows "subtype_value (subtype_of type v) = v"
proof -
  have "distinct ManagementSubtypes" "distinct ControlSubtypes" "distinct DataSubtypes" "distinct ExtensionSubtypes"
    and "length ManagementSubtypes = 16" "length ControlSubtypes = 16" "length DataSubtypes = 16"
      "length ExtensionSubtypes = 16"
    by (simp_all add: ManagementSubtypes_def ControlSubtypes_def DataSubtypes_def ExtensionSubtypes_def)
  with assms show ?thesis
    by (cases type) (simp_all add: subtype_of_def position_nth)
qed

lemma management_fixed:
  assumes "v < 16"
  shows "case standard_management v of
      Some (n, elements) \<Rightarrow> \<exists>l tail. management_content (ManagementSubtypes ! v) = Fields l tail \<and>
        layout_size l = n \<and> has_elements tail = elements
    | None \<Rightarrow> management_content (ManagementSubtypes ! v) = Rest"
  using assms unfolding nat_less_16
  by (elim insertE) (simp_all add: standard_management_def management_content_def ManagementSubtypes_def
    has_elements_def bit_struct_def CapabilityInfo_def flag_bits_def)



end
