(* ===== verification/Wlan_Text.thy ===== *)
theory Wlan_Text
  imports Prelude
begin

section \<open>Texts of network names\<close>

text \<open>
  Models \<open>FallbackStringAdapter\<close> of \<open>communication/wlan/mac_parsing.py\<close>, by which the name of a network
  is read and written, with the three codecs of Python it tries. A \<open>str\<close> is the list of its code
  points. The adapter's sub-construct hands it exactly \<open>len\<close> bytes.
\<close>

type_synonym text_points = "nat list"

subsection \<open>UTF-8\<close>

text \<open>The strict decoder: no overlong forms, no surrogates, nothing above 0x10FFFF.\<close>

definition cont_byte :: "byte \<Rightarrow> bool" where
  "cont_byte b \<longleftrightarrow> 0x80 \<le> unat b \<and> unat b < 0xC0"

definition is_surrogate :: "nat \<Rightarrow> bool" where
  "is_surrogate c \<longleftrightarrow> 0xD800 \<le> c \<and> c < 0xE000"

definition point2 :: "byte \<Rightarrow> byte \<Rightarrow> nat" where
  "point2 a b = (unat a - 0xC0) * 64 + (unat b - 0x80)"

definition point3 :: "byte \<Rightarrow> byte \<Rightarrow> byte \<Rightarrow> nat" where
  "point3 a b c = ((unat a - 0xE0) * 64 + (unat b - 0x80)) * 64 + (unat c - 0x80)"

definition point4 :: "byte \<Rightarrow> byte \<Rightarrow> byte \<Rightarrow> byte \<Rightarrow> nat" where
  "point4 a b c d =
     (((unat a - 0xF0) * 64 + (unat b - 0x80)) * 64 + (unat c - 0x80)) * 64 + (unat d - 0x80)"

fun utf8_step :: "bytes \<Rightarrow> (nat \<times> bytes) option" where
  "utf8_step [] = None"
| "utf8_step (a # bs) =
     (if unat a < 0x80 then Some (unat a, bs)
      else if 0xC2 \<le> unat a \<and> unat a < 0xE0 then
        (case bs of
           b # r \<Rightarrow> if cont_byte b then Some (point2 a b, r) else None
         | _ \<Rightarrow> None)
      else if 0xE0 \<le> unat a \<and> unat a < 0xF0 then
        (case bs of
           b # c # r \<Rightarrow>
             if cont_byte b \<and> cont_byte c \<and> 0x800 \<le> point3 a b c \<and> \<not> is_surrogate (point3 a b c)
             then Some (point3 a b c, r) else None
         | _ \<Rightarrow> None)
      else if 0xF0 \<le> unat a \<and> unat a < 0xF5 then
        (case bs of
           b # c # d # r \<Rightarrow>
             if cont_byte b \<and> cont_byte c \<and> cont_byte d \<and> 0x10000 \<le> point4 a b c d \<and>
               point4 a b c d \<le> 0x10FFFF
             then Some (point4 a b c d, r) else None
         | _ \<Rightarrow> None)
      else None)"

lemma utf8_step_shorter: "utf8_step bs = Some (c, r) \<Longrightarrow> length r < length bs"
  by (cases bs) (auto split: if_splits list.splits)

function utf8_decode :: "bytes \<Rightarrow> text_points option" where
  "utf8_decode bs =
     (if bs = [] then Some []
      else case utf8_step bs of
        None \<Rightarrow> None
      | Some (c, r) \<Rightarrow> map_option ((#) c) (utf8_decode r))"
  by pat_completeness auto
termination
  by (relation "measure length") (auto dest: utf8_step_shorter)

declare utf8_decode.simps [simp del]

definition utf8_point :: "nat \<Rightarrow> bytes option" where
  "utf8_point c =
     (if c < 0x80 then Some [word_of_nat c]
      else if c < 0x800 then Some [word_of_nat (0xC0 + c div 64), word_of_nat (0x80 + c mod 64)]
      else if c < 0x10000 then
        if is_surrogate c then None
        else Some [word_of_nat (0xE0 + c div 4096), word_of_nat (0x80 + c div 64 mod 64),
          word_of_nat (0x80 + c mod 64)]
      else if c \<le> 0x10FFFF then
        Some [word_of_nat (0xF0 + c div 262144), word_of_nat (0x80 + c div 4096 mod 64),
          word_of_nat (0x80 + c div 64 mod 64), word_of_nat (0x80 + c mod 64)]
      else None)"

fun encode_points :: "(nat \<Rightarrow> bytes option) \<Rightarrow> text_points \<Rightarrow> bytes option" where
  "encode_points f [] = Some []"
| "encode_points f (c # cs) =
     (case (f c, encode_points f cs) of (Some b, Some bs) \<Rightarrow> Some (b @ bs) | _ \<Rightarrow> None)"

definition utf8_encode :: "text_points \<Rightarrow> bytes option" where
  "utf8_encode s = encode_points utf8_point s"

subsection \<open>UTF-16\<close>

text \<open>Two bytes are a unit; a pair of surrogate units is a point above 0xFFFF.\<close>

definition unit16 :: "bool \<Rightarrow> byte \<Rightarrow> byte \<Rightarrow> nat" where
  "unit16 little a b = (if little then unat a + 256 * unat b else 256 * unat a + unat b)"

fun utf16_decode :: "bool \<Rightarrow> bytes \<Rightarrow> text_points option" where
  "utf16_decode little [] = Some []"
| "utf16_decode little [a] = None"
| "utf16_decode little (a # b # bs) =
     (let u = unit16 little a b
      in if \<not> is_surrogate u then map_option ((#) u) (utf16_decode little bs)
         else if 0xDC00 \<le> u then None
         else (case bs of
                 c # d # r \<Rightarrow>
                   (let v = unit16 little c d
                    in if 0xDC00 \<le> v \<and> v < 0xE000
                       then map_option ((#) (0x10000 + (u - 0xD800) * 0x400 + (v - 0xDC00)))
                         (utf16_decode little r)
                       else None)
               | _ \<Rightarrow> None))"

definition unit_bytes :: "bool \<Rightarrow> nat \<Rightarrow> bytes" where
  "unit_bytes little u =
     (if little then [word_of_nat (u mod 256), word_of_nat (u div 256)]
      else [word_of_nat (u div 256), word_of_nat (u mod 256)])"

definition utf16_point :: "bool \<Rightarrow> nat \<Rightarrow> bytes option" where
  "utf16_point little c =
     (if c < 0x10000 then if is_surrogate c then None else Some (unit_bytes little c)
      else if c \<le> 0x10FFFF then
        Some (unit_bytes little (0xD800 + (c - 0x10000) div 0x400) @
          unit_bytes little (0xDC00 + (c - 0x10000) mod 0x400))
      else None)"

definition utf16_encode :: "bool \<Rightarrow> text_points \<Rightarrow> bytes option" where
  "utf16_encode little s = encode_points (utf16_point little) s"

subsection \<open>The adapter\<close>

datatype encoding = UTF8 | UTF16_LE | UTF16_BE

definition encodings :: "encoding list" where
  "encodings = [UTF8, UTF16_LE, UTF16_BE]"

fun codec_decode :: "encoding \<Rightarrow> bytes \<Rightarrow> text_points option" where
  "codec_decode UTF8 bs = utf8_decode bs"
| "codec_decode UTF16_LE bs = utf16_decode True bs"
| "codec_decode UTF16_BE bs = utf16_decode False bs"

fun codec_encode :: "encoding \<Rightarrow> text_points \<Rightarrow> bytes option" where
  "codec_encode UTF8 s = utf8_encode s"
| "codec_encode UTF16_LE s = utf16_encode True s"
| "codec_encode UTF16_BE s = utf16_encode False s"

text \<open>\<open>allow_bytestring\<close> is a parameter of the constructor that is never stored.\<close>

definition no_allow_bytestring :: exn where
  "no_allow_bytestring = AttributeError ''allow_bytestring''"

definition cannot_encode :: exn where
  "cannot_encode = LibraryError ''ConstructError: Object cannot be encoded''"

fun text_decode :: "encoding list \<Rightarrow> bytes \<Rightarrow> exn + text_points" where
  "text_decode [] obj = Inl no_allow_bytestring"
| "text_decode (encoding # es) obj =
     (case codec_decode encoding obj of Some s \<Rightarrow> Inr s | None \<Rightarrow> text_decode es obj)"

fun encode_first :: "encoding list \<Rightarrow> nat \<Rightarrow> text_points \<Rightarrow> exn + bytes" where
  "encode_first [] len obj = Inl cannot_encode"
| "encode_first (encoding # es) len obj =
     (case codec_encode encoding obj of
        None \<Rightarrow> encode_first es len obj
      | Some s \<Rightarrow> if length s = len then Inr s else encode_first es len obj)"

text \<open>What is built is bytes, which are kept, or text.\<close>

definition text_encode :: "encoding list \<Rightarrow> nat \<Rightarrow> bytes + text_points \<Rightarrow> exn + bytes" where
  "text_encode es len obj = (case obj of Inl bs \<Rightarrow> Inr bs | Inr s \<Rightarrow> encode_first es len s)"

subsection \<open>Lemmas\<close>

lemma byte_of_nat [simp]: "word_of_nat (unat b) = (b :: byte)"
  by simp

lemma div_mod_64: "y < 64 \<Longrightarrow> (x * 64 + y) div 64 = x \<and> (x * 64 + y) mod 64 = (y :: nat)"
  by simp

lemma utf8_step_encodes:
  assumes "utf8_step bs = Some (c, r)"
  shows "\<exists>b. utf8_point c = Some b \<and> bs = b @ r"
proof -
  obtain a t where bs: "bs = a # t"
    using assms by (cases bs) auto
  consider (one) "unat a < 0x80" "c = unat a" "r = t"
    | (two) b where "0xC2 \<le> unat a" "unat a < 0xE0" "t = b # r" "cont_byte b" "c = point2 a b"
    | (three) b d where "0xE0 \<le> unat a" "unat a < 0xF0" "t = b # d # r" "cont_byte b" "cont_byte d"
        "c = point3 a b d" "0x800 \<le> c" "\<not> is_surrogate c"
    | (four) b d e where "0xF0 \<le> unat a" "unat a < 0xF5" "t = b # d # e # r" "cont_byte b"
        "cont_byte d" "cont_byte e" "c = point4 a b d e" "0x10000 \<le> c" "c \<le> 0x10FFFF"
    using assms bs by (auto split: if_splits list.splits)
  then show ?thesis
  proof cases
    case one
    then show ?thesis
      using bs by (simp add: utf8_point_def)
  next
    case two
    define x y where "x = unat a - 0xC0" and "y = unat b - 0x80"
    have xy: "unat a = 0xC0 + x" "unat b = 0x80 + y" "y < 64" "2 \<le> x" "x < 32"
      using two by (auto simp: cont_byte_def x_def y_def)
    have c: "c = x * 64 + y"
      using two by (simp add: point2_def x_def y_def)
    then have "c div 64 = x" "c mod 64 = y" "0x80 \<le> c" "c < 0x800"
      using xy by auto
    then have "utf8_point c = Some [word_of_nat (unat a), word_of_nat (unat b)]"
      unfolding xy by (simp add: utf8_point_def)
    with two bs show ?thesis
      by simp
  next
    case three
    define x y z where "x = unat a - 0xE0" and "y = unat b - 0x80" and "z = unat d - 0x80"
    have xyz: "unat a = 0xE0 + x" "unat b = 0x80 + y" "unat d = 0x80 + z" "y < 64" "z < 64" "x < 16"
      using three by (auto simp: cont_byte_def x_def y_def z_def)
    have c: "c = (x * 64 + y) * 64 + z"
      using three by (simp add: point3_def x_def y_def z_def)
    then have "c div 64 = x * 64 + y \<and> c mod 64 = z" and "c < 0x10000"
      using div_mod_64 [OF xyz(5), of "x * 64 + y"] xyz by (blast, simp)
    moreover have "c div 4096 = c div 64 div 64"
      by (simp flip: div_mult2_eq)
    ultimately have "c div 4096 = x" "c div 64 mod 64 = y" "c mod 64 = z" "c < 0x10000"
      using xyz by simp_all
    then have "utf8_point c = Some [word_of_nat (unat a), word_of_nat (unat b), word_of_nat (unat d)]"
      unfolding xyz using three(7,8) by (simp add: utf8_point_def)
    with three bs show ?thesis
      by simp
  next
    case four
    define x y z w where "x = unat a - 0xF0" and "y = unat b - 0x80" and "z = unat d - 0x80"
      and "w = unat e - 0x80"
    have xyz: "unat a = 0xF0 + x" "unat b = 0x80 + y" "unat d = 0x80 + z" "unat e = 0x80 + w"
      "y < 64" "z < 64" "w < 64"
      using four by (auto simp: cont_byte_def x_def y_def z_def w_def)
    have c: "c = ((x * 64 + y) * 64 + z) * 64 + w"
      using four by (simp add: point4_def x_def y_def z_def w_def)
    then have "c div 64 = (x * 64 + y) * 64 + z \<and> c mod 64 = w"
      using div_mod_64 [OF xyz(7), of "(x * 64 + y) * 64 + z"] by blast
    moreover from this have "c div 64 div 64 = x * 64 + y \<and> c div 64 mod 64 = z"
      using div_mod_64 [OF xyz(6), of "x * 64 + y"] by (simp only:)
    moreover from this have "c div 64 div 64 div 64 = x \<and> c div 64 div 64 mod 64 = y"
      using div_mod_64 [OF xyz(5), of x] by (simp only:)
    moreover have "c div 4096 = c div 64 div 64" "c div 262144 = c div 64 div 64 div 64"
      by (simp_all flip: div_mult2_eq)
    ultimately have "c div 262144 = x" "c div 4096 mod 64 = y" "c div 64 mod 64 = z" "c mod 64 = w"
      by (simp_all only:)
    then have "utf8_point c =
        Some [word_of_nat (unat a), word_of_nat (unat b), word_of_nat (unat d), word_of_nat (unat e)]"
      unfolding xyz using four(8,9) by (simp add: utf8_point_def)
    with four bs show ?thesis
      by simp
  qed
qed

lemma utf8_decode_encode: "utf8_decode bs = Some s \<Longrightarrow> utf8_encode s = Some bs"
proof (induction bs arbitrary: s rule: utf8_decode.induct)
  case (1 bs)
  show ?case
  proof (cases "bs = []")
    case True
    then show ?thesis
      using 1 by (simp add: utf8_decode.simps utf8_encode_def)
  next
    case False
    then obtain c r s' where step: "utf8_step bs = Some (c, r)" and rest: "utf8_decode r = Some s'"
      and s: "s = c # s'"
      using 1(2) by (subst (asm) utf8_decode.simps) (auto split: option.splits)
    obtain b where "utf8_point c = Some b" "bs = b @ r"
      using utf8_step_encodes [OF step] by blast
    moreover have "utf8_encode s' = Some r"
      using 1(1) False step rest by blast
    ultimately show ?thesis
      by (simp add: utf8_encode_def s)
  qed
qed

lemma unit16_bytes [simp]:
  "unit_bytes little (unit16 little a b) = [a, b]" "unit16 little a b < 0x10000"
proof -
  have split: "(x + 256 * y) mod 256 = x \<and> (x + 256 * y) div 256 = y \<and> (256 * y + x) mod 256 = x \<and>
      (256 * y + x) div 256 = y" if "x < 256" for x y :: nat
    using that by simp
  have "(unat a + 256 * unat b) mod 256 = unat a" "(unat a + 256 * unat b) div 256 = unat b"
    "(256 * unat a + unat b) mod 256 = unat b" "(256 * unat a + unat b) div 256 = unat a"
    using split [OF unat_byte_less] by blast+
  then show "unit_bytes little (unit16 little a b) = [a, b]"
    by (simp add: unit_bytes_def unit16_def)
  show "unit16 little a b < 0x10000"
    using unat_byte_less [of a] unat_byte_less [of b] by (simp add: unit16_def del: unat_byte_less)
qed

lemma utf16_pair:
  assumes "is_surrogate u" and "u < 0xDC00" and "0xDC00 \<le> v" and "v < 0xE000"
  shows "utf16_point little (0x10000 + (u - 0xD800) * 0x400 + (v - 0xDC00)) =
    Some (unit_bytes little u @ unit_bytes little v)"
proof -
  have split: "(x * 0x400 + y) div 0x400 = x \<and> (x * 0x400 + y) mod 0x400 = y" if "y < 0x400" for x y :: nat
    using that by simp
  have "v - 0xDC00 < 0x400"
    using assms(3,4) by linarith
  then have "((u - 0xD800) * 0x400 + (v - 0xDC00)) div 0x400 = u - 0xD800"
    "((u - 0xD800) * 0x400 + (v - 0xDC00)) mod 0x400 = v - 0xDC00"
    using split by blast+
  then show ?thesis
    using assms by (simp add: utf16_point_def is_surrogate_def)
qed

lemma utf16_decode_encode: "utf16_decode little bs = Some s \<Longrightarrow> utf16_encode little s = Some bs"
proof (induction little bs arbitrary: s rule: utf16_decode.induct)
  case (3 little a b bs)
  let ?u = "unit16 little a b"
  consider (plain) s' where "\<not> is_surrogate ?u" "utf16_decode little bs = Some s'" "s = ?u # s'"
    | (pair) c d r s' where "is_surrogate ?u" "?u < 0xDC00" "bs = c # d # r"
        "0xDC00 \<le> unit16 little c d" "unit16 little c d < 0xE000" "utf16_decode little r = Some s'"
        "s = (0x10000 + (?u - 0xD800) * 0x400 + (unit16 little c d - 0xDC00)) # s'"
    using 3(3) by (auto simp: Let_def split: if_splits list.splits)
  then show ?case
  proof cases
    case plain
    then have "utf16_encode little s' = Some bs"
      using 3(1) by blast
    with plain show ?thesis
      by (simp add: utf16_encode_def utf16_point_def)
  next
    case pair
    then have "utf16_encode little s' = Some r"
      using 3(2) [OF refl] by force
    with pair utf16_pair [OF pair(1,2,4,5)] show ?thesis
      by (simp add: utf16_encode_def)
  qed
qed (simp_all add: utf16_encode_def)

text \<open>
  What the adapter asks of a codec: that it writes a text it has read as the bytes it was read from.
  Then it reads no text from two byte strings.
\<close>

locale text_codec =
  fixes decode :: "bytes \<Rightarrow> text_points option"
    and encode :: "text_points \<Rightarrow> bytes option"
  assumes encode_decoded: "decode bs = Some s \<Longrightarrow> encode s = Some bs"
begin

lemma decode_inject: "decode bs = Some s \<Longrightarrow> decode bs' = Some s \<Longrightarrow> bs = bs'"
  using encode_decoded [of bs s] encode_decoded [of bs' s] by simp

end

interpretation utf8: text_codec utf8_decode utf8_encode
  by unfold_locales (rule utf8_decode_encode)

interpretation utf16: text_codec "utf16_decode little" "utf16_encode little" for little
  by unfold_locales (rule utf16_decode_encode)

text \<open>Reading one byte order as the other.\<close>

fun swap_pairs :: "bytes \<Rightarrow> bytes" where
  "swap_pairs (a # b # bs) = b # a # swap_pairs bs"
| "swap_pairs _ = []"

lemma unit16_swap: "unit16 False a b = unit16 True b a"
  by (simp add: unit16_def)

lemma length_swap_pairs: "utf16_decode little bs = Some s \<Longrightarrow> length (swap_pairs bs) = length bs"
proof (induction little bs arbitrary: s rule: utf16_decode.induct)
  case (3 little a b bs)
  then show ?case
    by (force simp: Let_def split: if_splits list.splits)
qed simp_all

lemma utf16_decode_swap:
  "utf16_decode False bs = Some s \<Longrightarrow> utf16_decode True (swap_pairs bs) = Some s"
proof (induction False bs arbitrary: s rule: utf16_decode.induct)
  case (3 a b bs)
  then show ?case
    by (fastforce simp: Let_def unit16_swap split: if_splits list.splits)
qed simp_all

lemma utf16_encode_swapped:
  "utf16_decode False bs = Some s \<Longrightarrow>
     utf16_encode True s = Some (swap_pairs bs) \<and> length (swap_pairs bs) = length bs"
  using utf16.encode_decoded [OF utf16_decode_swap] length_swap_pairs by blast

subsection \<open>Reading a name and writing it again\<close>

text \<open>
  C33. What becomes of the bytes of a network's name that is read and written again: a name in UTF-8 comes
  back as it was. Any other name does not, if its text in UTF-8 happens to be as long; else one read as
  little-endian UTF-16 comes back, and one read as big-endian comes back with the bytes of every unit
  swapped. Two names in UTF-8 are never read as the same text. A name that no codec reads raises \<open>AttributeError\<close>, for the flag that allows bytes is
  never stored.
\<close>

theorem ssid_rewritten:
  "(\<forall>s. text_decode encodings bs = Inr s \<longrightarrow>
      text_encode encodings (length bs) (Inr s) = Inr
        (if utf8_decode bs \<noteq> None then bs
         else case utf8_encode s of
           Some b8 \<Rightarrow>
             if length b8 = length bs then b8
             else if utf16_decode True bs \<noteq> None then bs else swap_pairs bs
         | None \<Rightarrow> if utf16_decode True bs \<noteq> None then bs else swap_pairs bs)) \<and>
   (\<forall>bs'. utf8_decode bs \<noteq> None \<and> utf8_decode bs' \<noteq> None \<and>
      text_decode encodings bs = text_decode encodings bs' \<longrightarrow> bs = bs') \<and>
   (utf8_decode bs = None \<and> utf16_decode True bs = None \<and> utf16_decode False bs = None \<longrightarrow>
      text_decode encodings bs = Inl no_allow_bytestring)"
proof (intro conjI allI impI)
  fix s
  assume "text_decode encodings bs = Inr s"
  then consider (utf8) "utf8_decode bs = Some s"
    | (le) "utf8_decode bs = None" "utf16_decode True bs = Some s"
    | (be) "utf8_decode bs = None" "utf16_decode True bs = None" "utf16_decode False bs = Some s"
    by (auto simp: encodings_def split: option.splits)
  then show "text_encode encodings (length bs) (Inr s) = Inr
        (if utf8_decode bs \<noteq> None then bs
         else case utf8_encode s of
           Some b8 \<Rightarrow>
             if length b8 = length bs then b8
             else if utf16_decode True bs \<noteq> None then bs else swap_pairs bs
         | None \<Rightarrow> if utf16_decode True bs \<noteq> None then bs else swap_pairs bs)"
  proof cases
    case utf8
    then show ?thesis
      using utf8.encode_decoded [OF utf8] by (simp add: text_encode_def encodings_def)
  next
    case le
    then show ?thesis
      using utf16.encode_decoded [OF le(2)] by (simp add: text_encode_def encodings_def split: option.splits)
  next
    case be
    then show ?thesis
      using utf16_encode_swapped [OF be(3)] by (simp add: text_encode_def encodings_def split: option.splits)
  qed
next
  fix bs'
  assume "utf8_decode bs \<noteq> None \<and> utf8_decode bs' \<noteq> None \<and>
    text_decode encodings bs = text_decode encodings bs'"
  then show "bs = bs'"
    by (auto simp: encodings_def intro: utf8.decode_inject)
qed (simp add: encodings_def)

theorem ssid_rewritten_witness:
  "text_decode encodings [0xE9, 0] = Inr [0xE9] \<and>
   text_encode encodings 2 (Inr [0xE9]) = Inr [0xC3, 0xA9] \<and>
   text_decode encodings [0x41, 0xD8] = Inr [0x41D8] \<and>
   text_encode encodings 2 (Inr [0x41D8]) = Inr [0xD8, 0x41] \<and>
   text_decode encodings [0xFF] = Inl no_allow_bytestring"
proof -
  have le: "utf8_decode [0xE9, 0] = None" "utf16_decode True [0xE9, 0] = Some [0xE9]"
    and be: "utf8_decode [0x41, 0xD8] = None" "utf16_decode True [0x41, 0xD8] = None"
      "utf16_decode False [0x41, 0xD8] = Some [0x41D8]"
    and none: "utf8_decode [0xFF] = None" "utf16_decode True [0xFF] = None" "utf16_decode False [0xFF] = None"
    by (simp_all add: utf8_decode.simps unit16_def is_surrogate_def)
  have "text_decode encodings [0xE9, 0] = Inr [0xE9]"
    "text_decode encodings [0x41, 0xD8] = Inr [0x41D8]"
    using le be by (simp_all add: encodings_def)
  moreover have "utf8_encode [0xE9] = Some [0xC3, 0xA9]" "\<exists>b. utf8_encode [0x41D8] = Some b \<and> length b = 3"
    by (simp_all add: utf8_encode_def utf8_point_def is_surrogate_def)
  ultimately show ?thesis
    using ssid_rewritten [of "[0xE9, 0]"] ssid_rewritten [of "[0x41, 0xD8]"] ssid_rewritten [of "[0xFF]"]
      le be none by (auto simp: numeral_2_eq_2 simp del: utf16_decode.simps)
qed

end
