(* ===== verification/Custom_Types.thy ===== *)
theory Custom_Types
  imports Range_Set
begin

section \<open>Types of parameters\<close>

text \<open>
  Models \<open>utils/custom_types\<close>: how values of the SDK's own types are read from a parameter file and
  written to one. Range sets are text with their parsed ranges, \<open>HexBytes\<close> are written as hex, and
  members of an enumeration by name. What pydantic does around these functions is a parameter.
\<close>

subsection \<open>Range sets as objects\<close>

record number_range_set =
  input_string :: string
  number_ranges :: "range list"

definition range_set_init :: "(string \<Rightarrow> exn + int) \<Rightarrow> string \<Rightarrow> exn + number_range_set" where
  "range_set_init parse_number s =
     (case parse_nmap_ranges parse_number s of
        Inl e \<Rightarrow> Inl e
      | Inr rs \<Rightarrow> Inr \<lparr>input_string = s, number_ranges = rs\<rparr>)"

definition range_set_repr :: "number_range_set \<Rightarrow> string" where
  "range_set_repr r = input_string r"

definition range_set_serialize :: "number_range_set \<Rightarrow> string" where
  "range_set_serialize r = input_string r"

text \<open>A value is a text or already a set.\<close>

definition range_set_validate ::
  "(string \<Rightarrow> exn + int) \<Rightarrow> string + number_range_set \<Rightarrow> exn + number_range_set" where
  "range_set_validate parse_number v =
     (case v of Inr r \<Rightarrow> Inr r | Inl s \<Rightarrow> range_set_init parse_number s)"

subsection \<open>Bytes as hex\<close>

datatype hex_input = HexBytes bytes | HexByteArray bytes | HexText string | OtherInput

definition bytes_error :: exn where
  "bytes_error = TypeError ''Input should be a valid bytes''"

fun hex_bytes_validator :: "hex_input \<Rightarrow> exn + bytes" where
  "hex_bytes_validator (HexBytes b) = Inr b"
| "hex_bytes_validator (HexByteArray b) = Inr b"
| "hex_bytes_validator (HexText s) = bytes_fromhex s"
| "hex_bytes_validator OtherInput = Inl bytes_error"

subsection \<open>Enumerations by name\<close>

text \<open>
  \<open>members\<close> are the names of an enumeration with its members; a later name of the same member is an
  alias. \<open>validate_next\<close> is pydantic's check that a value is one of the names.
\<close>

definition enum_names :: "(string \<times> 'e) list \<Rightarrow> string list" where
  "enum_names members = map fst members"

definition get_enum ::
  "(string \<times> 'e) list \<Rightarrow> ('v \<Rightarrow> exn + string) \<Rightarrow> 'v + 'e \<Rightarrow> exn + 'e" where
  "get_enum members validate_next value =
     (case value of
        Inr m \<Rightarrow> Inr m
      | Inl v \<Rightarrow>
          (case validate_next v of
             Inl e \<Rightarrow> Inl e
           | Inr name \<Rightarrow> (case map_of members name of None \<Rightarrow> Inl KeyError | Some m \<Rightarrow> Inr m)))"

definition enum_name :: "(string \<times> 'e) list \<Rightarrow> 'e \<Rightarrow> string option" where
  "enum_name members m = map_option fst (find (\<lambda>(n, x). x = m) members)"

subsection \<open>Lemmas\<close>

lemma range_set_reread:
  assumes "range_set_init parse_number s = Inr r"
  shows "range_set_validate parse_number (Inl (range_set_serialize r)) = Inr r"
  using assms
  by (auto simp: range_set_init_def range_set_validate_def range_set_serialize_def split: sum.splits)

lemma enum_name_found:
  assumes "distinct (enum_names members)" and "m \<in> snd ` set members"
  shows "\<exists>n. enum_name members m = Some n \<and> n \<in> set (enum_names members) \<and> map_of members n = Some m"
proof -
  have "find (\<lambda>(n, x). x = m) members \<noteq> None"
    using assms(2) by (auto simp: find_None_iff)
  then obtain n x where found: "find (\<lambda>(n, x). x = m) members = Some (n, x)"
    by (metis option.exhaust surj_pair)
  then have "(n, x) \<in> set members" and "x = m"
    using nth_mem by (fastforce simp: find_Some_iff)+
  then show ?thesis
    using found assms(1) by (force simp: enum_name_def enum_names_def)
qed

lemma enum_reread:
  assumes "distinct (enum_names members)" and "m \<in> snd ` set members"
    and "\<And>n. n \<in> set (enum_names members) \<Longrightarrow> validate_next (as_value n) = Inr n"
  shows "\<exists>n. enum_name members m = Some n \<and>
    get_enum members validate_next (Inl (as_value n)) = Inr m"
  using enum_name_found [OF assms(1,2)] assms(3) by (auto simp: get_enum_def)

text \<open>
  What is written to a parameter file is read back as it was: a range set, bytes, and a member of an
  enumeration whose names are distinct, when pydantic's check lets the names of the members pass.
\<close>

theorem parameters_reread:
  assumes "range_set_init parse_number s = Inr r"
    and "distinct (enum_names members)" and "m \<in> snd ` set members"
    and "\<And>n. n \<in> set (enum_names members) \<Longrightarrow> validate_next (as_value n) = Inr n"
  shows "range_set_validate parse_number (Inl (range_set_serialize r)) = Inr r \<and>
    hex_bytes_validator (HexText (bytes_hex bs)) = Inr bs \<and>
    (\<exists>n. enum_name members m = Some n \<and> get_enum members validate_next (Inl (as_value n)) = Inr m)"
  using range_set_reread [OF assms(1)] bytes_fromhex_hex enum_reread [of members m validate_next as_value, OF assms(2,3,4)] by auto

theorem parameters_reread_witness:
  "hex_bytes_validator (HexText (bytes_hex [0xC0, 0x01])) = Inr [0xC0, 0x01] \<and>
   get_enum [(''LOW'', False), (''HIGH'', True)] Inr (Inl ''HIGH'') = Inr True"
proof -
  have "range_set_init dec_parse_number [] = Inr \<lparr>input_string = [], number_ranges = []\<rparr>"
    by (simp add: range_set_init_def parse_nmap_ranges_def)
  from parameters_reread [OF this, of "[(''LOW'', False), (''HIGH'', True)]" True Inr "\<lambda>n. n" "[0xC0, 0x01]"]
  show ?thesis
    by (simp add: enum_names_def enum_name_def get_enum_def)
qed

end
