(* ===== verification/Reports.thy ===== *)
theory Reports
  imports Uds_Models Py_Int
begin

section \<open>Reports\<close>

text \<open>
  Models the data classes in which scans report what they found, with the texts they print:
  \<open>protocol/uds/models/uds_models.py\<close>, \<open>protocol/doip/impl/doip_models.py\<close>,
  \<open>protocol/isotp/models/isotp_models.py\<close> and \<open>communication/wlan/types.py\<close>.
\<close>

subsection \<open>Numbers in texts\<close>

text \<open>\<open>round(n / 2)\<close>: a half is rounded to the even neighbour.\<close>

definition round_half :: "nat \<Rightarrow> nat" where
  "round_half n = (if even n \<or> even (n div 2) then n div 2 else n div 2 + 1)"

text \<open>An optional text counts as false when it is missing or empty.\<close>

definition when_text :: "string option \<Rightarrow> (string \<Rightarrow> string) \<Rightarrow> string" where
  "when_text t f = (case t of None \<Rightarrow> [] | Some s \<Rightarrow> if s = [] then [] else f s)"

definition data_preview :: "string \<Rightarrow> string" where
  "data_preview d = py_str (int (round_half (length d))) @ ''): '' @ take 20 d"

subsection \<open>UDS\<close>

record error_code_and_name =
  code :: int
  code_name :: string

definition error_code_str :: "error_code_and_name \<Rightarrow> string" where
  "error_code_str e = ''('' @ py_hex (code e) @ '') '' @ code_name e"

definition maybe_supported :: "error_code_and_name option \<Rightarrow> string" where
  "maybe_supported e = (case e of None \<Rightarrow> [] | Some x \<Rightarrow> '', Maybe supported error: '' @ error_code_str x)"

record service_info =
  service_sid :: int
  service_name :: string
  service_error :: "error_code_and_name option"
  service_accessible :: bool

definition service_info_str :: "service_info \<Rightarrow> string" where
  "service_info_str s =
     service_name s @ '' ('' @ py_hex (service_sid s) @ '')'' @
     (if service_accessible s then '', Accessible'' else '', Inaccessible'') @
     (case service_error s of None \<Rightarrow> [] | Some e \<Rightarrow> '', Error: '' @ error_code_str e)"

record did_info =
  did_number :: int
  did_name :: "string option"
  did_accessible :: bool
  did_data :: "string option"
  did_error :: "error_code_and_name option"

definition did_info_str :: "did_info \<Rightarrow> string" where
  "did_info_str d =
     ''DID '' @ py_hex (did_number d) @ '' ('' @
     (let n = when_text (did_name d) (\<lambda>s. s) in if n = [] then ''Unknown'' else n) @ ''), '' @
     (if did_accessible d then ''Accessible'' else ''Inaccessible'') @ maybe_supported (did_error d) @ '', '' @
     when_text (did_data d) (\<lambda>s. ''Data (len='' @ data_preview s)"

record routine_operation_info =
  control_type :: int
  operation_accessible :: bool
  operation_error :: "error_code_and_name option"
  routine_status_record :: "string option"

definition routine_operation_str :: "routine_operation_info \<Rightarrow> string" where
  "routine_operation_str r =
     ''Routine control type '' @ py_hex (control_type r) @
     (if operation_accessible r then '', Accessible'' else '', Inaccessible'') @
     maybe_supported (operation_error r) @
     when_text (routine_status_record r) (\<lambda>s. '', Routine status record (len='' @ data_preview s)"

record routine_info =
  routine_id :: int
  operations :: "routine_operation_info list"

definition routine_info_str :: "routine_info \<Rightarrow> string" where
  "routine_info_str r =
     ''Routine ID '' @ py_hex (routine_id r) @ '', Sub Operations:'' @ NL @
     join_text NL (map routine_operation_str (operations r)) @ NL"

definition elevation_info_str :: "elevation_info \<Rightarrow> string" where
  "elevation_info_str e =
     (if need_elevation e = Some True then ''Needs elevation'' else []) @ '', '' @
     (if security_algorithm e \<noteq> None then ''Elevation Callback is available'' else [])"

subsection \<open>DoIP\<close>

text \<open>
  The description of \<open>eid\<close> is given where the default is expected: a message without one has the
  description for its entity.
\<close>

definition default_eid :: string where
  "default_eid = ''This is a unique identification of the DoIP entity''"

record vehicle_identification =
  vin :: string
  target_address :: int
  eid :: string
  gid :: string
  further_action_required :: int
  vin_gid_sync_status :: "int option"

definition vehicle_identification_of ::
  "string \<Rightarrow> int \<Rightarrow> string option \<Rightarrow> string \<Rightarrow> int \<Rightarrow> int option \<Rightarrow> vehicle_identification" where
  "vehicle_identification_of v a e g f s =
     \<lparr>vin = v, target_address = a, eid = (case e of None \<Rightarrow> default_eid | Some x \<Rightarrow> x), gid = g,
      further_action_required = f, vin_gid_sync_status = s\<rparr>"

text \<open>A status of zero counts as false.\<close>

definition vehicle_identification_str :: "vehicle_identification \<Rightarrow> string" where
  "vehicle_identification_str i =
     ''Vehicle identification:'' @ NL @ ''vin: '' @ vin i @ '', eid: '' @ eid i @ '', gid: '' @ gid i @
     '', target logical address: '' @ py_hex (target_address i) @
     '', further action required: '' @ py_str (further_action_required i) @
     (case vin_gid_sync_status i of
        None \<Rightarrow> []
      | Some s \<Rightarrow> if s = 0 then [] else '', vin gid sync status: '' @ py_str s) @ NL"

record routing_activation =
  source_logical_address :: int
  activation_code :: int
  src_addr_range_desc :: string

definition routing_activation_str :: "routing_activation \<Rightarrow> string" where
  "routing_activation_str r =
     ''Routing activation for source logical address: '' @ py_hex (source_logical_address r) @ NL @
     ''response code: '' @ py_hex (activation_code r) @ NL @
     ''description of used source address range: '' @ src_addr_range_desc r @ NL"

record entity_status =
  node_type :: int
  max_concurrent_sockets :: int
  currently_open_sockets :: int
  max_data_size :: int

definition entity_status_str :: "entity_status \<Rightarrow> string" where
  "entity_status_str s =
     ''Entity status:'' @ NL @ ''node type: '' @ py_hex (node_type s) @
     '', max concurrent sockets: '' @ py_str (max_concurrent_sockets s) @
     '', currently open sockets: '' @ py_str (currently_open_sockets s) @
     '', max data size: '' @ py_hex (max_data_size s) @ NL"

record doip_target =
  target_ip :: string
  target_source_ip :: string
  target_source_port :: int
  target_port :: int
  routing_vehicle_id_response :: vehicle_identification
  entity_status_response :: "entity_status option"
  routing_activation_response :: "routing_activation option"

definition doip_target_str :: "doip_target \<Rightarrow> string" where
  "doip_target_str t =
     ''DoIP target identified:'' @ NL @ ''source: '' @ target_source_ip t @ '':'' @
     py_str (target_source_port t) @ '', target: '' @ target_ip t @ '':'' @
     py_str (target_port t) @ '', '' @ NL @
     vehicle_identification_str (routing_vehicle_id_response t) @
     (case routing_activation_response t of None \<Rightarrow> [] | Some r \<Rightarrow> routing_activation_str r) @
     (case entity_status_response t of None \<Rightarrow> [] | Some s \<Rightarrow> entity_status_str s)"

subsection \<open>ISO-TP and WLAN\<close>

record isotp_pair =
  rxid :: int
  txid :: int
  support_uds :: bool

definition isotp_pair_str :: "isotp_pair \<Rightarrow> string" where
  "isotp_pair_str p =
     ''[rxid: '' @ py_hex (rxid p) @ '', txid: '' @ py_hex (txid p) @ '']'' @
     (if support_uds p then '' UDS supported'' else [])"

record beacon_info =
  beacon_ssid :: string
  beacon_mac :: string
  beacon_security :: "string list option"
  raw_information_elements :: bytes

text \<open>The list of securities is optional, and iterating \<open>None\<close> raises.\<close>

definition not_iterable :: exn where
  "not_iterable = TypeError ''NoneType object is not iterable''"

definition beacon_info_str :: "beacon_info \<Rightarrow> exn + string" where
  "beacon_info_str b =
     (case beacon_security b of
        None \<Rightarrow> Inl not_iterable
      | Some secs \<Rightarrow>
          Inr (''Beacon info:'' @ NL @ ''SSID: '' @ beacon_ssid b @ '', MAC: '' @ beacon_mac b @
            '', securities: '' @ join_text '', '' secs @ NL))"

subsection \<open>What can be read back\<close>

lemma unsigned_hex: "unsigned_value 16 (''0x'' @ show_base 16 n) = Some (int n)"
proof -
  have "digits_value 16 0 True (show_base 16 n) = Some (int n)"
    using digits_value_show [of 16 n "[]"] by simp
  moreover have "hd (show_base 16 n) \<noteq> CHR ''_''"
  proof -
    have "hd (show_base 16 n) \<in> set (show_base 16 n)"
      by simp
    then obtain d where "d < 16" "hd (show_base 16 n) = hex_digit d"
      using show_base_digits [of 16 "hd (show_base 16 n)" n] by auto
    then show ?thesis
      by simp
  qed
  ultimately show ?thesis
    by (simp add: unsigned_value_def base_prefix_def)
qed

lemma py_hex_plain: "\<forall>c\<in>set (''0x'' @ show_base 16 n). \<not> is_py_space c"
proof
  fix c
  assume "c \<in> set (''0x'' @ show_base 16 n)"
  then have "c \<in> {CHR ''0'', CHR ''x''} \<or> c \<in> set (show_base 16 n)"
    by auto
  moreover have "\<not> is_py_space c" if "c \<in> set (show_base 16 n)"
    using show_base_digits [OF _ _ that] hex_digit_plain(5) by fastforce
  moreover have "\<not> is_py_space (CHR ''0'')" "\<not> is_py_space (CHR ''x'')"
    by (simp_all add: is_py_space_def)
  ultimately show "\<not> is_py_space c"
    by auto
qed

text \<open>
  The numbers a report prints are the ones it was made of: read as hexadecimal they give the number
  back, negative ones included; the length of data given in hex is its number of bytes; and the
  preview is at most twenty characters of it.
\<close>

theorem report_numbers:
  "py_int 16 (py_hex n) = Inr n \<and>
   (\<exists>len. data_preview (bytes_hex bs) = len @ ''): '' @ take 20 (bytes_hex bs) \<and>
      py_int 10 len = Inr (int (length bs)))"
proof
  have strip: "py_strip (py_hex n) = py_hex n"
    using py_hex_plain [of "nat \<bar>n\<bar>"]
    by (intro py_strip_digits) (auto simp: py_hex_def is_py_space_def)
  show "py_int 16 (py_hex n) = Inr n"
    unfolding py_int_def strip using unsigned_hex [of "nat \<bar>n\<bar>"]
    by (cases "n < 0") (simp_all add: py_hex_def Let_def)
  have "py_int 10 (py_str (int k)) = Inr (int k)" for k
    using py_int_show(1) [of 10 k] by (simp add: py_str_def)
  moreover have "round_half (length (bytes_hex bs)) = length bs"
    by (simp add: round_half_def length_bytes_hex)
  ultimately show "\<exists>len. data_preview (bytes_hex bs) = len @ ''): '' @ take 20 (bytes_hex bs) \<and>
      py_int 10 len = Inr (int (length bs))"
    by (auto simp: data_preview_def)
qed

text \<open>
  Two statuses print alike: a vehicle that reports that its identifiers are synchronised, which is the
  status zero, and one that reports nothing. A message without an entity identifier is given the
  description of the field, and a beacon without securities cannot be printed.
\<close>

theorem reports_lose:
  "vehicle_identification_str (i\<lparr>vin_gid_sync_status := Some 0\<rparr>) =
     vehicle_identification_str (i\<lparr>vin_gid_sync_status := None\<rparr>) \<and>
   eid (vehicle_identification_of v a None g f s) = default_eid \<and>
   (beacon_info_str b = Inl not_iterable \<longleftrightarrow> beacon_security b = None)"
  by (auto simp: vehicle_identification_str_def vehicle_identification_of_def beacon_info_str_def
      split: option.splits)

end
