(* ===== verification/Spec2Isabelle.thy ===== *)
theory Spec2Isabelle
  imports Uds_Utils Doip_Session Plugins Someip Config_Session Config_Reports Wlan_Sockets
    Shells Ip_Utils Usb_Device Wlan_Radiotap Ieee80211 Wlan_Frames Wlan_Text Custom_Types Reports
begin

text \<open>
  A model of the in-vehicle SDK (\<open>cyclarity_in_vehicle_sdk\<close>), the library with which test programs
  talk to the electronic control units of a vehicle.

  \<^bold>\<open>The program.\<close> At the bottom are communicators, one for each transport: CAN, ISO-TP, TCP, UDP,
  multicast, raw sockets, DoIP over TCP. Over them are the protocols: a UDS client that sends a
  diagnostic request through any communicator and waits for its response, DoIP, and SOME/IP. Over
  the UDS client are plugins: crash detectors, reset and recovery. Beside them are WLAN sockets with
  their packets, the configuration of the network interfaces, shells on the target, and helpers: signing,
  range sets, building addresses, a simulated USB device.

  \<^bold>\<open>How the code is translated.\<close> A method is a function to the monad \<open>py\<close> of \<open>Prelude\<close>: from a state
  to an outcome (a value, an exception, or no return) and the new state, which is kept when an
  exception is raised, as in Python. A class with its attributes is a record; the world it talks to
  is in the same record as scripts: the results of the next calls of the operating system or of a
  third-party library, in order, and the readings of the clock. No theorem fixes a script, so the
  theorems hold for every behaviour of the peer. Third-party code (udsoncan, doipclient,
  cryptography, py_pcapplusplus, python-can, can-isotp) is a record of functions given as a
  parameter, of which nothing is assumed but what a theorem says. Times are rationals; the rounding of
  floats is not modelled. Log calls are left out, and the texts of exceptions are kept without the
  values put into them.

  \<^bold>\<open>The theories and the files they model\<close>, under \<open>cyclarity_in_vehicle_sdk/\<close>:
  \<^item> \<open>Prelude\<close>: outcomes, the monad with its rules (\<open>py_inv\<close>, \<open>returns\<close>, \<open>keeps\<close>, \<open>moves\<close>), \<open>bytes\<close>
    and their printing. \<open>Py_Int\<close>: Python's \<open>int(text, base)\<close>, which inverts printing,
    and the printing of numbers and joining of texts that reports share.
  \<^item> \<open>Communicator\<close>: \<open>communication/base/communicator_base.py\<close>, and the laws the protocols rely on, as
    locales: \<open>message_link\<close> (calls return, and what is still to arrive shrinks with every message),
    \<open>journal_link\<close> (what was received is recorded) and \<open>queue_link\<close> (messages arrive in order).
  \<^item> \<open>Can_Communicator\<close>, \<open>Isotp_Communicator\<close>, \<open>Tcp_Communicator\<close>, \<open>Doip_Communicator\<close>:
    \<open>communication/can\<close>, \<open>isotp\<close>, \<open>ip/tcp\<close>, \<open>doip\<close>. The last three are interpretations of
    \<open>message_link\<close>; ISO-TP is one of \<open>queue_link\<close>, TCP one of \<open>journal_link\<close>.
  \<^item> \<open>Datagrams\<close>: \<open>communication/ip/udp\<close>, both interpretations of the locale \<open>datagram_link\<close>.
  \<^item> \<open>Raw_Sockets\<close>: \<open>communication/ip/raw\<close> and \<open>ip/base\<close>, both interpretations of \<open>packet_link\<close>.
  \<^item> \<open>Doip_Utils\<close>, \<open>Doip_Requests\<close>, \<open>Doip_Session\<close>: \<open>protocol/doip/impl/doip_utils.py\<close>, over a
    communicator, over raw sockets, and its setting up and tearing down.
  \<^item> \<open>Uds_Models\<close>, \<open>Crypto_Utils\<close>, \<open>Uds_Exchange\<close>, \<open>Uds_Utils\<close>: \<open>protocol/uds\<close> and \<open>utils/crypto\<close>:
    the models, signing, the exchange of a request and its response, the services.
  \<^item> \<open>Someip\<close>: \<open>protocol/someip\<close>, over the locale \<open>datagram_link\<close>.
  \<^item> \<open>Mac_Parsing\<close>, \<open>Wlan_Text\<close>, \<open>Wlan_Layouts\<close>, \<open>Wlan_Frames\<close>, \<open>Wlan\<close>, \<open>Wlan_Sockets\<close>:
    \<open>communication/wlan\<close>: the adapters and enumerations of frames, the names of networks, the layouts of
    frames and elements, which layout a frame has, packets with
    their decryption and classification, the sockets. The three codecs of names are interpretations of
    \<open>text_codec\<close>; \<open>DataSubtype\<close> has the order of its names.
  \<^item> \<open>Vht\<close>, \<open>Radiotap\<close>, \<open>Ieee80211\<close>: \<open>external/python_radiotap/radiotap\<close> (\<open>vht.py\<close> and the two parsers of
    \<open>radiotap.py\<close>); \<open>Wlan_Radiotap\<close> puts the parser in the place \<open>Wlan\<close> leaves for it, as an
    interpretation of \<open>header_parser\<close>, and receives captures with it through the sockets.
  \<^item> \<open>Config_Manager\<close>, \<open>Config_Session\<close>, \<open>Config_Reports\<close>: \<open>configuration_manager\<close>: the actions, the manager
    as a context, what the models print. What no action changes is an interpretation of
    \<open>network_invariant\<close>.
  \<^item> \<open>Shells\<close>: \<open>utils/shell_device\<close>, three interpretations of \<open>device_shell\<close>; \<open>Ip_Utils\<close>: \<open>utils/ip\<close>;
    \<open>Usb_Device\<close>: \<open>utils/usb\<close>.
  \<^item> \<open>Plugins\<close>: \<open>plugin\<close>. \<open>Range_Set\<close>, \<open>Custom_Types\<close>: \<open>utils/custom_types\<close>; the five number
    parsers of \<open>range_set.py\<close> are interpretations of the locale \<open>number_parser\<close>.
  \<^item> \<open>Reports\<close>: the result classes of \<open>protocol/uds/models\<close>, \<open>protocol/doip/impl/doip_models.py\<close>,
    \<open>protocol/isotp/models\<close> and \<open>communication/wlan/types.py\<close>.

  \<^bold>\<open>What the lemmas show.\<close> For every communicator: its life cycle, that its flags and its sockets
  agree, that receiving ends, and that data arrives in order. For the UDS client: that a response
  returned belongs to its request, that an exchange ends whatever the peer and the clock do, that it
  computes the answer given by the queue of waiting messages, how often a request is sent, and what
  each service does with the answers. For DoIP: that nothing is sent before routing is activated,
  that connections are cached correctly, and which are closed in the end. For SOME/IP: that discovery finds exactly what is
  offered. For WLAN: that decryption uses the inputs the standard prescribes, how a network is
  classified, and that closing a monitor socket puts the interface back; which elements of a frame are
  read within their length, and that writing a radiotap header and parsing it gives back its fields, each
  value of its type, down to the packet a capture is received as, and which body a frame has. For the
  configuration: that adding and removing an address undo each other, that the options of the CAN mode
  stay on, when the manager closes its database, and that what is read from the device can be printed. For the shells: when
  a password is written, and what a command gives. Where the code does not do what its documentation or its tests suggest, the theorem says
  what it does.

  \<^bold>\<open>Loops.\<close> A loop that Python bounds only by a clock or by what arrives takes fuel, and the
  definitions that use it give it more than the measure \<open>pending\<close> of what is still to arrive;
  \<open>message_link\<close> says each round that goes on uses some of that up, and the termination theorems say
  that the result is never the out-of-fuel outcome. A loop that may really wait for ever gives
  \<open>Diverge\<close>.

  \<^bold>\<open>Not modelled.\<close> Code that only declares: the abstract methods of base classes, pydantic schemas
  and field descriptions. The segmentation of ISO-TP, the packing of DoIP and UDS messages, and all
  cryptography, which the third-party packages do. Reading bytes by the layouts of 802.11 frames, which
  construct does: \<open>Wlan_Layouts\<close> has what the declarations say, not how they are interpreted. Getters of a field
  and the \<open>__str__\<close> of the communicators.
\<close>

end
